theory Spec2Isabelle
  imports Complex_Main "HOL-Library.Word"
begin

unbundle bit_operations_syntax

section \<open>TimeKeeper: the shared musical timeline\<close>

text \<open>
  The static members of \<open>TimeKeeper\<close> (timekeeper.h / timekeeper.cpp) form one record.
  \<open>uint32_t\<close> fields are \<open>32 word\<close>, the sample position is a \<open>64 word\<close>, so every
  \<open>+\<close>, \<open>-\<close> and \<open>*\<close> below wraps exactly as the C++ unsigned arithmetic does.
  The \<open>TRACE\<close> macro only appends to the debug trace buffer and is left out.
\<close>

type_synonym u32 = "32 word"
type_synonym u64 = "64 word"

datatype TransportState = STOPPED | PLAYING | RECORDING

record timekeeper =
  s_samplePosition :: u64
  s_beatNumber :: u32
  s_tickInBeat :: u32
  s_samplesPerBeat :: u32
  s_transportState :: TransportState
  s_beatFlag :: bool

definition SAMPLE_RATE :: u32 where
  "SAMPLE_RATE = 44100"

definition BEATS_PER_BAR :: u32 where
  "BEATS_PER_BAR = 4"

definition MIDI_PPQN :: u32 where
  "MIDI_PPQN = 24"

definition DEFAULT_BPM :: u32 where
  "DEFAULT_BPM = 120"

definition DEFAULT_SAMPLES_PER_BEAT :: u32 where
  "DEFAULT_SAMPLES_PER_BEAT = (SAMPLE_RATE * 60) div DEFAULT_BPM"

definition AUDIO_BLOCK_SAMPLES :: nat where
  "AUDIO_BLOCK_SAMPLES = 128"

text \<open>The static initialisers of timekeeper.cpp.\<close>

definition tk_init :: timekeeper where
  "tk_init = \<lparr> s_samplePosition = 0, s_beatNumber = 0, s_tickInBeat = 0,
               s_samplesPerBeat = DEFAULT_SAMPLES_PER_BEAT,
               s_transportState = STOPPED, s_beatFlag = False \<rparr>"

text \<open>\<open>TimeKeeper::reset\<close>: the beat flag is not touched.\<close>

definition reset :: "timekeeper \<Rightarrow> timekeeper" where
  "reset s = s\<lparr> s_samplePosition := 0, s_beatNumber := 0, s_tickInBeat := 0,
               s_samplesPerBeat := DEFAULT_SAMPLES_PER_BEAT,
               s_transportState := STOPPED \<rparr>"

definition incrementSamples :: "u32 \<Rightarrow> timekeeper \<Rightarrow> timekeeper" where
  "incrementSamples numSamples s =
     s\<lparr> s_samplePosition := s_samplePosition s + ucast numSamples \<rparr>"

definition getSamplePosition :: "timekeeper \<Rightarrow> u64" where
  "getSamplePosition s = s_samplePosition s"

text \<open>
  \<open>TimeKeeper::syncToMIDIClock\<close>. The product is formed in 64 bits
  (\<open>(uint64_t)tickPeriodUs * MIDI_PPQN\<close>, then \<open>* SAMPLE_RATE\<close>, then \<open>/ 1000000ULL\<close>);
  the quotient is stored in the \<open>uint32_t spb\<close>, which keeps its low 32 bits.
\<close>

definition sync_spb :: "u32 \<Rightarrow> u32" where
  "sync_spb tickPeriodUs =
     (let beatPeriodUs = (ucast tickPeriodUs :: u64) * ucast MIDI_PPQN
      in ucast ((beatPeriodUs * ucast SAMPLE_RATE) div 1000000))"

definition syncToMIDIClock :: "u32 \<Rightarrow> timekeeper \<Rightarrow> timekeeper" where
  "syncToMIDIClock tickPeriodUs s =
     (let spb = sync_spb tickPeriodUs
      in if spb \<ge> 8000 \<and> spb \<le> 100000
         then s\<lparr> s_samplesPerBeat := spb \<rparr>
         else s)"

definition setSamplesPerBeat :: "u32 \<Rightarrow> timekeeper \<Rightarrow> timekeeper" where
  "setSamplesPerBeat samplesPerBeat s = s\<lparr> s_samplesPerBeat := samplesPerBeat \<rparr>"

text \<open>\<open>TimeKeeper::incrementTick\<close>.\<close>

definition incrementTick :: "timekeeper \<Rightarrow> timekeeper" where
  "incrementTick s =
     (let tick = s_tickInBeat s + 1
      in if tick \<ge> MIDI_PPQN
         then s\<lparr> s_beatNumber := s_beatNumber s + 1, s_beatFlag := True, s_tickInBeat := 0 \<rparr>
         else s\<lparr> s_tickInBeat := tick \<rparr>)"

definition setTransportState :: "TransportState \<Rightarrow> timekeeper \<Rightarrow> timekeeper" where
  "setTransportState st s = s\<lparr> s_transportState := st \<rparr>"

definition getBeatNumber :: "timekeeper \<Rightarrow> u32" where
  "getBeatNumber s = s_beatNumber s"

definition getTickInBeat :: "timekeeper \<Rightarrow> u32" where
  "getTickInBeat s = s_tickInBeat s"

definition getSamplesPerBeat :: "timekeeper \<Rightarrow> u32" where
  "getSamplesPerBeat s = s_samplesPerBeat s"

text \<open>\<open>TimeKeeper::pollBeatFlag\<close>: atomic exchange with false.\<close>

definition pollBeatFlag :: "timekeeper \<Rightarrow> bool \<times> timekeeper" where
  "pollBeatFlag s = (s_beatFlag s, s\<lparr> s_beatFlag := False \<rparr>)"

text \<open>
  \<open>TimeKeeper::samplesToNextBeat\<close>. \<open>currentSample % spb\<close> is undefined in C++ for
  \<open>spb = 0\<close>; the model returns \<open>None\<close> there.
\<close>

definition samplesToNextBeat :: "timekeeper \<Rightarrow> u32 option" where
  "samplesToNextBeat s =
     (let currentSample = getSamplePosition s;
          spb = getSamplesPerBeat s
      in if spb = 0 then None
         else
           (let sampleWithinBeat = (ucast (currentSample mod ucast spb) :: u32);
                samplesToNext = spb - sampleWithinBeat
            in if sampleWithinBeat \<le> 16 then Some 0 else Some samplesToNext))"

text \<open>
  \<open>TimeKeeper::samplesToNextSubdivision\<close>: tick based. The division
  \<open>samplesElapsedInBeat / subdivision\<close> is reached only when \<open>subdivision < spb\<close>;
  with \<open>subdivision = 0\<close> it is undefined in C++ and the model returns \<open>None\<close>.
\<close>

definition samplesToNextSubdivision :: "timekeeper \<Rightarrow> u32 \<Rightarrow> u32 option" where
  "samplesToNextSubdivision s subdivision =
     (let spb = getSamplesPerBeat s;
          tickInBeat = getTickInBeat s;
          samplesPerTick = spb div MIDI_PPQN;
          samplesElapsedInBeat = tickInBeat * samplesPerTick
      in if subdivision \<ge> spb then Some (spb - samplesElapsedInBeat)
         else if subdivision = 0 then None
         else
           (let subdivisionIndex = samplesElapsedInBeat div subdivision;
                nextSubdivisionStart = (subdivisionIndex + 1) * subdivision;
                nextSubdivisionStart' =
                  (if nextSubdivisionStart > spb then spb else nextSubdivisionStart)
            in Some (nextSubdivisionStart' - samplesElapsedInBeat)))"

section \<open>Quantization selector and command messages\<close>

text \<open>effect_quantization.h / effect_quantization.cpp: the global grid and the lookahead.\<close>

datatype Quantization = QUANT_32 | QUANT_16 | QUANT_8 | QUANT_4

record quantization_state =
  globalQuantization :: Quantization
  lookaheadOffset :: u32

definition EffectQuantization_initialize :: quantization_state where
  "EffectQuantization_initialize = \<lparr> globalQuantization = QUANT_16, lookaheadOffset = 128 \<rparr>"

definition calculateQuantizedDuration :: "timekeeper \<Rightarrow> Quantization \<Rightarrow> u32" where
  "calculateQuantizedDuration tk quant =
     (let samplesPerBeat = getSamplesPerBeat tk
      in case quant of
           QUANT_32 \<Rightarrow> samplesPerBeat div 8
         | QUANT_16 \<Rightarrow> samplesPerBeat div 4
         | QUANT_8 \<Rightarrow> samplesPerBeat div 2
         | QUANT_4 \<Rightarrow> samplesPerBeat)"

definition samplesToNextQuantizedBoundary :: "timekeeper \<Rightarrow> Quantization \<Rightarrow> u32 option" where
  "samplesToNextQuantizedBoundary tk quant =
     (let subdivision = calculateQuantizedDuration tk quant
      in samplesToNextSubdivision tk subdivision)"

text \<open>command.h: the 8-byte command message.\<close>

datatype CommandType = NONE | EFFECT_TOGGLE | EFFECT_ENABLE | EFFECT_DISABLE | EFFECT_SET_PARAM

datatype EffectID = NONE | STUTTER | FREEZE | CHOKE | FUNC

record Command =
  cmd_type :: CommandType
  targetEffect :: EffectID
  param1 :: "8 word"
  param2 :: "8 word"
  cmd_value :: u32

section \<open>CHOKE engine\<close>

text \<open>
  \<open>AudioEffectChoke\<close>. An audio block is the 128-sample \<open>int16_t data[]\<close> array. The two
  gains are \<open>float\<close>s; the engine assigns them the literals 0.0 and 1.0 and otherwise
  feeds them to single-precision arithmetic in \<open>update\<close>. That arithmetic is not
  interpreted here: \<open>update\<close> takes it as the two functions of a \<open>float_unit\<close>
  (\<open>gainIncrement target current\<close> for \<open>(m_targetGain - m_currentGain) / FADE_SAMPLES\<close> and
  \<open>applyGainRamp gain data inc\<close> for the ramp loop, returning the new current gain and
  the scaled block), so every statement below holds for whatever the hardware computes.
\<close>

type_synonym audio_block = "16 word list"

datatype ChokeLength = FREE | QUANTIZED

datatype ChokeOnset = FREE | QUANTIZED

record choke =
  m_currentGain :: real
  m_targetGain :: real
  m_isEnabled_c :: bool
  m_lengthMode_c :: ChokeLength
  m_releaseAtSample_c :: u64
  m_onsetMode_c :: ChokeOnset
  m_onsetAtSample_c :: u64

record float_unit =
  gainIncrement :: "real \<Rightarrow> real \<Rightarrow> real"
  applyGainRamp :: "real \<Rightarrow> audio_block \<Rightarrow> real \<Rightarrow> real \<times> audio_block"

definition Choke_init :: choke where
  "Choke_init = \<lparr> m_currentGain = 1, m_targetGain = 1, m_isEnabled_c = False,
                  m_lengthMode_c = ChokeLength.FREE, m_releaseAtSample_c = 0,
                  m_onsetMode_c = ChokeOnset.FREE, m_onsetAtSample_c = 0 \<rparr>"

definition Choke_enable :: "choke \<Rightarrow> choke" where
  "Choke_enable s = s\<lparr> m_targetGain := 0, m_isEnabled_c := True \<rparr>"

definition Choke_disable :: "choke \<Rightarrow> choke" where
  "Choke_disable s = s\<lparr> m_targetGain := 1, m_isEnabled_c := False \<rparr>"

definition Choke_isEnabled :: "choke \<Rightarrow> bool" where
  "Choke_isEnabled s = m_isEnabled_c s"

definition Choke_toggle :: "choke \<Rightarrow> choke" where
  "Choke_toggle s = (if Choke_isEnabled s then Choke_disable s else Choke_enable s)"

definition Choke_setLengthMode :: "ChokeLength \<Rightarrow> choke \<Rightarrow> choke" where
  "Choke_setLengthMode mode s = s\<lparr> m_lengthMode_c := mode \<rparr>"

definition Choke_getLengthMode :: "choke \<Rightarrow> ChokeLength" where
  "Choke_getLengthMode s = m_lengthMode_c s"

definition Choke_scheduleRelease :: "u64 \<Rightarrow> choke \<Rightarrow> choke" where
  "Choke_scheduleRelease releaseSample s = s\<lparr> m_releaseAtSample_c := releaseSample \<rparr>"

definition Choke_cancelScheduledRelease :: "choke \<Rightarrow> choke" where
  "Choke_cancelScheduledRelease s = s\<lparr> m_releaseAtSample_c := 0 \<rparr>"

definition Choke_scheduleOnset :: "u64 \<Rightarrow> choke \<Rightarrow> choke" where
  "Choke_scheduleOnset onsetSample s = s\<lparr> m_onsetAtSample_c := onsetSample \<rparr>"

definition Choke_cancelScheduledOnset :: "choke \<Rightarrow> choke" where
  "Choke_cancelScheduledOnset s = s\<lparr> m_onsetAtSample_c := 0 \<rparr>"

definition Choke_setOnsetMode :: "ChokeOnset \<Rightarrow> choke \<Rightarrow> choke" where
  "Choke_setOnsetMode mode s = s\<lparr> m_onsetMode_c := mode \<rparr>"

definition Choke_getOnsetMode :: "choke \<Rightarrow> ChokeOnset" where
  "Choke_getOnsetMode s = m_onsetMode_c s"

text \<open>
  \<open>AudioEffectChoke::update\<close>. \<open>currentSample\<close> is \<open>TimeKeeper::getSamplePosition()\<close>;
  \<open>blockL\<close> and \<open>blockR\<close> are what \<open>receiveWritable\<close> returns (\<open>None\<close> for a null
  pointer). The result carries the blocks transmitted on the two outputs.
\<close>

definition Choke_update ::
  "float_unit \<Rightarrow> u64 \<Rightarrow> audio_block option \<Rightarrow> audio_block option \<Rightarrow> choke
     \<Rightarrow> choke \<times> audio_block option \<times> audio_block option" where
  "Choke_update fp currentSample blockL blockR s =
     (let blockEndSample = currentSample + of_nat AUDIO_BLOCK_SAMPLES;
          s1 = (if m_onsetAtSample_c s > 0 \<and> m_onsetAtSample_c s \<ge> currentSample
                   \<and> m_onsetAtSample_c s < blockEndSample
                then s\<lparr> m_targetGain := 0, m_isEnabled_c := True, m_onsetAtSample_c := 0 \<rparr>
                else s);
          s2 = (if m_releaseAtSample_c s1 > 0 \<and> m_releaseAtSample_c s1 \<ge> currentSample
                   \<and> m_releaseAtSample_c s1 < blockEndSample
                then s1\<lparr> m_targetGain := 1, m_isEnabled_c := False, m_releaseAtSample_c := 0 \<rparr>
                else s1);
          inc = gainIncrement fp (m_targetGain s2) (m_currentGain s2);
          (s3, outL) = (case blockL of
                          None \<Rightarrow> (s2, None)
                        | Some dataL \<Rightarrow>
                            (let (g, d) = applyGainRamp fp (m_currentGain s2) dataL inc
                             in (s2\<lparr> m_currentGain := g \<rparr>, Some d)));
          (s4, outR) = (case blockR of
                          None \<Rightarrow> (s3, None)
                        | Some dataR \<Rightarrow>
                            (let (g, d) = applyGainRamp fp (m_currentGain s3) dataR inc
                             in (s3\<lparr> m_currentGain := g \<rparr>, Some d)))
      in (s4, outL, outR))"

section \<open>CHOKE controller\<close>

text \<open>
  \<open>ChokeController::handleButtonPress\<close> and \<open>handleButtonRelease\<close>, as functions of the
  globals they read (quantization state, TimeKeeper) and of the engine they drive. The
  result is the returned "handled" flag with the engine afterwards. Serial output, the
  LED and the display calls are left out. A quantized onset with a subdivision of 0
  divides by zero inside \<open>samplesToNextSubdivision\<close>; the model returns \<open>None\<close> there.
\<close>

definition ChokeController_handleButtonPress ::
  "quantization_state \<Rightarrow> timekeeper \<Rightarrow> Command \<Rightarrow> choke \<Rightarrow> (bool \<times> choke) option" where
  "ChokeController_handleButtonPress q tk cmd m_effect =
     (if targetEffect cmd \<noteq> EffectID.CHOKE then Some (False, m_effect)
      else if cmd_type cmd \<noteq> EFFECT_ENABLE \<and> cmd_type cmd \<noteq> EFFECT_TOGGLE
      then Some (False, m_effect)
      else
        (let lengthMode = Choke_getLengthMode m_effect;
             onsetMode = Choke_getOnsetMode m_effect
         in if onsetMode = ChokeOnset.FREE
            then
              (let e1 = Choke_enable m_effect
               in if lengthMode = ChokeLength.QUANTIZED
                  then
                    (let quant = globalQuantization q;
                         durationSamples = calculateQuantizedDuration tk quant;
                         releaseSample = getSamplePosition tk + ucast durationSamples
                     in Some (True, Choke_scheduleRelease releaseSample e1))
                  else Some (True, e1))
            else
              (let quant = globalQuantization q;
                   currentSample = getSamplePosition tk
               in case samplesToNextQuantizedBoundary tk quant of
                    None \<Rightarrow> None
                  | Some samplesToNext \<Rightarrow>
                      (let lookahead = lookaheadOffset q;
                           adjustedSamples =
                             (if samplesToNext > lookahead then samplesToNext - lookahead else 0);
                           onsetSample = currentSample + ucast adjustedSamples;
                           e1 = Choke_scheduleOnset onsetSample m_effect
                       in if lengthMode = ChokeLength.QUANTIZED
                          then
                            (let durationSamples = calculateQuantizedDuration tk quant;
                                 releaseSample = onsetSample + ucast durationSamples
                             in Some (True, Choke_scheduleRelease releaseSample e1))
                          else Some (True, e1)))))"

definition ChokeController_handleButtonRelease :: "Command \<Rightarrow> choke \<Rightarrow> bool \<times> choke" where
  "ChokeController_handleButtonRelease cmd m_effect =
     (if targetEffect cmd \<noteq> EffectID.CHOKE then (False, m_effect)
      else if cmd_type cmd \<noteq> EFFECT_DISABLE then (False, m_effect)
      else if Choke_getLengthMode m_effect = ChokeLength.QUANTIZED then (True, m_effect)
      else (False, Choke_cancelScheduledOnset m_effect))"

section \<open>FREEZE engine\<close>

text \<open>
  \<open>AudioEffectFreeze\<close>. The two sample buffers are arrays indexed by position, modelled
  as functions from the index; \<open>size_t\<close> positions are natural numbers (they stay below
  the buffer size, see \<open>Freeze_positions_bounded\<close>, so no increment wraps and no access
  leaves the array). \<open>memset\<close> in the constructor zeroes the buffers.
\<close>

datatype FreezeLength = FREE | QUANTIZED

datatype FreezeOnset = FREE | QUANTIZED

record freeze =
  m_freezeBufferL :: "nat \<Rightarrow> 16 word"
  m_freezeBufferR :: "nat \<Rightarrow> 16 word"
  m_writePos_f :: nat
  m_readPos_f :: nat
  m_isEnabled_f :: bool
  m_lengthMode_f :: FreezeLength
  m_releaseAtSample_f :: u64
  m_onsetMode_f :: FreezeOnset
  m_onsetAtSample_f :: u64

definition FREEZE_BUFFER_MS :: u32 where
  "FREEZE_BUFFER_MS = 3"

definition FREEZE_BUFFER_SAMPLES :: nat where
  "FREEZE_BUFFER_SAMPLES = unat ((FREEZE_BUFFER_MS * SAMPLE_RATE) div 1000)"

definition Freeze_init :: freeze where
  "Freeze_init = \<lparr> m_freezeBufferL = (\<lambda>_. 0), m_freezeBufferR = (\<lambda>_. 0),
                   m_writePos_f = 0, m_readPos_f = 0, m_isEnabled_f = False,
                   m_lengthMode_f = FreezeLength.FREE, m_releaseAtSample_f = 0,
                   m_onsetMode_f = FreezeOnset.FREE, m_onsetAtSample_f = 0 \<rparr>"

definition Freeze_enable :: "freeze \<Rightarrow> freeze" where
  "Freeze_enable s = s\<lparr> m_readPos_f := m_writePos_f s, m_isEnabled_f := True \<rparr>"

definition Freeze_disable :: "freeze \<Rightarrow> freeze" where
  "Freeze_disable s = s\<lparr> m_isEnabled_f := False \<rparr>"

definition Freeze_isEnabled :: "freeze \<Rightarrow> bool" where
  "Freeze_isEnabled s = m_isEnabled_f s"

definition Freeze_toggle :: "freeze \<Rightarrow> freeze" where
  "Freeze_toggle s = (if Freeze_isEnabled s then Freeze_disable s else Freeze_enable s)"

definition Freeze_setLengthMode :: "FreezeLength \<Rightarrow> freeze \<Rightarrow> freeze" where
  "Freeze_setLengthMode mode s = s\<lparr> m_lengthMode_f := mode \<rparr>"

definition Freeze_scheduleRelease :: "u64 \<Rightarrow> freeze \<Rightarrow> freeze" where
  "Freeze_scheduleRelease releaseSample s = s\<lparr> m_releaseAtSample_f := releaseSample \<rparr>"

definition Freeze_scheduleOnset :: "u64 \<Rightarrow> freeze \<Rightarrow> freeze" where
  "Freeze_scheduleOnset onsetSample s = s\<lparr> m_onsetAtSample_f := onsetSample \<rparr>"

definition Freeze_cancelScheduledOnset :: "freeze \<Rightarrow> freeze" where
  "Freeze_cancelScheduledOnset s = s\<lparr> m_onsetAtSample_f := 0 \<rparr>"

definition Freeze_setOnsetMode :: "FreezeOnset \<Rightarrow> freeze \<Rightarrow> freeze" where
  "Freeze_setOnsetMode mode s = s\<lparr> m_onsetMode_f := mode \<rparr>"

text \<open>
  The passthrough loop of \<open>update\<close> records the input block into the circular buffer;
  \<open>Freeze_record_sample\<close> is its body for one sample pair.
\<close>

definition Freeze_record_sample :: "16 word \<Rightarrow> 16 word \<Rightarrow> freeze \<Rightarrow> freeze" where
  "Freeze_record_sample sampleL sampleR s =
     (let s1 = s\<lparr> m_freezeBufferL := (m_freezeBufferL s)(m_writePos_f s := sampleL),
                  m_freezeBufferR := (m_freezeBufferR s)(m_writePos_f s := sampleR),
                  m_writePos_f := m_writePos_f s + 1 \<rparr>
      in if m_writePos_f s1 \<ge> FREEZE_BUFFER_SAMPLES then s1\<lparr> m_writePos_f := 0 \<rparr> else s1)"

function Freeze_record_loop :: "nat \<Rightarrow> audio_block \<Rightarrow> audio_block \<Rightarrow> freeze \<Rightarrow> freeze" where
  "Freeze_record_loop i blockL blockR s =
     (if i < AUDIO_BLOCK_SAMPLES
      then Freeze_record_loop (i + 1) blockL blockR
             (Freeze_record_sample (blockL ! i) (blockR ! i) s)
      else s)"
  by pat_completeness auto
termination
  by (relation "measure (\<lambda>(i, blockL, blockR, s). AUDIO_BLOCK_SAMPLES - i)") auto

declare Freeze_record_loop.simps [simp del]

text \<open>
  The frozen loop of \<open>update\<close>: \<open>outL->data[i]\<close> and \<open>outR->data[i]\<close> are filled for
  \<open>i = 0 .. 127\<close>; the lists collect the samples in that order. \<open>Freeze_advance_read\<close> is
  the circular increment of the read position.
\<close>

definition Freeze_advance_read :: "freeze \<Rightarrow> freeze" where
  "Freeze_advance_read s =
     (let s1 = s\<lparr> m_readPos_f := m_readPos_f s + 1 \<rparr>
      in if m_readPos_f s1 \<ge> FREEZE_BUFFER_SAMPLES then s1\<lparr> m_readPos_f := 0 \<rparr> else s1)"

function Freeze_play_loop ::
  "nat \<Rightarrow> audio_block \<Rightarrow> audio_block \<Rightarrow> freeze \<Rightarrow> freeze \<times> audio_block \<times> audio_block" where
  "Freeze_play_loop i outL outR s =
     (if i < AUDIO_BLOCK_SAMPLES
      then Freeze_play_loop (i + 1)
             (outL @ [m_freezeBufferL s (m_readPos_f s)])
             (outR @ [m_freezeBufferR s (m_readPos_f s)])
             (Freeze_advance_read s)
      else (s, outL, outR))"
  by pat_completeness auto
termination
  by (relation "measure (\<lambda>(i, outL, outR, s). AUDIO_BLOCK_SAMPLES - i)") auto

declare Freeze_play_loop.simps [simp del]

text \<open>
  \<open>AudioEffectFreeze::update\<close>. \<open>blockL\<close>, \<open>blockR\<close> are the received input blocks
  (\<open>None\<close> for a null pointer); \<open>allocL\<close>, \<open>allocR\<close> say whether \<open>allocate()\<close> succeeds
  for the two output blocks. The result carries the pair of transmitted blocks, if any.
\<close>

definition Freeze_update ::
  "u64 \<Rightarrow> audio_block option \<Rightarrow> audio_block option \<Rightarrow> bool \<Rightarrow> bool \<Rightarrow> freeze
     \<Rightarrow> freeze \<times> (audio_block \<times> audio_block) option" where
  "Freeze_update currentSample blockL blockR allocL allocR s =
     (let blockEndSample = currentSample + of_nat AUDIO_BLOCK_SAMPLES;
          s1 = (if m_onsetAtSample_f s > 0 \<and> m_onsetAtSample_f s \<ge> currentSample
                   \<and> m_onsetAtSample_f s < blockEndSample
                then s\<lparr> m_readPos_f := m_writePos_f s, m_isEnabled_f := True,
                         m_onsetAtSample_f := 0 \<rparr>
                else s);
          s2 = (if m_releaseAtSample_f s1 > 0 \<and> m_releaseAtSample_f s1 \<ge> currentSample
                   \<and> m_releaseAtSample_f s1 < blockEndSample
                then s1\<lparr> m_isEnabled_f := False, m_releaseAtSample_f := 0 \<rparr>
                else s1);
          frozen = m_isEnabled_f s2
      in if \<not> frozen
         then
           (case (blockL, blockR) of
              (Some dataL, Some dataR) \<Rightarrow>
                (Freeze_record_loop 0 dataL dataR s2, Some (dataL, dataR))
            | _ \<Rightarrow> (s2, None))
         else
           (if allocL \<and> allocR
            then (let (s3, outL, outR) = Freeze_play_loop 0 [] [] s2
                  in (s3, Some (outL, outR)))
            else (s2, None)))"

section \<open>STUTTER engine\<close>

text \<open>
  \<open>AudioEffectStutter\<close> (audio_stutter.h, the eight-state version). As for FREEZE the
  capture buffers are functions from the index and the \<open>size_t\<close> positions are natural
  numbers; \<open>Stutter_positions_bounded\<close> shows that they never exceed the buffer size.
\<close>

datatype StutterLength = FREE | QUANTIZED

datatype StutterOnset = FREE | QUANTIZED

datatype StutterCaptureStart = FREE | QUANTIZED

datatype StutterCaptureEnd = FREE | QUANTIZED

datatype StutterState =
    IDLE_NO_LOOP
  | IDLE_WITH_LOOP
  | WAIT_CAPTURE_START
  | CAPTURING
  | WAIT_CAPTURE_END
  | WAIT_PLAYBACK_ONSET
  | PLAYING
  | WAIT_PLAYBACK_LENGTH

record stutter =
  m_stutterBufferL :: "nat \<Rightarrow> 16 word"
  m_stutterBufferR :: "nat \<Rightarrow> 16 word"
  m_writePos :: nat
  m_readPos :: nat
  m_captureLength :: nat
  m_state :: StutterState
  m_onsetMode :: StutterOnset
  m_lengthMode :: StutterLength
  m_captureStartMode :: StutterCaptureStart
  m_captureEndMode :: StutterCaptureEnd
  m_captureStartAtSample :: u64
  m_captureEndAtSample :: u64
  m_playbackOnsetAtSample :: u64
  m_playbackLengthAtSample :: u64
  m_stutterHeld :: bool

text \<open>
  \<open>STUTTER_BUFFER_SAMPLES = static_cast<size_t>((1 / (MIN_TEMPO / 60.0)) * SAMPLE_RATE) * 4\<close>
  with \<open>MIN_TEMPO = 70\<close>: the constant expression is 37800 in double precision, times 4.
\<close>

definition STUTTER_BUFFER_SAMPLES :: nat where
  "STUTTER_BUFFER_SAMPLES = 37800 * 4"

definition Stutter_init :: stutter where
  "Stutter_init = \<lparr> m_stutterBufferL = (\<lambda>_. 0), m_stutterBufferR = (\<lambda>_. 0),
                    m_writePos = 0, m_readPos = 0, m_captureLength = 0,
                    m_state = IDLE_NO_LOOP,
                    m_onsetMode = StutterOnset.FREE, m_lengthMode = StutterLength.FREE,
                    m_captureStartMode = StutterCaptureStart.FREE,
                    m_captureEndMode = StutterCaptureEnd.FREE,
                    m_captureStartAtSample = 0, m_captureEndAtSample = 0,
                    m_playbackOnsetAtSample = 0, m_playbackLengthAtSample = 0,
                    m_stutterHeld = False \<rparr>"

definition Stutter_enable :: "stutter \<Rightarrow> stutter" where
  "Stutter_enable s = s\<lparr> m_readPos := 0, m_state := StutterState.PLAYING \<rparr>"

definition Stutter_disable :: "stutter \<Rightarrow> stutter" where
  "Stutter_disable s =
     s\<lparr> m_state := IDLE_NO_LOOP, m_captureLength := 0, m_writePos := 0, m_readPos := 0 \<rparr>"

definition Stutter_isEnabled :: "stutter \<Rightarrow> bool" where
  "Stutter_isEnabled s = (m_state s \<noteq> IDLE_NO_LOOP \<and> m_state s \<noteq> IDLE_WITH_LOOP)"

definition Stutter_toggle :: "stutter \<Rightarrow> stutter" where
  "Stutter_toggle s = (if Stutter_isEnabled s then Stutter_disable s else Stutter_enable s)"

definition Stutter_getState :: "stutter \<Rightarrow> StutterState" where
  "Stutter_getState s = m_state s"

definition startCapture :: "stutter \<Rightarrow> stutter" where
  "startCapture s = s\<lparr> m_writePos := 0, m_captureLength := 0, m_state := CAPTURING \<rparr>"

definition scheduleCaptureStart :: "u64 \<Rightarrow> stutter \<Rightarrow> stutter" where
  "scheduleCaptureStart sample s =
     s\<lparr> m_captureStartAtSample := sample, m_state := WAIT_CAPTURE_START \<rparr>"

definition cancelCaptureStart :: "stutter \<Rightarrow> stutter" where
  "cancelCaptureStart s = s\<lparr> m_captureStartAtSample := 0, m_state := IDLE_NO_LOOP \<rparr>"

definition endCapture :: "bool \<Rightarrow> stutter \<Rightarrow> stutter" where
  "endCapture stutterHeld s =
     (if m_writePos s > 0
      then
        (let s1 = s\<lparr> m_captureLength := m_writePos s \<rparr>
         in if stutterHeld
            then s1\<lparr> m_readPos := 0, m_state := StutterState.PLAYING \<rparr>
            else s1\<lparr> m_state := IDLE_WITH_LOOP \<rparr>)
      else s\<lparr> m_state := IDLE_NO_LOOP \<rparr>)"

definition scheduleCaptureEnd :: "u64 \<Rightarrow> bool \<Rightarrow> stutter \<Rightarrow> stutter" where
  "scheduleCaptureEnd sample stutterHeld s =
     s\<lparr> m_captureEndAtSample := sample, m_stutterHeld := stutterHeld,
        m_state := WAIT_CAPTURE_END \<rparr>"

definition startPlayback :: "stutter \<Rightarrow> stutter" where
  "startPlayback s = s\<lparr> m_readPos := 0, m_state := StutterState.PLAYING \<rparr>"

definition schedulePlaybackOnset :: "u64 \<Rightarrow> stutter \<Rightarrow> stutter" where
  "schedulePlaybackOnset sample s =
     s\<lparr> m_playbackOnsetAtSample := sample, m_state := WAIT_PLAYBACK_ONSET \<rparr>"

definition stopPlayback :: "stutter \<Rightarrow> stutter" where
  "stopPlayback s = s\<lparr> m_state := IDLE_WITH_LOOP \<rparr>"

definition schedulePlaybackLength :: "u64 \<Rightarrow> stutter \<Rightarrow> stutter" where
  "schedulePlaybackLength sample s =
     s\<lparr> m_playbackLengthAtSample := sample, m_state := WAIT_PLAYBACK_LENGTH \<rparr>"

definition Stutter_setLengthMode :: "StutterLength \<Rightarrow> stutter \<Rightarrow> stutter" where
  "Stutter_setLengthMode mode s = s\<lparr> m_lengthMode := mode \<rparr>"

definition Stutter_setOnsetMode :: "StutterOnset \<Rightarrow> stutter \<Rightarrow> stutter" where
  "Stutter_setOnsetMode mode s = s\<lparr> m_onsetMode := mode \<rparr>"

definition setCaptureStartMode :: "StutterCaptureStart \<Rightarrow> stutter \<Rightarrow> stutter" where
  "setCaptureStartMode mode s = s\<lparr> m_captureStartMode := mode \<rparr>"

definition setCaptureEndMode :: "StutterCaptureEnd \<Rightarrow> stutter \<Rightarrow> stutter" where
  "setCaptureEndMode mode s = s\<lparr> m_captureEndMode := mode \<rparr>"

subsection \<open>update: the four schedule checks\<close>

text \<open>
  The firing test of every STUTTER schedule is
  \<open>field > 0 && currentSample >= field && currentSample < blockEndSample\<close>.
\<close>

definition schedule_fires :: "u64 \<Rightarrow> u64 \<Rightarrow> bool" where
  "schedule_fires field currentSample =
     (let blockEndSample = currentSample + of_nat AUDIO_BLOCK_SAMPLES
      in field > 0 \<and> currentSample \<ge> field \<and> currentSample < blockEndSample)"

definition check_capture_start :: "u64 \<Rightarrow> stutter \<Rightarrow> stutter" where
  "check_capture_start currentSample s =
     (if schedule_fires (m_captureStartAtSample s) currentSample
      then s\<lparr> m_writePos := 0, m_captureLength := 0, m_state := CAPTURING,
              m_captureStartAtSample := 0 \<rparr>
      else s)"

definition check_capture_end :: "u64 \<Rightarrow> stutter \<Rightarrow> stutter" where
  "check_capture_end currentSample s =
     (if schedule_fires (m_captureEndAtSample s) currentSample
      then
        (let s1 =
           (if m_writePos s > 0
            then
              (let s0 = s\<lparr> m_captureLength := m_writePos s \<rparr>
               in if m_stutterHeld s0
                  then s0\<lparr> m_readPos := 0, m_state := StutterState.PLAYING \<rparr>
                  else s0\<lparr> m_state := IDLE_WITH_LOOP \<rparr>)
            else s\<lparr> m_state := IDLE_NO_LOOP \<rparr>)
         in s1\<lparr> m_captureEndAtSample := 0 \<rparr>)
      else s)"

definition check_playback_onset :: "u64 \<Rightarrow> stutter \<Rightarrow> stutter" where
  "check_playback_onset currentSample s =
     (if schedule_fires (m_playbackOnsetAtSample s) currentSample
      then s\<lparr> m_readPos := 0, m_state := StutterState.PLAYING, m_playbackOnsetAtSample := 0 \<rparr>
      else s)"

definition check_playback_length :: "u64 \<Rightarrow> stutter \<Rightarrow> stutter" where
  "check_playback_length currentSample s =
     (if schedule_fires (m_playbackLengthAtSample s) currentSample
      then s\<lparr> m_state := IDLE_WITH_LOOP, m_playbackLengthAtSample := 0 \<rparr>
      else s)"

subsection \<open>update: audio processing\<close>

text \<open>The capture loop: \<open>for (i = 0; i < AUDIO_BLOCK_SAMPLES && m_writePos < STUTTER_BUFFER_SAMPLES; i++)\<close>.\<close>

function Stutter_capture_loop :: "nat \<Rightarrow> audio_block \<Rightarrow> audio_block \<Rightarrow> stutter \<Rightarrow> stutter" where
  "Stutter_capture_loop i blockL blockR s =
     (if i < AUDIO_BLOCK_SAMPLES \<and> m_writePos s < STUTTER_BUFFER_SAMPLES
      then Stutter_capture_loop (i + 1) blockL blockR
             (s\<lparr> m_stutterBufferL := (m_stutterBufferL s)(m_writePos s := blockL ! i),
                 m_stutterBufferR := (m_stutterBufferR s)(m_writePos s := blockR ! i),
                 m_writePos := m_writePos s + 1 \<rparr>)
      else s)"
  by pat_completeness auto
termination
  by (relation "measure (\<lambda>(i, blockL, blockR, s). AUDIO_BLOCK_SAMPLES - i)") auto

declare Stutter_capture_loop.simps [simp del]

text \<open>The playback loop; the lists collect \<open>outL->data[i]\<close>, \<open>outR->data[i]\<close> in order.\<close>

function Stutter_play_loop ::
  "nat \<Rightarrow> audio_block \<Rightarrow> audio_block \<Rightarrow> stutter \<Rightarrow> stutter \<times> audio_block \<times> audio_block" where
  "Stutter_play_loop i outL outR s =
     (if i < AUDIO_BLOCK_SAMPLES
      then
        (let outL' = outL @ [m_stutterBufferL s (m_readPos s)];
             outR' = outR @ [m_stutterBufferR s (m_readPos s)];
             s1 = s\<lparr> m_readPos := m_readPos s + 1 \<rparr>;
             s2 = (if m_readPos s1 \<ge> m_captureLength s1 then s1\<lparr> m_readPos := 0 \<rparr> else s1)
         in Stutter_play_loop (i + 1) outL' outR' s2)
      else (s, outL, outR))"
  by pat_completeness auto
termination
  by (relation "measure (\<lambda>(i, outL, outR, s). AUDIO_BLOCK_SAMPLES - i)") auto

declare Stutter_play_loop.simps [simp del]

text \<open>
  The \<open>switch (m_state)\<close> of \<open>update\<close>. \<open>blockL\<close>, \<open>blockR\<close> are the received input
  blocks (\<open>None\<close> for a null pointer), \<open>allocL\<close>, \<open>allocR\<close> say whether \<open>allocate()\<close>
  succeeds. The result carries the pair of transmitted blocks, if any.
\<close>

definition process_audio ::
  "audio_block option \<Rightarrow> audio_block option \<Rightarrow> bool \<Rightarrow> bool \<Rightarrow> stutter
     \<Rightarrow> stutter \<times> (audio_block \<times> audio_block) option" where
  "process_audio blockL blockR allocL allocR s =
     (if m_state s = IDLE_NO_LOOP \<or> m_state s = IDLE_WITH_LOOP
         \<or> m_state s = WAIT_CAPTURE_START \<or> m_state s = WAIT_PLAYBACK_ONSET
      then
        (case (blockL, blockR) of
           (Some dataL, Some dataR) \<Rightarrow> (s, Some (dataL, dataR))
         | _ \<Rightarrow> (s, None))
      else if m_state s = CAPTURING \<or> m_state s = WAIT_CAPTURE_END
      then
        (case (blockL, blockR) of
           (Some dataL, Some dataR) \<Rightarrow>
             (let s1 = Stutter_capture_loop 0 dataL dataR s;
                  s2 = (if m_writePos s1 \<ge> STUTTER_BUFFER_SAMPLES
                        then
                          (let s3 = s1\<lparr> m_captureLength := m_writePos s1 \<rparr>;
                               s4 = (if m_stutterHeld s3
                                     then s3\<lparr> m_readPos := 0, m_state := StutterState.PLAYING \<rparr>
                                     else s3\<lparr> m_state := IDLE_WITH_LOOP \<rparr>)
                           in s4\<lparr> m_captureEndAtSample := 0 \<rparr>)
                        else s1)
              in (s2, Some (dataL, dataR)))
         | _ \<Rightarrow> (s, None))
      else
        (if allocL \<and> allocR
         then (let (s1, outL, outR) = Stutter_play_loop 0 [] [] s
               in (s1, Some (outL, outR)))
         else (s, None)))"

text \<open>\<open>AudioEffectStutter::update\<close>: the four checks in source order, then the switch.\<close>

definition Stutter_update ::
  "u64 \<Rightarrow> audio_block option \<Rightarrow> audio_block option \<Rightarrow> bool \<Rightarrow> bool \<Rightarrow> stutter
     \<Rightarrow> stutter \<times> (audio_block \<times> audio_block) option" where
  "Stutter_update currentSample blockL blockR allocL allocR s =
     process_audio blockL blockR allocL allocR
       (check_playback_length currentSample
         (check_playback_onset currentSample
           (check_capture_end currentSample
             (check_capture_start currentSample s))))"

subsection \<open>Sequences of public operations\<close>

text \<open>
  One constructor per public operation of the engine; \<open>Update\<close> carries what the audio
  callback sees (sample position, input blocks, allocation results).
\<close>

datatype stutter_op =
    Enable
  | Disable
  | Toggle
  | StartCapture
  | ScheduleCaptureStart u64
  | CancelCaptureStart
  | EndCapture bool
  | ScheduleCaptureEnd u64 bool
  | StartPlayback
  | SchedulePlaybackOnset u64
  | StopPlayback
  | SchedulePlaybackLength u64
  | SetLengthMode StutterLength
  | SetOnsetMode StutterOnset
  | SetCaptureStartMode StutterCaptureStart
  | SetCaptureEndMode StutterCaptureEnd
  | Update u64 "audio_block option" "audio_block option" bool bool

fun Stutter_apply :: "stutter_op \<Rightarrow> stutter \<Rightarrow> stutter" where
  "Stutter_apply Enable s = Stutter_enable s"
| "Stutter_apply Disable s = Stutter_disable s"
| "Stutter_apply Toggle s = Stutter_toggle s"
| "Stutter_apply StartCapture s = startCapture s"
| "Stutter_apply (ScheduleCaptureStart sample) s = scheduleCaptureStart sample s"
| "Stutter_apply CancelCaptureStart s = cancelCaptureStart s"
| "Stutter_apply (EndCapture held) s = endCapture held s"
| "Stutter_apply (ScheduleCaptureEnd sample held) s = scheduleCaptureEnd sample held s"
| "Stutter_apply StartPlayback s = startPlayback s"
| "Stutter_apply (SchedulePlaybackOnset sample) s = schedulePlaybackOnset sample s"
| "Stutter_apply StopPlayback s = stopPlayback s"
| "Stutter_apply (SchedulePlaybackLength sample) s = schedulePlaybackLength sample s"
| "Stutter_apply (SetLengthMode mode) s = Stutter_setLengthMode mode s"
| "Stutter_apply (SetOnsetMode mode) s = Stutter_setOnsetMode mode s"
| "Stutter_apply (SetCaptureStartMode mode) s = setCaptureStartMode mode s"
| "Stutter_apply (SetCaptureEndMode mode) s = setCaptureEndMode mode s"
| "Stutter_apply (Update currentSample blockL blockR allocL allocR) s =
     fst (Stutter_update currentSample blockL blockR allocL allocR s)"

fun Stutter_run :: "stutter_op list \<Rightarrow> stutter \<Rightarrow> stutter" where
  "Stutter_run [] s = s"
| "Stutter_run (op # ops) s = Stutter_run ops (Stutter_apply op s)"

subsection \<open>Position invariant\<close>

text \<open>
  What every operation of the engine preserves: the capture length never exceeds the
  write position, the write position never exceeds the buffer size, and a PLAYING
  engine reads from position 0 or from inside the loop.
\<close>

definition stutter_inv :: "stutter \<Rightarrow> bool" where
  "stutter_inv s \<longleftrightarrow>
     m_captureLength s \<le> m_writePos s \<and> m_writePos s \<le> STUTTER_BUFFER_SAMPLES
     \<and> (m_state s = StutterState.PLAYING \<longrightarrow> m_readPos s = 0 \<or> m_readPos s < m_captureLength s)"

subsection \<open>The post-capture rule as the specification words it\<close>

text \<open>
  The specification's post-capture transition rule, for comparison with the engine:
  with a captured length above 0 the destination is PLAYING when the stutter-held flag
  is set and IDLE_WITH_LOOP otherwise; with captured length 0 it is IDLE_NO_LOOP.
\<close>

definition spec_post_capture_state :: "bool \<Rightarrow> nat \<Rightarrow> StutterState" where
  "spec_post_capture_state held captureLength =
     (if 0 < captureLength
      then (if held then StutterState.PLAYING else IDLE_WITH_LOOP)
      else IDLE_NO_LOOP)"

section \<open>Command plane: EffectManager\<close>

text \<open>
  The registry \<open>s_effects[0 .. s_numEffects)\<close> holds pairs of an effect id and an
  \<open>AudioEffectBase*\<close>. The three engine objects of main.cpp are the fields of \<open>engines\<close>
  and a pointer to one of them is an \<open>effect_ref\<close>; a virtual call dispatches on it.
  \<open>setParameter\<close> is the base-class default, which ignores its arguments.
\<close>

datatype effect_ref = StutterRef | FreezeRef | ChokeRef

record engines =
  stutter_engine :: stutter
  freeze_engine :: freeze
  choke_engine :: choke

type_synonym registry = "(EffectID \<times> effect_ref) list"

definition MAX_EFFECTS :: nat where
  "MAX_EFFECTS = 4"

fun getEffect :: "EffectID \<Rightarrow> registry \<Rightarrow> effect_ref option" where
  "getEffect eid [] = None"
| "getEffect eid ((i, effect) # rest) = (if i = eid then Some effect else getEffect eid rest)"

text \<open>\<open>registerEffect\<close> for a non-null pointer: the flag returned and the registry afterwards.\<close>

definition registerEffect :: "EffectID \<Rightarrow> effect_ref \<Rightarrow> registry \<Rightarrow> bool \<times> registry" where
  "registerEffect eid effect reg =
     (if eid = EffectID.NONE then (False, reg)
      else if length reg \<ge> MAX_EFFECTS then (False, reg)
      else if eid \<in> set (map fst reg) then (False, reg)
      else (True, reg @ [(eid, effect)]))"

text \<open>The registrations of \<open>setup()\<close> in main.cpp, in order.\<close>

definition main_registry :: registry where
  "main_registry =
     snd (registerEffect EffectID.CHOKE ChokeRef
       (snd (registerEffect EffectID.FREEZE FreezeRef
         (snd (registerEffect EffectID.STUTTER StutterRef [])))))"

definition effect_toggle :: "effect_ref \<Rightarrow> engines \<Rightarrow> engines" where
  "effect_toggle r e =
     (case r of
        StutterRef \<Rightarrow> e\<lparr> stutter_engine := Stutter_toggle (stutter_engine e) \<rparr>
      | FreezeRef \<Rightarrow> e\<lparr> freeze_engine := Freeze_toggle (freeze_engine e) \<rparr>
      | ChokeRef \<Rightarrow> e\<lparr> choke_engine := Choke_toggle (choke_engine e) \<rparr>)"

definition effect_enable :: "effect_ref \<Rightarrow> engines \<Rightarrow> engines" where
  "effect_enable r e =
     (case r of
        StutterRef \<Rightarrow> e\<lparr> stutter_engine := Stutter_enable (stutter_engine e) \<rparr>
      | FreezeRef \<Rightarrow> e\<lparr> freeze_engine := Freeze_enable (freeze_engine e) \<rparr>
      | ChokeRef \<Rightarrow> e\<lparr> choke_engine := Choke_enable (choke_engine e) \<rparr>)"

definition effect_disable :: "effect_ref \<Rightarrow> engines \<Rightarrow> engines" where
  "effect_disable r e =
     (case r of
        StutterRef \<Rightarrow> e\<lparr> stutter_engine := Stutter_disable (stutter_engine e) \<rparr>
      | FreezeRef \<Rightarrow> e\<lparr> freeze_engine := Freeze_disable (freeze_engine e) \<rparr>
      | ChokeRef \<Rightarrow> e\<lparr> choke_engine := Choke_disable (choke_engine e) \<rparr>)"

text \<open>\<open>EffectManager::executeCommand\<close>: the returned flag and the engines afterwards.\<close>

definition executeCommand :: "registry \<Rightarrow> Command \<Rightarrow> engines \<Rightarrow> bool \<times> engines" where
  "executeCommand reg cmd e =
     (if cmd_type cmd = CommandType.NONE then (True, e)
      else
        (case getEffect (targetEffect cmd) reg of
           None \<Rightarrow> (False, e)
         | Some effect \<Rightarrow>
             (case cmd_type cmd of
                EFFECT_TOGGLE \<Rightarrow> (True, effect_toggle effect e)
              | EFFECT_ENABLE \<Rightarrow> (True, effect_enable effect e)
              | EFFECT_DISABLE \<Rightarrow> (True, effect_disable effect e)
              | EFFECT_SET_PARAM \<Rightarrow> (True, e)
              | CommandType.NONE \<Rightarrow> (False, e))))"

section \<open>SPSC ring buffer\<close>

text \<open>
  \<open>SPSCQueue<T, SIZE>\<close> (spsc_queue.h). The template parameter \<open>SIZE\<close> is a parameter
  of every operation; the two \<open>static_assert\<close>s on it are \<open>valid_SIZE\<close>. The indices are
  \<open>uint32_t\<close> and wrap; the array \<open>buffer[SIZE]\<close> is a function from the slot number.
  \<open>pop(T& item)\<close> returns \<open>None\<close> for \<open>false\<close> (the output parameter is not written) and
  \<open>Some\<close> of the element stored into \<open>item\<close> for \<open>true\<close>.
\<close>

record 'a spsc_queue =
  buffer :: "nat \<Rightarrow> 'a"
  writeIdx :: u32
  readIdx :: u32

definition valid_SIZE :: "u32 \<Rightarrow> bool" where
  "valid_SIZE SIZE \<longleftrightarrow> (SIZE AND (SIZE - 1)) = 0 \<and> SIZE > 0"

definition SPSCQueue :: "(nat \<Rightarrow> 'a) \<Rightarrow> 'a spsc_queue" where
  "SPSCQueue storage = \<lparr> buffer = storage, writeIdx = 0, readIdx = 0 \<rparr>"

definition push :: "u32 \<Rightarrow> 'a \<Rightarrow> 'a spsc_queue \<Rightarrow> bool \<times> 'a spsc_queue" where
  "push SIZE item q =
     (let current_write = writeIdx q;
          next_write = current_write + 1
      in if (next_write AND (SIZE - 1)) = (readIdx q AND (SIZE - 1))
         then (False, q)
         else (True, q\<lparr> buffer := (buffer q)(unat (current_write AND (SIZE - 1)) := item),
                         writeIdx := next_write \<rparr>))"

definition pop :: "u32 \<Rightarrow> 'a spsc_queue \<Rightarrow> 'a option \<times> 'a spsc_queue" where
  "pop SIZE q =
     (let current_read = readIdx q
      in if current_read = writeIdx q
         then (None, q)
         else (Some (buffer q (unat (current_read AND (SIZE - 1)))),
               q\<lparr> readIdx := current_read + 1 \<rparr>))"

definition isEmpty :: "'a spsc_queue \<Rightarrow> bool" where
  "isEmpty q \<longleftrightarrow> readIdx q = writeIdx q"

definition isFull :: "u32 \<Rightarrow> 'a spsc_queue \<Rightarrow> bool" where
  "isFull SIZE q \<longleftrightarrow>
     (let next_write = writeIdx q + 1
      in (next_write AND (SIZE - 1)) = (readIdx q AND (SIZE - 1)))"

definition size_q :: "u32 \<Rightarrow> 'a spsc_queue \<Rightarrow> u32" where
  "size_q SIZE q =
     (let write = writeIdx q; read = readIdx q
      in (write - read) AND (SIZE - 1))"

definition capacity :: "u32 \<Rightarrow> u32" where
  "capacity SIZE = SIZE - 1"

subsection \<open>Sequences of queue operations and the stored elements\<close>

text \<open>
  A producer/consumer history is a list of pushes and pops applied to the empty queue.
  \<open>stored\<close> lists the elements between the read and the write index, oldest first.
\<close>

datatype 'a spsc_op = Push 'a | Pop

fun spsc_apply :: "u32 \<Rightarrow> 'a spsc_op \<Rightarrow> 'a spsc_queue \<Rightarrow> 'a spsc_queue" where
  "spsc_apply SIZE (Push item) q = snd (push SIZE item q)"
| "spsc_apply SIZE Pop q = snd (pop SIZE q)"

fun spsc_run :: "u32 \<Rightarrow> 'a spsc_op list \<Rightarrow> 'a spsc_queue \<Rightarrow> 'a spsc_queue" where
  "spsc_run SIZE [] q = q"
| "spsc_run SIZE (op # ops) q = spsc_run SIZE ops (spsc_apply SIZE op q)"

definition stored :: "u32 \<Rightarrow> 'a spsc_queue \<Rightarrow> 'a list" where
  "stored SIZE q =
     map (\<lambda>i. buffer q (unat ((readIdx q + of_nat i) AND (SIZE - 1))))
       [0..<unat (writeIdx q - readIdx q)]"

text \<open>
  In a history the distance between the two indices stays below \<open>SIZE = 2 ^ k\<close>; this is
  what makes the masked \<open>size()\<close> the true number of stored elements.
\<close>

definition spsc_inv :: "nat \<Rightarrow> 'a spsc_queue \<Rightarrow> bool" where
  "spsc_inv k q \<longleftrightarrow> unat (writeIdx q - readIdx q) < 2 ^ k"

section \<open>Histories of the CHOKE and FREEZE engines\<close>

text \<open>
  One constructor per public operation; \<open>Update\<close> carries what the audio callback
  sees. \<open>Choke_run\<close> and \<open>Freeze_run\<close> apply a history to an engine; \<open>Freeze_outputs\<close>
  collects what the \<open>update\<close> calls of a history transmit, in order: the observable
  audio of the engine.
\<close>

datatype choke_op =
    ChokeEnable
  | ChokeDisable
  | ChokeToggle
  | ChokeSetLengthMode ChokeLength
  | ChokeScheduleRelease u64
  | ChokeCancelScheduledRelease
  | ChokeScheduleOnset u64
  | ChokeCancelScheduledOnset
  | ChokeSetOnsetMode ChokeOnset
  | ChokeUpdate float_unit u64 "audio_block option" "audio_block option"

fun Choke_apply :: "choke_op \<Rightarrow> choke \<Rightarrow> choke" where
  "Choke_apply ChokeEnable s = Choke_enable s"
| "Choke_apply ChokeDisable s = Choke_disable s"
| "Choke_apply ChokeToggle s = Choke_toggle s"
| "Choke_apply (ChokeSetLengthMode mode) s = Choke_setLengthMode mode s"
| "Choke_apply (ChokeScheduleRelease sample) s = Choke_scheduleRelease sample s"
| "Choke_apply ChokeCancelScheduledRelease s = Choke_cancelScheduledRelease s"
| "Choke_apply (ChokeScheduleOnset sample) s = Choke_scheduleOnset sample s"
| "Choke_apply ChokeCancelScheduledOnset s = Choke_cancelScheduledOnset s"
| "Choke_apply (ChokeSetOnsetMode mode) s = Choke_setOnsetMode mode s"
| "Choke_apply (ChokeUpdate fp currentSample blockL blockR) s =
     fst (Choke_update fp currentSample blockL blockR s)"

fun Choke_run :: "choke_op list \<Rightarrow> choke \<Rightarrow> choke" where
  "Choke_run [] s = s"
| "Choke_run (op # ops) s = Choke_run ops (Choke_apply op s)"

text \<open>The target gain follows the enabled flag: 0 when enabled, 1 when not.\<close>

definition choke_inv :: "choke \<Rightarrow> bool" where
  "choke_inv s \<longleftrightarrow> m_targetGain s = (if m_isEnabled_c s then 0 else 1)"

datatype freeze_op =
    FreezeEnable
  | FreezeDisable
  | FreezeToggle
  | FreezeSetLengthMode FreezeLength
  | FreezeScheduleRelease u64
  | FreezeScheduleOnset u64
  | FreezeCancelScheduledOnset
  | FreezeSetOnsetMode FreezeOnset
  | FreezeUpdate u64 "audio_block option" "audio_block option" bool bool

fun Freeze_apply ::
  "freeze_op \<Rightarrow> freeze \<Rightarrow> freeze \<times> (audio_block \<times> audio_block) option list" where
  "Freeze_apply FreezeEnable s = (Freeze_enable s, [])"
| "Freeze_apply FreezeDisable s = (Freeze_disable s, [])"
| "Freeze_apply FreezeToggle s = (Freeze_toggle s, [])"
| "Freeze_apply (FreezeSetLengthMode mode) s = (Freeze_setLengthMode mode s, [])"
| "Freeze_apply (FreezeScheduleRelease sample) s = (Freeze_scheduleRelease sample s, [])"
| "Freeze_apply (FreezeScheduleOnset sample) s = (Freeze_scheduleOnset sample s, [])"
| "Freeze_apply FreezeCancelScheduledOnset s = (Freeze_cancelScheduledOnset s, [])"
| "Freeze_apply (FreezeSetOnsetMode mode) s = (Freeze_setOnsetMode mode s, [])"
| "Freeze_apply (FreezeUpdate currentSample blockL blockR allocL allocR) s =
     (let (s', out) = Freeze_update currentSample blockL blockR allocL allocR s
      in (s', [out]))"

fun Freeze_run :: "freeze_op list \<Rightarrow> freeze \<Rightarrow> freeze" where
  "Freeze_run [] s = s"
| "Freeze_run (op # ops) s = Freeze_run ops (fst (Freeze_apply op s))"

fun Freeze_outputs ::
  "freeze_op list \<Rightarrow> freeze \<Rightarrow> (audio_block \<times> audio_block) option list" where
  "Freeze_outputs [] s = []"
| "Freeze_outputs (op # ops) s =
     snd (Freeze_apply op s) @ Freeze_outputs ops (fst (Freeze_apply op s))"

text \<open>
  Two FREEZE engines are indistinguishable when they agree on everything but the read
  position and, if frozen, on the read position too: while the engine is not frozen the
  read position is dead, every way into the frozen state overwrites it.
\<close>

definition freeze_obs_eq :: "freeze \<Rightarrow> freeze \<Rightarrow> bool" where
  "freeze_obs_eq s t \<longleftrightarrow>
     s\<lparr> m_readPos_f := 0 \<rparr> = t\<lparr> m_readPos_f := 0 \<rparr>
     \<and> (if m_isEnabled_f s then m_readPos_f s = m_readPos_f t else True)"

text \<open>Both positions stay inside the buffer.\<close>

definition freeze_inv :: "freeze \<Rightarrow> bool" where
  "freeze_inv s \<longleftrightarrow>
     m_writePos_f s < FREEZE_BUFFER_SAMPLES \<and> m_readPos_f s < FREEZE_BUFFER_SAMPLES"

section \<open>FREEZE and STUTTER controllers: the button press\<close>

text \<open>\<open>AudioEffectFreeze::getLengthMode\<close>, \<open>getOnsetMode\<close>.\<close>

definition Freeze_getLengthMode :: "freeze \<Rightarrow> FreezeLength" where
  "Freeze_getLengthMode s = m_lengthMode_f s"

definition Freeze_getOnsetMode :: "freeze \<Rightarrow> FreezeOnset" where
  "Freeze_getOnsetMode s = m_onsetMode_f s"

text \<open>
  \<open>FreezeController::handleButtonPress\<close> (freeze_controller.cpp), in the same form as the
  CHOKE controller: the returned "handled" flag with the engine afterwards, \<open>None\<close> where
  \<open>samplesToNextSubdivision\<close> divides by zero; Serial output, LED and display calls are
  left out.
\<close>

definition FreezeController_handleButtonPress ::
  "quantization_state \<Rightarrow> timekeeper \<Rightarrow> Command \<Rightarrow> freeze \<Rightarrow> (bool \<times> freeze) option" where
  "FreezeController_handleButtonPress q tk cmd m_effect =
     (if targetEffect cmd \<noteq> EffectID.FREEZE then Some (False, m_effect)
      else if cmd_type cmd \<noteq> EFFECT_ENABLE \<and> cmd_type cmd \<noteq> EFFECT_TOGGLE
      then Some (False, m_effect)
      else
        (let lengthMode = Freeze_getLengthMode m_effect;
             onsetMode = Freeze_getOnsetMode m_effect
         in if onsetMode = FreezeOnset.FREE
            then
              (let e1 = Freeze_enable m_effect
               in if lengthMode = FreezeLength.QUANTIZED
                  then
                    (let quant = globalQuantization q;
                         durationSamples = calculateQuantizedDuration tk quant;
                         releaseSample = getSamplePosition tk + ucast durationSamples
                     in Some (True, Freeze_scheduleRelease releaseSample e1))
                  else Some (True, e1))
            else
              (let quant = globalQuantization q
               in case samplesToNextQuantizedBoundary tk quant of
                    None \<Rightarrow> None
                  | Some samplesToNext \<Rightarrow>
                      (let lookahead = lookaheadOffset q;
                           adjustedSamples =
                             (if samplesToNext > lookahead then samplesToNext - lookahead else 0);
                           onsetSample = getSamplePosition tk + ucast adjustedSamples;
                           e1 = Freeze_scheduleOnset onsetSample m_effect
                       in if lengthMode = FreezeLength.QUANTIZED
                          then
                            (let durationSamples = calculateQuantizedDuration tk quant;
                                 releaseSample = onsetSample + ucast durationSamples
                             in Some (True, Freeze_scheduleRelease releaseSample e1))
                          else Some (True, e1)))))"

text \<open>\<open>AudioEffectStutter::getOnsetMode\<close>, \<open>getCaptureStartMode\<close>.\<close>

definition Stutter_getOnsetMode :: "stutter \<Rightarrow> StutterOnset" where
  "Stutter_getOnsetMode s = m_onsetMode s"

definition getCaptureStartMode :: "stutter \<Rightarrow> StutterCaptureStart" where
  "getCaptureStartMode s = m_captureStartMode s"

text \<open>
  The controller of the eight-state STUTTER engine (\<open>StutterController\<close>). Of its members
  the press handler reads and writes the two button flags; \<open>m_stutterHeld_c\<close> is the
  controller's \<open>m_stutterHeld\<close>, renamed apart from the engine's field of the same name.
  The parameter selection and the LED blink state do not enter the handler and are left
  out.
\<close>

record stutter_controller =
  m_funcHeld :: bool
  m_stutterHeld_c :: bool

definition StutterController_init :: stutter_controller where
  "StutterController_init = \<lparr> m_funcHeld = False, m_stutterHeld_c = False \<rparr>"

text \<open>
  \<open>StutterController::handleButtonPress\<close>: the "handled" flag, the controller and the
  engine afterwards. This controller adds the distance to the next grid line to the
  sample position as it is; it applies no lookahead.
\<close>

definition StutterController_handleButtonPress ::
  "quantization_state \<Rightarrow> timekeeper \<Rightarrow> Command \<Rightarrow> stutter_controller \<Rightarrow> stutter
     \<Rightarrow> (bool \<times> stutter_controller \<times> stutter) option" where
  "StutterController_handleButtonPress q tk cmd c m_effect =
     (if targetEffect cmd = EffectID.FUNC then Some (True, c\<lparr> m_funcHeld := True \<rparr>, m_effect)
      else if targetEffect cmd \<noteq> EffectID.STUTTER then Some (False, c, m_effect)
      else if cmd_type cmd \<noteq> EFFECT_ENABLE \<and> cmd_type cmd \<noteq> EFFECT_TOGGLE
      then Some (False, c, m_effect)
      else
        (let c1 = c\<lparr> m_stutterHeld_c := True \<rparr>;
             currentState = Stutter_getState m_effect
         in if m_funcHeld c1
            then
              (let captureStartMode = getCaptureStartMode m_effect
               in if captureStartMode = StutterCaptureStart.FREE
                  then Some (True, c1, startCapture m_effect)
                  else
                    (let quant = globalQuantization q
                     in case samplesToNextQuantizedBoundary tk quant of
                          None \<Rightarrow> None
                        | Some samplesToNext \<Rightarrow>
                            (let captureStartSample = getSamplePosition tk + ucast samplesToNext
                             in Some (True, c1, scheduleCaptureStart captureStartSample m_effect))))
            else if currentState = IDLE_NO_LOOP then Some (True, c1, m_effect)
            else if currentState = IDLE_WITH_LOOP
            then
              (let onsetMode = Stutter_getOnsetMode m_effect
               in if onsetMode = StutterOnset.FREE
                  then Some (True, c1, startPlayback m_effect)
                  else
                    (let quant = globalQuantization q
                     in case samplesToNextQuantizedBoundary tk quant of
                          None \<Rightarrow> None
                        | Some samplesToNext \<Rightarrow>
                            (let playbackOnsetSample = getSamplePosition tk + ucast samplesToNext
                             in Some (True, c1, schedulePlaybackOnset playbackOnsetSample m_effect))))
            else Some (True, c1, m_effect)))"

section \<open>Grid lines and histories: the predicates of the statements\<close>

text \<open>
  The tick-derived position \<open>tickInBeat * (spb / 24)\<close> lies on a grid line of the
  subdivision when it is a multiple of it; the next grid line lies inside the beat when
  one more subdivision still fits before \<open>spb\<close>.
\<close>

definition on_subdivision_boundary :: "timekeeper \<Rightarrow> u32 \<Rightarrow> bool" where
  "on_subdivision_boundary tk sub \<longleftrightarrow>
     (let e = getTickInBeat tk * (getSamplesPerBeat tk div MIDI_PPQN)
      in e mod sub = 0 \<and> unat e + unat sub \<le> unat (getSamplesPerBeat tk))"

text \<open>
  A history in which \<open>cancelCaptureStart\<close> is only ever applied to an engine that holds no
  loop (capture length 0), as when the first capture is cancelled before it starts.
\<close>

fun cancel_only_without_loop :: "stutter_op list \<Rightarrow> stutter \<Rightarrow> bool" where
  "cancel_only_without_loop [] s = True"
| "cancel_only_without_loop (op # ops) s =
     ((if op = CancelCaptureStart then m_captureLength s = 0 else True)
      \<and> cancel_only_without_loop ops (Stutter_apply op s))"

section \<open>TimeKeeper: tempo sync, tick counter and beat distance\<close>

subsection \<open>Width conversions\<close>

lemma unat_ucast_32_64: "unat (ucast (w :: u32) :: u64) = unat w"
proof -
  have "unat w < 2 ^ 64"
    using unsigned_less [of w, where ?'a = nat] by simp
  then show ?thesis
    by (simp add: unsigned_ucast_eq take_bit_eq_mod)
qed

lemma unat_ucast_64_32: "unat (ucast (w :: u64) :: u32) = unat w mod 2 ^ 32"
  by (simp add: unsigned_ucast_eq take_bit_eq_mod)

subsection \<open>syncToMIDIClock\<close>

text \<open>
  The value the range check sees is the 64-bit quotient reduced modulo \<open>2 ^ 32\<close>.
\<close>

lemma unat_sync_spb:
  "unat (sync_spb t) = (unat t * 24 * 44100 div 1000000) mod 2 ^ 32"
proof -
  have lt: "unat t < 2 ^ 32"
    using unsigned_less [of t, where ?'a = nat] by simp
  have "unat ((ucast t :: u64) * 24 * 44100) = (unat t * 24 * 44100) mod 2 ^ 64"
    by (simp add: unat_word_ariths unat_ucast_32_64 mod_simps)
  also have "\<dots> = unat t * 24 * 44100"
    using lt by simp
  finally have b: "unat ((ucast t :: u64) * 24 * 44100) = unat t * 24 * 44100" .
  have c: "unat (((ucast t :: u64) * 24 * 44100) div 1000000) = unat t * 24 * 44100 div 1000000"
    unfolding unat_div b by simp
  show ?thesis
    unfolding sync_spb_def MIDI_PPQN_def SAMPLE_RATE_def Let_def unat_ucast_64_32
    using c by simp
qed

text \<open>
  Up to a tick period of 4057981194 microseconds the quotient fits in 32 bits and the
  stored value is the exact integer quotient.
\<close>

lemma sync_spb_exact:
  assumes "unat t \<le> 4057981194"
  shows "unat (sync_spb t) = unat t * 24 * 44100 div 1000000"
proof -
  have "unat t * 24 * 44100 div 1000000 < 2 ^ 32" using assms by simp
  then show ?thesis by (simp add: unat_sync_spb)
qed

text \<open>Whenever a call changes \<open>samplesPerBeat\<close>, the new value is inside the window.\<close>

lemma syncToMIDIClock_range:
  "s_samplesPerBeat (syncToMIDIClock t s) \<noteq> s_samplesPerBeat s \<Longrightarrow>
   8000 \<le> s_samplesPerBeat (syncToMIDIClock t s) \<and> s_samplesPerBeat (syncToMIDIClock t s) \<le> 100000"
  by (simp add: syncToMIDIClock_def Let_def split: if_splits)

text \<open>
  Below the truncation bound the call behaves as the range check intends: the exact
  quotient is stored when it lies in \<open>[8000, 100000]\<close>, and the state is left alone
  otherwise.
\<close>

lemma syncToMIDIClock_exact:
  assumes "unat t \<le> 4057981194"
  shows "syncToMIDIClock t s =
     (if 8000 \<le> unat t * 24 * 44100 div 1000000 \<and> unat t * 24 * 44100 div 1000000 \<le> 100000
      then s\<lparr> s_samplesPerBeat := of_nat (unat t * 24 * 44100 div 1000000) \<rparr>
      else s)"
proof -
  have u: "unat (sync_spb t) = unat t * 24 * 44100 div 1000000"
    using assms by (rule sync_spb_exact)
  have lt: "unat t * 24 * 44100 div 1000000 < 2 ^ 32"
    using assms by simp
  have "unat (of_nat (unat t * 24 * 44100 div 1000000) :: u32) = unat t * 24 * 44100 div 1000000"
    unfolding unat_of_nat using lt by simp
  then have w: "sync_spb t = of_nat (unat t * 24 * 44100 div 1000000)"
    using u by (simp add: word_unat_eq_iff)
  have c: "(8000 \<le> sync_spb t \<and> sync_spb t \<le> 100000)
       \<longleftrightarrow> (8000 \<le> unat t * 24 * 44100 div 1000000 \<and> unat t * 24 * 44100 div 1000000 \<le> 100000)"
    by (simp add: word_le_nat_alt u)
  show ?thesis
    unfolding syncToMIDIClock_def Let_def c using w by simp
qed

text \<open>
  Claim C1 (every call to syncToMIDIClock stores the integer quotient
  \<open>tickPeriodUs * 24 * 44100 / 1000000\<close> when it lies in \<open>[8000, 100000]\<close> and leaves
  the state unchanged otherwise). At \<open>tickPeriodUs = 4057988753\<close> the integer quotient is
  4294975296, far outside the window, yet the \<open>uint32_t spb\<close> holds its low 32 bits,
  8000, passes the sanity check and replaces the previous 22050.
\<close>

theorem syncToMIDIClock_truncation_accepts:
  "(4057988753 * 24 * 44100) div 1000000 = (4294975296 :: nat)
   \<and> \<not> (4294975296 :: nat) \<le> 100000
   \<and> s_samplesPerBeat tk_init = 22050
   \<and> s_samplesPerBeat (syncToMIDIClock 4057988753 tk_init) = 8000"
  by (simp add: syncToMIDIClock_def sync_spb_def MIDI_PPQN_def SAMPLE_RATE_def tk_init_def
      DEFAULT_SAMPLES_PER_BEAT_def DEFAULT_BPM_def)

subsection \<open>incrementTick\<close>

lemma incrementTick_tick:
  assumes "s_tickInBeat s < 24"
  shows "unat (s_tickInBeat (incrementTick s)) = (unat (s_tickInBeat s) + 1) mod 24"
    and "s_beatNumber (incrementTick s) = s_beatNumber s + of_nat ((unat (s_tickInBeat s) + 1) div 24)"
proof -
  have lt: "unat (s_tickInBeat s) < 24" using assms by (simp add: word_less_nat_alt)
  have u: "unat (s_tickInBeat s + 1) = unat (s_tickInBeat s) + 1"
    using lt by (simp add: unat_word_ariths)
  consider "unat (s_tickInBeat s) = 23" | "unat (s_tickInBeat s) < 23" using lt by linarith
  then show "unat (s_tickInBeat (incrementTick s)) = (unat (s_tickInBeat s) + 1) mod 24"
    using u by cases (simp_all add: incrementTick_def Let_def MIDI_PPQN_def word_le_nat_alt)
  consider "unat (s_tickInBeat s) = 23" | "unat (s_tickInBeat s) < 23" using lt by linarith
  then show "s_beatNumber (incrementTick s) = s_beatNumber s + of_nat ((unat (s_tickInBeat s) + 1) div 24)"
    using u by cases (simp_all add: incrementTick_def Let_def MIDI_PPQN_def word_le_nat_alt)
qed

lemma div24_Suc: "Suc m div 24 = m div 24 + (m mod 24 + 1) div (24::nat)"
proof -
  have "Suc m = (m mod 24 + 1) + 24 * (m div 24)" by simp
  then have "Suc m div 24 = ((m mod 24 + 1) + 24 * (m div 24)) div 24" by (rule arg_cong)
  also have "\<dots> = m div 24 + (m mod 24 + 1) div 24"
    by (rule div_mult_self2) simp
  finally show ?thesis .
qed

lemma incrementTick_funpow:
  assumes "s_tickInBeat s < 24"
  shows "unat (s_tickInBeat ((incrementTick ^^ n) s)) = (unat (s_tickInBeat s) + n) mod 24
       \<and> s_beatNumber ((incrementTick ^^ n) s)
           = s_beatNumber s + of_nat ((unat (s_tickInBeat s) + n) div 24)"
proof (induction n)
  case 0
  have "unat (s_tickInBeat s) < 24" using assms by (simp add: word_less_nat_alt)
  then show ?case by simp
next
  case (Suc n)
  define s' where "s' = (incrementTick ^^ n) s"
  define t where "t = unat (s_tickInBeat s)"
  have t': "unat (s_tickInBeat s') = (t + n) mod 24"
    using Suc.IH by (simp add: s'_def t_def)
  then have lt: "s_tickInBeat s' < 24" by (simp add: word_less_nat_alt)
  have b': "s_beatNumber s' = s_beatNumber s + of_nat ((t + n) div 24)"
    using Suc.IH by (simp add: s'_def t_def)
  have a1: "((t + n) mod 24 + 1) mod 24 = (t + Suc n) mod 24"
    by (simp add: mod_Suc_eq)
  have a2: "(t + Suc n) div 24 = (t + n) div 24 + ((t + n) mod 24 + 1) div 24"
    using div24_Suc [of "t + n"] by simp
  have r1: "unat (s_tickInBeat (incrementTick s')) = (t + Suc n) mod 24"
    using incrementTick_tick(1) [OF lt] t' a1 by simp
  have "s_beatNumber (incrementTick s')
      = s_beatNumber s + of_nat ((t + n) div 24) + of_nat (((t + n) mod 24 + 1) div 24)"
    using incrementTick_tick(2) [OF lt] t' b' by simp
  also have "\<dots> = s_beatNumber s + of_nat ((t + Suc n) div 24)"
    unfolding a2 by (simp only: of_nat_add add.assoc)
  finally have r2: "s_beatNumber (incrementTick s')
      = s_beatNumber s + of_nat ((t + Suc n) div 24)" .
  have "(incrementTick ^^ Suc n) s = incrementTick s'" by (simp add: s'_def)
  then show ?case using r1 r2 by (simp only: t_def)
qed


lemma incrementTick_24:
  assumes "s_tickInBeat s < 24"
  shows "s_beatNumber ((incrementTick ^^ 24) s) = s_beatNumber s + 1"
    and "s_tickInBeat ((incrementTick ^^ 24) s) = s_tickInBeat s"
proof -
  have lt: "unat (s_tickInBeat s) < 24" using assms by (simp add: word_less_nat_alt)
  have d: "(unat (s_tickInBeat s) + 24) div 24 = 1" using lt by arith
  show "s_beatNumber ((incrementTick ^^ 24) s) = s_beatNumber s + 1"
    using incrementTick_funpow [OF assms, of 24] d by simp
  have "unat (s_tickInBeat ((incrementTick ^^ 24) s)) = unat (s_tickInBeat s)"
    using incrementTick_funpow [OF assms, of 24] lt by simp
  then show "s_tickInBeat ((incrementTick ^^ 24) s) = s_tickInBeat s"
    by (simp add: word_unat_eq_iff)
qed


lemma incrementTick_cases:
  assumes "s_tickInBeat s < 24"
  shows "incrementTick s =
     (if s_tickInBeat s = 23
      then s\<lparr> s_beatNumber := s_beatNumber s + 1, s_beatFlag := True, s_tickInBeat := 0 \<rparr>
      else s\<lparr> s_tickInBeat := s_tickInBeat s + 1 \<rparr>)"
proof -
  have lt: "unat (s_tickInBeat s) < 24" using assms by (simp add: word_less_nat_alt)
  have u: "unat (s_tickInBeat s + 1) = unat (s_tickInBeat s) + 1"
    using lt by (simp add: unat_word_ariths)
  have e: "s_tickInBeat s = 23 \<longleftrightarrow> unat (s_tickInBeat s) = 23"
    by (simp add: word_unat_eq_iff)
  show ?thesis
    using lt u e by (auto simp: incrementTick_def Let_def MIDI_PPQN_def word_le_nat_alt)
qed


text \<open>
  Claim C2, the unrestricted monotonicity: with \<open>beatNumber = 2^32 - 1\<close> and
  \<open>tickInBeat = 23\<close> the 32-bit \<open>fetch_add\<close> wraps the beat counter to 0, so the beat
  number decreases.
\<close>

theorem incrementTick_wraps_beatNumber:
  "s_tickInBeat (tk_init\<lparr> s_beatNumber := 0xFFFFFFFF, s_tickInBeat := 23 \<rparr>) < 24
   \<and> s_beatNumber (incrementTick (tk_init\<lparr> s_beatNumber := 0xFFFFFFFF, s_tickInBeat := 23 \<rparr>)) = 0
   \<and> \<not> s_beatNumber (tk_init\<lparr> s_beatNumber := 0xFFFFFFFF, s_tickInBeat := 23 \<rparr>)
        \<le> s_beatNumber (incrementTick (tk_init\<lparr> s_beatNumber := 0xFFFFFFFF, s_tickInBeat := 23 \<rparr>))"
  by (simp add: incrementTick_def MIDI_PPQN_def tk_init_def)


text \<open>
  Claim C2 (incrementTick keeps the tick in \<open>0..23\<close>, advances the beat on the 24th tick
  and sets the beat flag), as the 32-bit counter allows it: for every state with
  \<open>tickInBeat < 24\<close> one call increments the tick, and when the incremented value reaches
  24 it resets the tick to 0, adds 1 to \<open>beatNumber\<close> (modulo \<open>2^32\<close>) and sets the beat
  flag; \<open>tickInBeat < 24\<close> is preserved; the beat number does not decrease unless it was
  \<open>2^32 - 1\<close>; and 24 consecutive calls add exactly 1 to \<open>beatNumber\<close> and return to
  the same tick.
\<close>

theorem incrementTick_spec:
  assumes "s_tickInBeat s < 24"
  shows "incrementTick s =
           (if s_tickInBeat s + 1 = 24
            then s\<lparr> s_beatNumber := s_beatNumber s + 1, s_beatFlag := True, s_tickInBeat := 0 \<rparr>
            else s\<lparr> s_tickInBeat := s_tickInBeat s + 1 \<rparr>)
       \<and> s_tickInBeat (incrementTick s) < 24
       \<and> (s_beatNumber s \<le> s_beatNumber (incrementTick s) \<or> s_beatNumber s = 0xFFFFFFFF)
       \<and> s_beatNumber ((incrementTick ^^ 24) s) = s_beatNumber s + 1
       \<and> s_tickInBeat ((incrementTick ^^ 24) s) = s_tickInBeat s"
proof -
  have lt: "unat (s_tickInBeat s) < 24" using assms by (simp add: word_less_nat_alt)
  have e: "s_tickInBeat s + 1 = 24 \<longleftrightarrow> s_tickInBeat s = 23"
  proof -
    have "unat (s_tickInBeat s + 1) = unat (s_tickInBeat s) + 1"
      using lt by (simp add: unat_word_ariths)
    then have "s_tickInBeat s + 1 = 24 \<longleftrightarrow> unat (s_tickInBeat s) + 1 = 24"
      by (simp add: word_unat_eq_iff)
    then show ?thesis by (simp add: word_unat_eq_iff)
  qed
  have c1: "incrementTick s =
           (if s_tickInBeat s + 1 = 24
            then s\<lparr> s_beatNumber := s_beatNumber s + 1, s_beatFlag := True, s_tickInBeat := 0 \<rparr>
            else s\<lparr> s_tickInBeat := s_tickInBeat s + 1 \<rparr>)"
    using incrementTick_cases [OF assms] e by simp
  have "unat (s_tickInBeat (incrementTick s)) < 24"
    using incrementTick_tick(1) [OF assms] by simp
  then have c2: "s_tickInBeat (incrementTick s) < 24" by (simp add: word_less_nat_alt)
  have c3: "s_beatNumber s \<le> s_beatNumber (incrementTick s) \<or> s_beatNumber s = 0xFFFFFFFF"
  proof (cases "s_beatNumber s = 0xFFFFFFFF")
    case True then show ?thesis by simp
  next
    case False
    then have "unat (s_beatNumber s) \<noteq> 4294967295"
      by (simp add: word_unat_eq_iff)
    moreover have "unat (s_beatNumber s) < 2 ^ 32"
      using unsigned_less [of "s_beatNumber s", where ?'a = nat] by simp
    ultimately have "unat (s_beatNumber s + 1) = unat (s_beatNumber s) + 1"
      by (simp add: unat_word_ariths)
    then have "s_beatNumber s \<le> s_beatNumber s + 1" by (simp add: word_le_nat_alt)
    then show ?thesis by (simp add: c1)
  qed
  show ?thesis using c1 c2 c3 incrementTick_24 [OF assms] by blast
qed


theorem incrementTick_spec_witness:
  "s_tickInBeat (tk_init\<lparr> s_beatNumber := 7, s_tickInBeat := 23 \<rparr>) < 24
   \<and> incrementTick (tk_init\<lparr> s_beatNumber := 7, s_tickInBeat := 23 \<rparr>)
       = tk_init\<lparr> s_beatNumber := 8, s_tickInBeat := 0, s_beatFlag := True \<rparr>
   \<and> s_beatNumber ((incrementTick ^^ 24) (tk_init\<lparr> s_beatNumber := 7, s_tickInBeat := 23 \<rparr>)) = 8"
proof -
  have h: "s_tickInBeat (tk_init\<lparr> s_beatNumber := 7, s_tickInBeat := 23 \<rparr>) < 24" by simp
  have "incrementTick (tk_init\<lparr> s_beatNumber := 7, s_tickInBeat := 23 \<rparr>)
       = tk_init\<lparr> s_beatNumber := 8, s_tickInBeat := 0, s_beatFlag := True \<rparr>"
    using incrementTick_spec [OF h] by (simp add: tk_init_def)
  moreover have "s_beatNumber ((incrementTick ^^ 24) (tk_init\<lparr> s_beatNumber := 7, s_tickInBeat := 23 \<rparr>)) = 8"
    using incrementTick_spec [OF h] by simp
  ultimately show ?thesis using h by blast
qed

subsection \<open>samplesToNextBeat\<close>

lemma sampleWithinBeat_unat:
  assumes "spb \<noteq> (0 :: u32)"
  shows "unat (ucast ((pos :: u64) mod ucast spb) :: u32) = unat pos mod unat spb"
proof -
  have pos: "0 < unat spb" using assms by (simp add: unat_gt_0)
  have lt: "unat spb < 2 ^ 32"
    using unsigned_less [of spb, where ?'a = nat] by simp
  have "unat pos mod unat spb < unat spb" using pos by simp
  then have "unat pos mod unat spb < 2 ^ 32" using lt by linarith
  then show ?thesis
    by (simp add: unat_ucast_64_32 unat_mod unat_ucast_32_64)
qed

text \<open>
  Claim C3: for every sample position and every \<open>samplesPerBeat > 16\<close>,
  \<open>samplesToNextBeat\<close> returns 0 exactly when \<open>samplePosition mod spb \<le> 16\<close>, and
  \<open>spb - (samplePosition mod spb)\<close> otherwise.
\<close>

theorem samplesToNextBeat_spec:
  assumes "16 < s_samplesPerBeat s"
  shows "\<exists>r. samplesToNextBeat s = Some r
           \<and> (r = 0 \<longleftrightarrow> unat (s_samplePosition s) mod unat (s_samplesPerBeat s) \<le> 16)
           \<and> unat r = (if unat (s_samplePosition s) mod unat (s_samplesPerBeat s) \<le> 16 then 0
                        else unat (s_samplesPerBeat s) - unat (s_samplePosition s) mod unat (s_samplesPerBeat s))"
proof -
  define spb where "spb = s_samplesPerBeat s"
  define pos where "pos = s_samplePosition s"
  define w where "w = (ucast (pos mod ucast spb) :: u32)"
  have nz: "spb \<noteq> 0" using assms by (auto simp: spb_def)
  have posn: "0 < unat spb" using nz by (simp add: unat_gt_0)
  have w: "unat w = unat pos mod unat spb"
    using sampleWithinBeat_unat [OF nz] by (simp add: w_def)
  have wlt: "unat w < unat spb" using w posn by simp
  then have wle: "w \<le> spb" by (simp add: word_le_nat_alt)
  have sub: "unat (spb - w) = unat spb - unat w" using wle by (rule unat_sub)
  have le16: "w \<le> 16 \<longleftrightarrow> unat pos mod unat spb \<le> 16"
    by (simp add: word_le_nat_alt w)
  have eq: "samplesToNextBeat s = Some (if w \<le> 16 then 0 else spb - w)"
    using nz by (simp add: samplesToNextBeat_def getSamplePosition_def getSamplesPerBeat_def
        Let_def spb_def pos_def w_def)
  have nonzero: "spb - w \<noteq> 0"
  proof
    assume "spb - w = 0"
    then have "unat (spb - w) = 0" by simp
    then show False using sub wlt by simp
  qed
  show ?thesis
    unfolding spb_def [symmetric] pos_def [symmetric] eq
    using le16 sub w nonzero by auto
qed

theorem samplesToNextBeat_spec_witness:
  "(16 :: u32) < s_samplesPerBeat (tk_init\<lparr> s_samplePosition := 22060 \<rparr>)
   \<and> samplesToNextBeat (tk_init\<lparr> s_samplePosition := 22060 \<rparr>) = Some 0
   \<and> samplesToNextBeat (tk_init\<lparr> s_samplePosition := 22067 \<rparr>) = Some 22033"
proof -
  have h: "(16 :: u32) < s_samplesPerBeat (tk_init\<lparr> s_samplePosition := 22060 \<rparr>)"
    by (simp add: tk_init_def DEFAULT_SAMPLES_PER_BEAT_def SAMPLE_RATE_def DEFAULT_BPM_def)
  have h2: "(16 :: u32) < s_samplesPerBeat (tk_init\<lparr> s_samplePosition := 22067 \<rparr>)"
    by (simp add: tk_init_def DEFAULT_SAMPLES_PER_BEAT_def SAMPLE_RATE_def DEFAULT_BPM_def)
  have a: "samplesToNextBeat (tk_init\<lparr> s_samplePosition := 22060 \<rparr>) = Some 0"
    using samplesToNextBeat_spec [OF h]
    by (auto simp: tk_init_def DEFAULT_SAMPLES_PER_BEAT_def SAMPLE_RATE_def DEFAULT_BPM_def)
  obtain r where r: "samplesToNextBeat (tk_init\<lparr> s_samplePosition := 22067 \<rparr>) = Some r"
      and u: "unat r = 22033"
    using samplesToNextBeat_spec [OF h2]
    by (auto simp: tk_init_def DEFAULT_SAMPLES_PER_BEAT_def SAMPLE_RATE_def DEFAULT_BPM_def)
  have "r = 22033" using u by (simp add: word_unat_eq_iff)
  then show ?thesis using h a r by simp
qed

subsection \<open>samplesToNextSubdivision\<close>

text \<open>
  With \<open>tickInBeat < 24\<close> the tick-derived elapsed sample count \<open>tickInBeat * (spb / 24)\<close>
  neither wraps nor reaches \<open>spb\<close>.
\<close>

lemma samplesElapsed_unat:
  assumes "s_tickInBeat s < 24"
  shows "unat (s_tickInBeat s * (s_samplesPerBeat s div 24))
           = unat (s_tickInBeat s) * (unat (s_samplesPerBeat s) div 24)"
    and "24 \<le> s_samplesPerBeat s \<Longrightarrow>
           s_tickInBeat s * (s_samplesPerBeat s div 24) < s_samplesPerBeat s"
proof -
  define S where "S = unat (s_samplesPerBeat s)"
  define T where "T = unat (s_tickInBeat s)"
  have T: "T < 24" using assms by (simp add: word_less_nat_alt T_def)
  have S: "S < 2 ^ 32"
    using unsigned_less [of "s_samplesPerBeat s", where ?'a = nat] by (simp add: S_def)
  have d: "unat (s_samplesPerBeat s div 24) = S div 24"
    by (simp add: unat_div S_def)
  have "T * (S div 24) \<le> 23 * (S div 24)" using T by simp
  also have "\<dots> \<le> 24 * (S div 24)" by simp
  also have "\<dots> \<le> S" by simp
  finally have le: "T * (S div 24) \<le> S" .
  then have "T * (S div 24) < 2 ^ 32" using S by linarith
  then have "unat (s_tickInBeat s) * unat (s_samplesPerBeat s div 24) < 2 ^ LENGTH(32)"
    unfolding d by (simp add: T_def)
  then have "unat (s_tickInBeat s * (s_samplesPerBeat s div 24))
           = unat (s_tickInBeat s) * unat (s_samplesPerBeat s div 24)"
    by (simp only: unat_mult_lem)
  then show e: "unat (s_tickInBeat s * (s_samplesPerBeat s div 24))
           = unat (s_tickInBeat s) * (unat (s_samplesPerBeat s) div 24)"
    unfolding d by (simp add: S_def)
  assume "24 \<le> s_samplesPerBeat s"
  then have "24 \<le> S" by (simp add: word_le_nat_alt S_def)
  then have "1 \<le> S div 24" by (simp add: Suc_le_eq div_greater_zero_iff)
  then have "23 * (S div 24) < 24 * (S div 24)" by simp
  moreover have "T * (S div 24) \<le> 23 * (S div 24)" using T by simp
  moreover have "24 * (S div 24) \<le> S" by simp
  ultimately have "T * (S div 24) < S" by linarith
  then show "s_tickInBeat s * (s_samplesPerBeat s div 24) < s_samplesPerBeat s"
    by (simp add: word_less_nat_alt e T_def S_def)
qed

text \<open>
  In 32-bit arithmetic the distance from the elapsed count to the next multiple of the
  subdivision is \<open>sub - e mod sub\<close>, whether or not \<open>(e / sub + 1) * sub\<close> wraps, and it is
  never 0.
\<close>

lemma next_subdivision_distance:
  fixes e sub :: u32
  assumes "sub \<noteq> 0"
  shows "(e div sub + 1) * sub - e = sub - e mod sub"
    and "sub - e mod sub \<noteq> 0"
proof -
  have "e div sub * sub + e mod sub = e" by (rule div_mult_mod_eq)
  then have "(e div sub + 1) * sub = e + (sub - e mod sub)"
    by (simp add: algebra_simps)
  then show "(e div sub + 1) * sub - e = sub - e mod sub" by simp
  have "unat (e mod sub) < unat sub"
    using assms by (simp add: unat_mod unat_gt_0)
  then have "e mod sub \<noteq> sub" by auto
  then show "sub - e mod sub \<noteq> 0" by simp
qed


lemma samplesToNextSubdivision_eq:
  assumes "sub \<noteq> 0"
  shows "samplesToNextSubdivision s sub =
     (let spb = s_samplesPerBeat s;
          e = s_tickInBeat s * (spb div 24)
      in if sub \<ge> spb then Some (spb - e)
         else if (e div sub + 1) * sub > spb then Some (spb - e)
         else Some (sub - e mod sub))"
  using assms next_subdivision_distance(1) [OF assms]
  by (simp add: samplesToNextSubdivision_def getSamplesPerBeat_def getTickInBeat_def
      MIDI_PPQN_def Let_def)

lemma samplesToNextSubdivision_on_boundary:
  assumes nz: "sub \<noteq> 0"
    and dv: "s_tickInBeat s * (s_samplesPerBeat s div 24) mod sub = 0"
    and fit: "unat (s_tickInBeat s * (s_samplesPerBeat s div 24)) + unat sub \<le> unat (s_samplesPerBeat s)"
  shows "samplesToNextSubdivision s sub = Some sub"
proof -
  define e where "e = s_tickInBeat s * (s_samplesPerBeat s div 24)"
  define spb where "spb = s_samplesPerBeat s"
  have dv': "e mod sub = 0" using dv by (simp add: e_def)
  have fit': "unat e + unat sub \<le> unat spb" using fit by (simp add: e_def spb_def)
  have eq: "samplesToNextSubdivision s sub =
      (if sub \<ge> spb then Some (spb - e)
       else if (e div sub + 1) * sub > spb then Some (spb - e)
       else Some (sub - e mod sub))"
    using samplesToNextSubdivision_eq [OF nz, of s] by (simp add: Let_def e_def spb_def)
  show ?thesis
  proof (cases "sub \<ge> spb")
    case True
    then have "unat spb \<le> unat sub" by (simp add: word_le_nat_alt)
    then have "unat e = 0" and "unat sub = unat spb" using fit' by linarith+
    then have "e = 0" and "sub = spb" by (simp_all add: word_unat_eq_iff)
    then show ?thesis using eq by simp
  next
    case False
    have "e div sub * sub + e mod sub = e" by (rule div_mult_mod_eq)
    then have n: "(e div sub + 1) * sub = e + sub" using dv' by (simp add: algebra_simps)
    have "unat spb < 2 ^ 32"
      using unsigned_less [of spb, where ?'a = nat] by simp
    then have "unat e + unat sub < 2 ^ LENGTH(32)" using fit' by simp
    then have "unat (e + sub) = unat e + unat sub" by (simp only: unat_add_lem)
    then have "\<not> e + sub > spb" using fit' by (simp add: word_less_nat_alt)
    then show ?thesis using eq False n dv' by simp
  qed
qed

subsection \<open>A quantized press on a grid line\<close>

text \<open>
  The grid of the selected quantization is at least 1 sample wide when a beat has at
  least 24 samples. With the tick-derived position on a grid line whose successor lies
  inside the beat, the distance to the next grid line is the whole subdivision; the three
  controllers turn it into a scheduled sample.
\<close>

lemma calculateQuantizedDuration_pos:
  assumes "24 \<le> s_samplesPerBeat tk"
  shows "1 \<le> calculateQuantizedDuration tk quant"
proof -
  define S where "S = unat (s_samplesPerBeat tk)"
  have S: "24 \<le> S" using assms by (simp add: word_le_nat_alt S_def)
  have "1 \<le> S div 8" "1 \<le> S div 4" "1 \<le> S div 2" "1 \<le> S" using S by simp_all
  then have "1 \<le> unat (s_samplesPerBeat tk div 8)" "1 \<le> unat (s_samplesPerBeat tk div 4)"
    "1 \<le> unat (s_samplesPerBeat tk div 2)" "1 \<le> unat (s_samplesPerBeat tk)"
    by (simp_all add: unat_div S_def)
  then show ?thesis
    by (cases quant) (simp_all add: calculateQuantizedDuration_def getSamplesPerBeat_def
        word_le_nat_alt)
qed

lemma samplesToNextQuantizedBoundary_on_boundary:
  assumes D: "D = calculateQuantizedDuration tk quant" and nz: "D \<noteq> 0"
    and b: "on_subdivision_boundary tk D"
  shows "samplesToNextQuantizedBoundary tk quant = Some D"
proof -
  have dv: "s_tickInBeat tk * (s_samplesPerBeat tk div 24) mod D = 0"
    and fit: "unat (s_tickInBeat tk * (s_samplesPerBeat tk div 24)) + unat D
                \<le> unat (s_samplesPerBeat tk)"
    using b by (simp_all add: on_subdivision_boundary_def getTickInBeat_def
        getSamplesPerBeat_def MIDI_PPQN_def Let_def)
  show ?thesis
    using samplesToNextSubdivision_on_boundary [OF nz dv fit]
    by (simp add: samplesToNextQuantizedBoundary_def D)
qed

lemma ChokeController_quantized_press:
  assumes b: "samplesToNextQuantizedBoundary tk (globalQuantization q) = Some D"
    and cmd: "targetEffect cmd = EffectID.CHOKE"
      "cmd_type cmd = EFFECT_ENABLE \<or> cmd_type cmd = EFFECT_TOGGLE"
    and m: "Choke_getOnsetMode ch = ChokeOnset.QUANTIZED"
  shows "\<exists>ch'. ChokeController_handleButtonPress q tk cmd ch = Some (True, ch')
           \<and> m_onsetAtSample_c ch'
               = getSamplePosition tk
                   + ucast (if lookaheadOffset q < D then D - lookaheadOffset q else 0)
           \<and> m_isEnabled_c ch' = m_isEnabled_c ch"
  using cmd m b
  by (auto simp: ChokeController_handleButtonPress_def Let_def Choke_scheduleOnset_def
      Choke_scheduleRelease_def)

lemma FreezeController_quantized_press:
  assumes b: "samplesToNextQuantizedBoundary tk (globalQuantization q) = Some D"
    and cmd: "targetEffect cmd = EffectID.FREEZE"
      "cmd_type cmd = EFFECT_ENABLE \<or> cmd_type cmd = EFFECT_TOGGLE"
    and m: "Freeze_getOnsetMode fr = FreezeOnset.QUANTIZED"
  shows "\<exists>fr'. FreezeController_handleButtonPress q tk cmd fr = Some (True, fr')
           \<and> m_onsetAtSample_f fr'
               = getSamplePosition tk
                   + ucast (if lookaheadOffset q < D then D - lookaheadOffset q else 0)
           \<and> m_isEnabled_f fr' = m_isEnabled_f fr"
  using cmd m b
  by (auto simp: FreezeController_handleButtonPress_def Let_def Freeze_scheduleOnset_def
      Freeze_scheduleRelease_def)

lemma StutterController_quantized_capture_press:
  assumes b: "samplesToNextQuantizedBoundary tk (globalQuantization q) = Some D"
    and cmd: "targetEffect cmd = EffectID.STUTTER"
      "cmd_type cmd = EFFECT_ENABLE \<or> cmd_type cmd = EFFECT_TOGGLE"
    and f: "m_funcHeld c"
    and m: "getCaptureStartMode st = StutterCaptureStart.QUANTIZED"
  shows "StutterController_handleButtonPress q tk cmd c st
           = Some (True, c\<lparr> m_stutterHeld_c := True \<rparr>,
                   scheduleCaptureStart (getSamplePosition tk + ucast D) st)"
  using cmd f m b
  by (auto simp: StutterController_handleButtonPress_def Let_def)

lemma StutterController_quantized_playback_press:
  assumes b: "samplesToNextQuantizedBoundary tk (globalQuantization q) = Some D"
    and cmd: "targetEffect cmd = EffectID.STUTTER"
      "cmd_type cmd = EFFECT_ENABLE \<or> cmd_type cmd = EFFECT_TOGGLE"
    and f: "\<not> m_funcHeld c"
    and s: "Stutter_getState st = IDLE_WITH_LOOP"
    and m: "Stutter_getOnsetMode st = StutterOnset.QUANTIZED"
  shows "StutterController_handleButtonPress q tk cmd c st
           = Some (True, c\<lparr> m_stutterHeld_c := True \<rparr>,
                   schedulePlaybackOnset (getSamplePosition tk + ucast D) st)"
  using cmd f s m b
  by (auto simp: StutterController_handleButtonPress_def Let_def)

text \<open>
  Claim C9 as stated fails in its consequence when the subdivision does not exceed the
  lookahead. At 512 samples per beat the 1/16 subdivision is 128 samples, the lookahead:
  \<open>samplesToNextSubdivision\<close> returns the full 128 on the grid line at tick 0, the CHOKE
  controller subtracts the lookahead only from a larger distance, schedules the onset at
  the current sample 1024, and the \<open>update\<close> of the block starting there engages the
  choke. At 256 samples per beat the subdivision is 64, below the lookahead, and the
  onset is again scheduled at the current sample.
\<close>

theorem quantized_press_inside_lookahead:
  "24 \<le> getSamplesPerBeat (tk_init\<lparr> s_samplePosition := 1024, s_samplesPerBeat := 512 \<rparr>)
   \<and> calculateQuantizedDuration
        (tk_init\<lparr> s_samplePosition := 1024, s_samplesPerBeat := 512 \<rparr>) QUANT_16 = 128
   \<and> (1 :: u32) \<le> 128
   \<and> on_subdivision_boundary (tk_init\<lparr> s_samplePosition := 1024, s_samplesPerBeat := 512 \<rparr>) 128
   \<and> samplesToNextSubdivision
        (tk_init\<lparr> s_samplePosition := 1024, s_samplesPerBeat := 512 \<rparr>) 128 = Some 128
   \<and> getSamplePosition (tk_init\<lparr> s_samplePosition := 1024, s_samplesPerBeat := 512 \<rparr>) = 1024
   \<and> ChokeController_handleButtonPress EffectQuantization_initialize
        (tk_init\<lparr> s_samplePosition := 1024, s_samplesPerBeat := 512 \<rparr>)
        \<lparr> cmd_type = EFFECT_ENABLE, targetEffect = EffectID.CHOKE, param1 = 0, param2 = 0,
          cmd_value = 0 \<rparr>
        (Choke_setOnsetMode ChokeOnset.QUANTIZED Choke_init)
       = Some (True, Choke_scheduleOnset 1024 (Choke_setOnsetMode ChokeOnset.QUANTIZED Choke_init))
   \<and> m_isEnabled_c (fst (Choke_update
        \<lparr> gainIncrement = (\<lambda>t c. 0), applyGainRamp = (\<lambda>g d i. (g, d)) \<rparr> 1024 None None
        (Choke_scheduleOnset 1024 (Choke_setOnsetMode ChokeOnset.QUANTIZED Choke_init))))
   \<and> calculateQuantizedDuration
        (tk_init\<lparr> s_samplePosition := 1024, s_samplesPerBeat := 256 \<rparr>) QUANT_16 = 64
   \<and> on_subdivision_boundary (tk_init\<lparr> s_samplePosition := 1024, s_samplesPerBeat := 256 \<rparr>) 64
   \<and> samplesToNextSubdivision
        (tk_init\<lparr> s_samplePosition := 1024, s_samplesPerBeat := 256 \<rparr>) 64 = Some 64
   \<and> ChokeController_handleButtonPress EffectQuantization_initialize
        (tk_init\<lparr> s_samplePosition := 1024, s_samplesPerBeat := 256 \<rparr>)
        \<lparr> cmd_type = EFFECT_ENABLE, targetEffect = EffectID.CHOKE, param1 = 0, param2 = 0,
          cmd_value = 0 \<rparr>
        (Choke_setOnsetMode ChokeOnset.QUANTIZED Choke_init)
       = Some (True, Choke_scheduleOnset 1024 (Choke_setOnsetMode ChokeOnset.QUANTIZED Choke_init))"
  by (simp add: ChokeController_handleButtonPress_def samplesToNextQuantizedBoundary_def
      samplesToNextSubdivision_def calculateQuantizedDuration_def getSamplesPerBeat_def
      getTickInBeat_def on_subdivision_boundary_def MIDI_PPQN_def
      EffectQuantization_initialize_def Choke_getOnsetMode_def Choke_getLengthMode_def
      Choke_setOnsetMode_def Choke_scheduleOnset_def Choke_init_def getSamplePosition_def
      tk_init_def Choke_update_def AUDIO_BLOCK_SAMPLES_def Let_def)

text \<open>
  Claim C9, as the code keeps it. For every subdivision \<open>sub \<ge> 1\<close> and every
  \<open>samplesPerBeat \<ge> 24\<close> (the tick counter being inside its range \<open>0..23\<close>),
  \<open>samplesToNextSubdivision\<close> returns a strictly positive value, and it has no on-time
  tolerance: when the tick-derived position lies exactly on a multiple of the subdivision
  and the next multiple still fits in the beat, the result is one full subdivision. A
  quantized-onset press of the CHOKE or the FREEZE controller made on such a grid line of
  the selected quantization, of width \<open>D\<close>, schedules the onset \<open>D - lookahead\<close> samples
  after the current sample position when \<open>D\<close> exceeds the lookahead and at the current
  sample position itself otherwise; in neither case does the call engage the effect. The
  STUTTER controller applies no lookahead: its quantized capture start and its quantized
  playback onset are scheduled exactly \<open>D\<close> samples after the current sample position.
\<close>

theorem samplesToNextSubdivision_no_tolerance:
  assumes spb: "24 \<le> s_samplesPerBeat tk" and tick: "s_tickInBeat tk < 24"
    and D: "D = calculateQuantizedDuration tk (globalQuantization q)"
  shows
    "(1 \<le> sub \<longrightarrow>
        (\<exists>r. samplesToNextSubdivision tk sub = Some r \<and> 0 < r
              \<and> (on_subdivision_boundary tk sub \<longrightarrow> r = sub)))
     \<and> 1 \<le> D
     \<and> (on_subdivision_boundary tk D \<longrightarrow>
          samplesToNextQuantizedBoundary tk (globalQuantization q) = Some D
          \<and> (targetEffect cmd = EffectID.CHOKE
               \<and> (cmd_type cmd = EFFECT_ENABLE \<or> cmd_type cmd = EFFECT_TOGGLE)
               \<and> Choke_getOnsetMode ch = ChokeOnset.QUANTIZED \<longrightarrow>
               (\<exists>ch'. ChokeController_handleButtonPress q tk cmd ch = Some (True, ch')
                  \<and> m_onsetAtSample_c ch'
                      = getSamplePosition tk
                          + ucast (if lookaheadOffset q < D then D - lookaheadOffset q else 0)
                  \<and> m_isEnabled_c ch' = m_isEnabled_c ch))
          \<and> (targetEffect cmd = EffectID.FREEZE
               \<and> (cmd_type cmd = EFFECT_ENABLE \<or> cmd_type cmd = EFFECT_TOGGLE)
               \<and> Freeze_getOnsetMode fr = FreezeOnset.QUANTIZED \<longrightarrow>
               (\<exists>fr'. FreezeController_handleButtonPress q tk cmd fr = Some (True, fr')
                  \<and> m_onsetAtSample_f fr'
                      = getSamplePosition tk
                          + ucast (if lookaheadOffset q < D then D - lookaheadOffset q else 0)
                  \<and> m_isEnabled_f fr' = m_isEnabled_f fr))
          \<and> (targetEffect cmd = EffectID.STUTTER
               \<and> (cmd_type cmd = EFFECT_ENABLE \<or> cmd_type cmd = EFFECT_TOGGLE)
               \<and> m_funcHeld c
               \<and> getCaptureStartMode st = StutterCaptureStart.QUANTIZED \<longrightarrow>
               StutterController_handleButtonPress q tk cmd c st
                 = Some (True, c\<lparr> m_stutterHeld_c := True \<rparr>,
                         scheduleCaptureStart (getSamplePosition tk + ucast D) st))
          \<and> (targetEffect cmd = EffectID.STUTTER
               \<and> (cmd_type cmd = EFFECT_ENABLE \<or> cmd_type cmd = EFFECT_TOGGLE)
               \<and> \<not> m_funcHeld c
               \<and> Stutter_getState st = IDLE_WITH_LOOP
               \<and> Stutter_getOnsetMode st = StutterOnset.QUANTIZED \<longrightarrow>
               StutterController_handleButtonPress q tk cmd c st
                 = Some (True, c\<lparr> m_stutterHeld_c := True \<rparr>,
                         schedulePlaybackOnset (getSamplePosition tk + ucast D) st)))"
proof -
  have p1: "1 \<le> sub \<longrightarrow>
        (\<exists>r. samplesToNextSubdivision tk sub = Some r \<and> 0 < r
              \<and> (on_subdivision_boundary tk sub \<longrightarrow> r = sub))"
  proof
    assume s1: "1 \<le> sub"
    then have nz: "sub \<noteq> 0" by auto
    define e where "e = s_tickInBeat tk * (s_samplesPerBeat tk div 24)"
    have "e < s_samplesPerBeat tk"
      using samplesElapsed_unat(2) [OF tick spb] by (simp add: e_def)
    then have a: "s_samplesPerBeat tk - e \<noteq> 0" by auto
    have b: "sub - e mod sub \<noteq> 0" using next_subdivision_distance(2) [OF nz] .
    have "\<exists>r. samplesToNextSubdivision tk sub = Some r \<and> 0 < r"
      unfolding samplesToNextSubdivision_eq [OF nz] Let_def e_def [symmetric]
      using a b by (auto simp: word_greater_zero_iff)
    then obtain r where r: "samplesToNextSubdivision tk sub = Some r" "0 < r" by blast
    have "r = sub" if "on_subdivision_boundary tk sub"
    proof -
      have "e mod sub = 0" "unat e + unat sub \<le> unat (s_samplesPerBeat tk)"
        using that by (simp_all add: on_subdivision_boundary_def getTickInBeat_def
            getSamplesPerBeat_def MIDI_PPQN_def Let_def e_def)
      then show ?thesis
        using samplesToNextSubdivision_on_boundary [OF nz, of tk] r(1) by (simp add: e_def)
    qed
    then show "\<exists>r. samplesToNextSubdivision tk sub = Some r \<and> 0 < r
              \<and> (on_subdivision_boundary tk sub \<longrightarrow> r = sub)"
      using r by blast
  qed
  have p2: "1 \<le> D" unfolding D using spb by (rule calculateQuantizedDuration_pos)
  then have nz: "D \<noteq> 0" by auto
  have p3: "samplesToNextQuantizedBoundary tk (globalQuantization q) = Some D
          \<and> (targetEffect cmd = EffectID.CHOKE
               \<and> (cmd_type cmd = EFFECT_ENABLE \<or> cmd_type cmd = EFFECT_TOGGLE)
               \<and> Choke_getOnsetMode ch = ChokeOnset.QUANTIZED \<longrightarrow>
               (\<exists>ch'. ChokeController_handleButtonPress q tk cmd ch = Some (True, ch')
                  \<and> m_onsetAtSample_c ch'
                      = getSamplePosition tk
                          + ucast (if lookaheadOffset q < D then D - lookaheadOffset q else 0)
                  \<and> m_isEnabled_c ch' = m_isEnabled_c ch))
          \<and> (targetEffect cmd = EffectID.FREEZE
               \<and> (cmd_type cmd = EFFECT_ENABLE \<or> cmd_type cmd = EFFECT_TOGGLE)
               \<and> Freeze_getOnsetMode fr = FreezeOnset.QUANTIZED \<longrightarrow>
               (\<exists>fr'. FreezeController_handleButtonPress q tk cmd fr = Some (True, fr')
                  \<and> m_onsetAtSample_f fr'
                      = getSamplePosition tk
                          + ucast (if lookaheadOffset q < D then D - lookaheadOffset q else 0)
                  \<and> m_isEnabled_f fr' = m_isEnabled_f fr))
          \<and> (targetEffect cmd = EffectID.STUTTER
               \<and> (cmd_type cmd = EFFECT_ENABLE \<or> cmd_type cmd = EFFECT_TOGGLE)
               \<and> m_funcHeld c
               \<and> getCaptureStartMode st = StutterCaptureStart.QUANTIZED \<longrightarrow>
               StutterController_handleButtonPress q tk cmd c st
                 = Some (True, c\<lparr> m_stutterHeld_c := True \<rparr>,
                         scheduleCaptureStart (getSamplePosition tk + ucast D) st))
          \<and> (targetEffect cmd = EffectID.STUTTER
               \<and> (cmd_type cmd = EFFECT_ENABLE \<or> cmd_type cmd = EFFECT_TOGGLE)
               \<and> \<not> m_funcHeld c
               \<and> Stutter_getState st = IDLE_WITH_LOOP
               \<and> Stutter_getOnsetMode st = StutterOnset.QUANTIZED \<longrightarrow>
               StutterController_handleButtonPress q tk cmd c st
                 = Some (True, c\<lparr> m_stutterHeld_c := True \<rparr>,
                         schedulePlaybackOnset (getSamplePosition tk + ucast D) st))"
    if ob: "on_subdivision_boundary tk D"
  proof -
    have b: "samplesToNextQuantizedBoundary tk (globalQuantization q) = Some D"
      using D nz ob by (rule samplesToNextQuantizedBoundary_on_boundary)
    show ?thesis
      using b ChokeController_quantized_press [OF b, of cmd ch]
        FreezeController_quantized_press [OF b, of cmd fr]
        StutterController_quantized_capture_press [OF b, of cmd c st]
        StutterController_quantized_playback_press [OF b, of cmd c st]
      by blast
  qed
  show ?thesis using p1 p2 p3 by blast
qed

text \<open>
  The statement at the initial TimeKeeper (22050 samples per beat, tick 0, sample position
  0) with the 1/16 grid of 5512 samples and the lookahead of 128: CHOKE and FREEZE
  schedule the onset at sample 5384, STUTTER schedules the capture start and the playback
  onset at sample 5512; and at 512 samples per beat and sample position 1024, where the
  grid is as wide as the lookahead: CHOKE schedules the onset at sample 1024.
\<close>

theorem samplesToNextSubdivision_no_tolerance_witness:
  "24 \<le> s_samplesPerBeat tk_init \<and> s_tickInBeat tk_init < 24
   \<and> calculateQuantizedDuration tk_init (globalQuantization EffectQuantization_initialize) = 5512
   \<and> (1 :: u32) \<le> 5512
   \<and> on_subdivision_boundary tk_init 5512
   \<and> samplesToNextSubdivision tk_init 5512 = Some 5512
   \<and> samplesToNextQuantizedBoundary tk_init (globalQuantization EffectQuantization_initialize)
       = Some 5512
   \<and> Choke_getOnsetMode (Choke_setOnsetMode ChokeOnset.QUANTIZED Choke_init) = ChokeOnset.QUANTIZED
   \<and> (\<exists>ch'. ChokeController_handleButtonPress EffectQuantization_initialize tk_init
               \<lparr> cmd_type = EFFECT_ENABLE, targetEffect = EffectID.CHOKE, param1 = 0, param2 = 0,
                 cmd_value = 0 \<rparr>
               (Choke_setOnsetMode ChokeOnset.QUANTIZED Choke_init) = Some (True, ch')
            \<and> m_onsetAtSample_c ch' = 5384 \<and> \<not> m_isEnabled_c ch')
   \<and> Freeze_getOnsetMode (Freeze_setOnsetMode FreezeOnset.QUANTIZED Freeze_init) = FreezeOnset.QUANTIZED
   \<and> (\<exists>fr'. FreezeController_handleButtonPress EffectQuantization_initialize tk_init
               \<lparr> cmd_type = EFFECT_ENABLE, targetEffect = EffectID.FREEZE, param1 = 0, param2 = 0,
                 cmd_value = 0 \<rparr>
               (Freeze_setOnsetMode FreezeOnset.QUANTIZED Freeze_init) = Some (True, fr')
            \<and> m_onsetAtSample_f fr' = 5384 \<and> \<not> m_isEnabled_f fr')
   \<and> m_funcHeld (StutterController_init\<lparr> m_funcHeld := True \<rparr>)
   \<and> getCaptureStartMode (setCaptureStartMode StutterCaptureStart.QUANTIZED Stutter_init)
       = StutterCaptureStart.QUANTIZED
   \<and> StutterController_handleButtonPress EffectQuantization_initialize tk_init
        \<lparr> cmd_type = EFFECT_ENABLE, targetEffect = EffectID.STUTTER, param1 = 0, param2 = 0,
          cmd_value = 0 \<rparr>
        (StutterController_init\<lparr> m_funcHeld := True \<rparr>)
        (setCaptureStartMode StutterCaptureStart.QUANTIZED Stutter_init)
       = Some (True, StutterController_init\<lparr> m_funcHeld := True, m_stutterHeld_c := True \<rparr>,
               scheduleCaptureStart 5512
                 (setCaptureStartMode StutterCaptureStart.QUANTIZED Stutter_init))
   \<and> \<not> m_funcHeld StutterController_init
   \<and> Stutter_getState (stopPlayback (Stutter_setOnsetMode StutterOnset.QUANTIZED Stutter_init))
       = IDLE_WITH_LOOP
   \<and> Stutter_getOnsetMode (stopPlayback (Stutter_setOnsetMode StutterOnset.QUANTIZED Stutter_init))
       = StutterOnset.QUANTIZED
   \<and> StutterController_handleButtonPress EffectQuantization_initialize tk_init
        \<lparr> cmd_type = EFFECT_ENABLE, targetEffect = EffectID.STUTTER, param1 = 0, param2 = 0,
          cmd_value = 0 \<rparr>
        StutterController_init
        (stopPlayback (Stutter_setOnsetMode StutterOnset.QUANTIZED Stutter_init))
       = Some (True, StutterController_init\<lparr> m_stutterHeld_c := True \<rparr>,
               schedulePlaybackOnset 5512
                 (stopPlayback (Stutter_setOnsetMode StutterOnset.QUANTIZED Stutter_init)))
   \<and> 24 \<le> s_samplesPerBeat (tk_init\<lparr> s_samplePosition := 1024, s_samplesPerBeat := 512 \<rparr>)
   \<and> s_tickInBeat (tk_init\<lparr> s_samplePosition := 1024, s_samplesPerBeat := 512 \<rparr>) < 24
   \<and> calculateQuantizedDuration (tk_init\<lparr> s_samplePosition := 1024, s_samplesPerBeat := 512 \<rparr>)
         (globalQuantization EffectQuantization_initialize) = 128
   \<and> on_subdivision_boundary (tk_init\<lparr> s_samplePosition := 1024, s_samplesPerBeat := 512 \<rparr>) 128
   \<and> \<not> lookaheadOffset EffectQuantization_initialize < 128
   \<and> (\<exists>ch'. ChokeController_handleButtonPress EffectQuantization_initialize
               (tk_init\<lparr> s_samplePosition := 1024, s_samplesPerBeat := 512 \<rparr>)
               \<lparr> cmd_type = EFFECT_ENABLE, targetEffect = EffectID.CHOKE, param1 = 0, param2 = 0,
                 cmd_value = 0 \<rparr>
               (Choke_setOnsetMode ChokeOnset.QUANTIZED Choke_init) = Some (True, ch')
            \<and> m_onsetAtSample_c ch' = 1024 \<and> \<not> m_isEnabled_c ch')"
proof -
  define q where "q = EffectQuantization_initialize"
  have h1: "24 \<le> s_samplesPerBeat tk_init"
    by (simp add: tk_init_def DEFAULT_SAMPLES_PER_BEAT_def SAMPLE_RATE_def DEFAULT_BPM_def)
  have h2: "s_tickInBeat tk_init < 24" by (simp add: tk_init_def)
  have d: "calculateQuantizedDuration tk_init (globalQuantization q) = 5512"
    by (simp add: q_def calculateQuantizedDuration_def EffectQuantization_initialize_def
        getSamplesPerBeat_def tk_init_def DEFAULT_SAMPLES_PER_BEAT_def SAMPLE_RATE_def
        DEFAULT_BPM_def)
  have h3: "(5512 :: u32) = calculateQuantizedDuration tk_init (globalQuantization q)"
    using d by simp
  have s1: "(1 :: u32) \<le> 5512" by simp
  have ob: "on_subdivision_boundary tk_init 5512"
    by (simp add: on_subdivision_boundary_def getTickInBeat_def getSamplesPerBeat_def
        tk_init_def DEFAULT_SAMPLES_PER_BEAT_def SAMPLE_RATE_def DEFAULT_BPM_def Let_def)
  have la: "lookaheadOffset q = 128" by (simp add: q_def EffectQuantization_initialize_def)
  have pos: "getSamplePosition tk_init = 0" by (simp add: getSamplePosition_def tk_init_def)
  have mc: "Choke_getOnsetMode (Choke_setOnsetMode ChokeOnset.QUANTIZED Choke_init) = ChokeOnset.QUANTIZED"
    "\<not> m_isEnabled_c (Choke_setOnsetMode ChokeOnset.QUANTIZED Choke_init)"
    by (simp_all add: Choke_getOnsetMode_def Choke_setOnsetMode_def Choke_init_def)
  have mf: "Freeze_getOnsetMode (Freeze_setOnsetMode FreezeOnset.QUANTIZED Freeze_init) = FreezeOnset.QUANTIZED"
    "\<not> m_isEnabled_f (Freeze_setOnsetMode FreezeOnset.QUANTIZED Freeze_init)"
    by (simp_all add: Freeze_getOnsetMode_def Freeze_setOnsetMode_def Freeze_init_def)
  have fh: "m_funcHeld (StutterController_init\<lparr> m_funcHeld := True \<rparr>)" by simp
  have nfh: "\<not> m_funcHeld StutterController_init" by (simp add: StutterController_init_def)
  have ms: "getCaptureStartMode (setCaptureStartMode StutterCaptureStart.QUANTIZED Stutter_init)
       = StutterCaptureStart.QUANTIZED"
    by (simp add: getCaptureStartMode_def setCaptureStartMode_def)
  have mp: "Stutter_getState (stopPlayback (Stutter_setOnsetMode StutterOnset.QUANTIZED Stutter_init))
       = IDLE_WITH_LOOP"
    "Stutter_getOnsetMode (stopPlayback (Stutter_setOnsetMode StutterOnset.QUANTIZED Stutter_init))
       = StutterOnset.QUANTIZED"
    by (simp_all add: Stutter_getState_def Stutter_getOnsetMode_def stopPlayback_def
        Stutter_setOnsetMode_def)
  note T = samplesToNextSubdivision_no_tolerance [OF h1 h2 h3]
  have a: "samplesToNextSubdivision tk_init 5512 = Some 5512"
    using T [of 5512] s1 ob by auto
  have b: "samplesToNextQuantizedBoundary tk_init (globalQuantization q) = Some 5512"
    using T ob by blast
  have c: "\<exists>ch'. ChokeController_handleButtonPress q tk_init
               \<lparr> cmd_type = EFFECT_ENABLE, targetEffect = EffectID.CHOKE, param1 = 0, param2 = 0,
                 cmd_value = 0 \<rparr>
               (Choke_setOnsetMode ChokeOnset.QUANTIZED Choke_init) = Some (True, ch')
            \<and> m_onsetAtSample_c ch' = 5384 \<and> \<not> m_isEnabled_c ch'"
    using T [of _ "\<lparr> cmd_type = EFFECT_ENABLE, targetEffect = EffectID.CHOKE, param1 = 0,
                    param2 = 0, cmd_value = 0 \<rparr>"
                "Choke_setOnsetMode ChokeOnset.QUANTIZED Choke_init"] ob mc
    by (simp add: la pos)
  have f: "\<exists>fr'. FreezeController_handleButtonPress q tk_init
               \<lparr> cmd_type = EFFECT_ENABLE, targetEffect = EffectID.FREEZE, param1 = 0, param2 = 0,
                 cmd_value = 0 \<rparr>
               (Freeze_setOnsetMode FreezeOnset.QUANTIZED Freeze_init) = Some (True, fr')
            \<and> m_onsetAtSample_f fr' = 5384 \<and> \<not> m_isEnabled_f fr'"
    using T [of _ "\<lparr> cmd_type = EFFECT_ENABLE, targetEffect = EffectID.FREEZE, param1 = 0,
                    param2 = 0, cmd_value = 0 \<rparr>" _
                "Freeze_setOnsetMode FreezeOnset.QUANTIZED Freeze_init"] ob mf
    by (simp add: la pos)
  have g: "StutterController_handleButtonPress q tk_init
        \<lparr> cmd_type = EFFECT_ENABLE, targetEffect = EffectID.STUTTER, param1 = 0, param2 = 0,
          cmd_value = 0 \<rparr>
        (StutterController_init\<lparr> m_funcHeld := True \<rparr>)
        (setCaptureStartMode StutterCaptureStart.QUANTIZED Stutter_init)
       = Some (True, StutterController_init\<lparr> m_funcHeld := True, m_stutterHeld_c := True \<rparr>,
               scheduleCaptureStart 5512
                 (setCaptureStartMode StutterCaptureStart.QUANTIZED Stutter_init))"
    using T [of _ "\<lparr> cmd_type = EFFECT_ENABLE, targetEffect = EffectID.STUTTER, param1 = 0,
                    param2 = 0, cmd_value = 0 \<rparr>" _ _
                "StutterController_init\<lparr> m_funcHeld := True \<rparr>"
                "setCaptureStartMode StutterCaptureStart.QUANTIZED Stutter_init"] ob ms
    by (simp add: pos)
  have h: "StutterController_handleButtonPress q tk_init
        \<lparr> cmd_type = EFFECT_ENABLE, targetEffect = EffectID.STUTTER, param1 = 0, param2 = 0,
          cmd_value = 0 \<rparr>
        StutterController_init
        (stopPlayback (Stutter_setOnsetMode StutterOnset.QUANTIZED Stutter_init))
       = Some (True, StutterController_init\<lparr> m_stutterHeld_c := True \<rparr>,
               schedulePlaybackOnset 5512
                 (stopPlayback (Stutter_setOnsetMode StutterOnset.QUANTIZED Stutter_init)))"
    using T [of _ "\<lparr> cmd_type = EFFECT_ENABLE, targetEffect = EffectID.STUTTER, param1 = 0,
                    param2 = 0, cmd_value = 0 \<rparr>" _ _
                StutterController_init
                "stopPlayback (Stutter_setOnsetMode StutterOnset.QUANTIZED Stutter_init)"]
      ob mp nfh
    by (simp add: pos)
  define tk where "tk = tk_init\<lparr> s_samplePosition := 1024, s_samplesPerBeat := 512 \<rparr>"
  have k1: "24 \<le> s_samplesPerBeat tk" by (simp add: tk_def)
  have k2: "s_tickInBeat tk < 24" by (simp add: tk_def tk_init_def)
  have kd: "calculateQuantizedDuration tk (globalQuantization q) = 128"
    by (simp add: q_def tk_def calculateQuantizedDuration_def EffectQuantization_initialize_def
        getSamplesPerBeat_def)
  have k3: "(128 :: u32) = calculateQuantizedDuration tk (globalQuantization q)"
    using kd by simp
  have kob: "on_subdivision_boundary tk 128"
    by (simp add: on_subdivision_boundary_def getTickInBeat_def getSamplesPerBeat_def
        tk_def tk_init_def Let_def)
  have kla: "\<not> lookaheadOffset q < 128" by (simp add: la)
  have kpos: "getSamplePosition tk = 1024" by (simp add: getSamplePosition_def tk_def)
  have kc: "\<exists>ch'. ChokeController_handleButtonPress q tk
               \<lparr> cmd_type = EFFECT_ENABLE, targetEffect = EffectID.CHOKE, param1 = 0, param2 = 0,
                 cmd_value = 0 \<rparr>
               (Choke_setOnsetMode ChokeOnset.QUANTIZED Choke_init) = Some (True, ch')
            \<and> m_onsetAtSample_c ch' = 1024 \<and> \<not> m_isEnabled_c ch'"
    using samplesToNextSubdivision_no_tolerance [OF k1 k2 k3,
        of _ "\<lparr> cmd_type = EFFECT_ENABLE, targetEffect = EffectID.CHOKE, param1 = 0,
                    param2 = 0, cmd_value = 0 \<rparr>"
              "Choke_setOnsetMode ChokeOnset.QUANTIZED Choke_init"] kob mc
    by (simp add: la kpos)
  show ?thesis
    unfolding q_def [symmetric] tk_def [symmetric]
    using h1 h2 d s1 ob a b mc(1) c mf(1) f fh ms g nfh mp h k1 k2 kd kob kla kc
    by (intro conjI)
qed

section \<open>CHOKE quantized onset at sample 1000\<close>

lemma no_tick_gives_4512_list:
  "\<forall>n \<in> set [0..<24].
     samplesToNextSubdivision (tk_init\<lparr> s_samplePosition := 1000, s_tickInBeat := of_nat n \<rparr>) 5512
       \<noteq> Some 4512"
  by code_simp

lemma no_tick_gives_4512:
  assumes "tick < 24"
  shows "samplesToNextSubdivision (tk_init\<lparr> s_samplePosition := 1000, s_tickInBeat := tick \<rparr>) 5512
       \<noteq> Some 4512"
proof -
  have "unat tick < 24" using assms by (simp add: word_less_nat_alt)
  then have "unat tick \<in> set [0..<24]" by simp
  then have "samplesToNextSubdivision
      (tk_init\<lparr> s_samplePosition := 1000, s_tickInBeat := of_nat (unat tick) \<rparr>) 5512 \<noteq> Some 4512"
    using no_tick_gives_4512_list by blast
  then show ?thesis by simp
qed

lemma Choke_update_onset_fires:
  "m_isEnabled_c (fst (Choke_update fp cur bl br (Choke_scheduleOnset 5466 (Choke_setOnsetMode ChokeOnset.QUANTIZED Choke_init))))
     \<longleftrightarrow> cur \<le> 5466 \<and> 5466 < cur + 128"
  by (simp add: Choke_update_def Choke_scheduleOnset_def Choke_setOnsetMode_def Choke_init_def
      AUDIO_BLOCK_SAMPLES_def Let_def split: option.splits prod.splits)

text \<open>
  Claim C4, the figure 4512: at 22050 samples per beat the 1/16 subdivision is 5512 and a
  tick lasts 918 samples. Sample-in-beat 1000 lies in tick 1, where the tick-based
  \<open>samplesToNextSubdivision(5512)\<close> returns \<open>5512 - 918 = 4594\<close>; at tick 0 it returns 5512.
  Neither is the 4512 that a sample-modulo computation would give.
\<close>

theorem choke_quantized_onset_4512_refuted:
  "getSamplesPerBeat (tk_init\<lparr> s_samplePosition := 1000, s_tickInBeat := 1 \<rparr>) = 22050
   \<and> calculateQuantizedDuration (tk_init\<lparr> s_samplePosition := 1000, s_tickInBeat := 1 \<rparr>) QUANT_16 = 5512
   \<and> samplesToNextSubdivision (tk_init\<lparr> s_samplePosition := 1000, s_tickInBeat := 1 \<rparr>) 5512 = Some 4594
   \<and> samplesToNextSubdivision (tk_init\<lparr> s_samplePosition := 1000, s_tickInBeat := 0 \<rparr>) 5512 = Some 5512
   \<and> samplesToNextSubdivision (tk_init\<lparr> s_samplePosition := 1000, s_tickInBeat := 1 \<rparr>) 5512 \<noteq> Some 4512
   \<and> samplesToNextSubdivision (tk_init\<lparr> s_samplePosition := 1000, s_tickInBeat := 0 \<rparr>) 5512 \<noteq> Some 4512"
  by (simp add: samplesToNextSubdivision_def calculateQuantizedDuration_def tk_init_def
      getSamplesPerBeat_def getTickInBeat_def DEFAULT_SAMPLES_PER_BEAT_def SAMPLE_RATE_def
      DEFAULT_BPM_def MIDI_PPQN_def Let_def)

text \<open>
  Claim C4 with the tick-based figures: with \<open>samplesPerBeat = 22050\<close>, QUANT_16
  (subdivision 5512), lookahead 128 and a quantized-onset CHOKE press at
  \<open>samplePosition = 1000\<close> during tick 1, \<open>samplesToNextSubdivision(5512)\<close> returns 4594, the
  lookahead-adjusted wait is 4466, the scheduled onset sample is 5466, and \<open>update\<close>
  engages the choke exactly in the block \<open>[cur, cur + 128)\<close> that contains 5466. For no
  tick value does \<open>samplesToNextSubdivision(5512)\<close> return 4512.
\<close>

theorem choke_quantized_onset_scenario:
  "calculateQuantizedDuration (tk_init\<lparr> s_samplePosition := 1000, s_tickInBeat := 1 \<rparr>) QUANT_16 = 5512
   \<and> samplesToNextSubdivision (tk_init\<lparr> s_samplePosition := 1000, s_tickInBeat := 1 \<rparr>) 5512 = Some 4594
   \<and> ChokeController_handleButtonPress EffectQuantization_initialize
         (tk_init\<lparr> s_samplePosition := 1000, s_tickInBeat := 1 \<rparr>)
         \<lparr> cmd_type = EFFECT_ENABLE, targetEffect = EffectID.CHOKE, param1 = 0, param2 = 0, cmd_value = 0 \<rparr>
         (Choke_setOnsetMode ChokeOnset.QUANTIZED Choke_init)
       = Some (True, Choke_scheduleOnset (1000 + (4594 - 128))
                       (Choke_setOnsetMode ChokeOnset.QUANTIZED Choke_init))
   \<and> (1000 + (4594 - 128) :: u64) = 5466
   \<and> (m_isEnabled_c (fst (Choke_update fp cur bl br
           (Choke_scheduleOnset 5466 (Choke_setOnsetMode ChokeOnset.QUANTIZED Choke_init))))
        \<longleftrightarrow> cur \<le> 5466 \<and> 5466 < cur + 128)
   \<and> (\<forall>tick < 24.
         samplesToNextSubdivision (tk_init\<lparr> s_samplePosition := 1000, s_tickInBeat := tick \<rparr>) 5512
           \<noteq> Some 4512)"
proof -
  have a: "calculateQuantizedDuration (tk_init\<lparr> s_samplePosition := 1000, s_tickInBeat := 1 \<rparr>) QUANT_16 = 5512"
    by (simp add: calculateQuantizedDuration_def tk_init_def getSamplesPerBeat_def
        DEFAULT_SAMPLES_PER_BEAT_def SAMPLE_RATE_def DEFAULT_BPM_def)
  have b: "samplesToNextSubdivision (tk_init\<lparr> s_samplePosition := 1000, s_tickInBeat := 1 \<rparr>) 5512 = Some 4594"
    by (simp add: samplesToNextSubdivision_def tk_init_def getSamplesPerBeat_def getTickInBeat_def
        DEFAULT_SAMPLES_PER_BEAT_def SAMPLE_RATE_def DEFAULT_BPM_def MIDI_PPQN_def Let_def)
  have c: "ChokeController_handleButtonPress EffectQuantization_initialize
         (tk_init\<lparr> s_samplePosition := 1000, s_tickInBeat := 1 \<rparr>)
         \<lparr> cmd_type = EFFECT_ENABLE, targetEffect = EffectID.CHOKE, param1 = 0, param2 = 0, cmd_value = 0 \<rparr>
         (Choke_setOnsetMode ChokeOnset.QUANTIZED Choke_init)
       = Some (True, Choke_scheduleOnset (1000 + (4594 - 128))
                       (Choke_setOnsetMode ChokeOnset.QUANTIZED Choke_init))"
    by (simp add: ChokeController_handleButtonPress_def samplesToNextQuantizedBoundary_def
        samplesToNextSubdivision_def calculateQuantizedDuration_def getSamplesPerBeat_def
        getTickInBeat_def DEFAULT_SAMPLES_PER_BEAT_def SAMPLE_RATE_def DEFAULT_BPM_def
        MIDI_PPQN_def EffectQuantization_initialize_def Choke_getOnsetMode_def
        Choke_getLengthMode_def Choke_setOnsetMode_def Choke_init_def getSamplePosition_def
        tk_init_def Let_def)
  show ?thesis
    using a b c Choke_update_onset_fires no_tick_gives_4512 by simp
qed

theorem choke_quantized_onset_scenario_witness:
  "(0 :: u32) < 24
   \<and> samplesToNextSubdivision (tk_init\<lparr> s_samplePosition := 1000, s_tickInBeat := 0 \<rparr>) 5512
       \<noteq> Some 4512
   \<and> m_isEnabled_c (fst (Choke_update
           \<lparr> gainIncrement = (\<lambda>t c. 0), applyGainRamp = (\<lambda>g d i. (g, d)) \<rparr> 5376 None None
           (Choke_scheduleOnset 5466 (Choke_setOnsetMode ChokeOnset.QUANTIZED Choke_init))))"
proof -
  have "samplesToNextSubdivision (tk_init\<lparr> s_samplePosition := 1000, s_tickInBeat := 0 \<rparr>) 5512
       \<noteq> Some 4512"
    using choke_quantized_onset_scenario by simp
  moreover have "m_isEnabled_c (fst (Choke_update
           \<lparr> gainIncrement = (\<lambda>t c. 0), applyGainRamp = (\<lambda>g d i. (g, d)) \<rparr> 5376 None None
           (Choke_scheduleOnset 5466 (Choke_setOnsetMode ChokeOnset.QUANTIZED Choke_init))))"
    using choke_quantized_onset_scenario
      [of "\<lparr> gainIncrement = (\<lambda>t c. 0), applyGainRamp = (\<lambda>g d i. (g, d)) \<rparr>" 5376 None None]
    by simp
  ultimately show ?thesis by simp
qed


section \<open>STUTTER engine: loops, invariants and capture termination\<close>

subsection \<open>What the two loops of update change\<close>

text \<open>
  The capture loop touches only the buffers and the write position, which it advances
  by the block size or up to the end of the buffer. The playback loop touches only the
  read position and leaves it at 0 or inside the loop.
\<close>

lemma Stutter_capture_loop_effect:
  "\<exists>fL fR. Stutter_capture_loop i blockL blockR s =
      s\<lparr> m_stutterBufferL := fL, m_stutterBufferR := fR,
         m_writePos := (if m_writePos s \<ge> STUTTER_BUFFER_SAMPLES then m_writePos s
                        else min (m_writePos s + (AUDIO_BLOCK_SAMPLES - i)) STUTTER_BUFFER_SAMPLES) \<rparr>"
proof (induction i blockL blockR s rule: Stutter_capture_loop.induct)
  case (1 i blockL blockR s)
  show ?case
  proof (cases "i < AUDIO_BLOCK_SAMPLES \<and> m_writePos s < STUTTER_BUFFER_SAMPLES")
    case True
    define s' where "s' = s\<lparr> m_stutterBufferL := (m_stutterBufferL s)(m_writePos s := blockL ! i),
                 m_stutterBufferR := (m_stutterBufferR s)(m_writePos s := blockR ! i),
                 m_writePos := m_writePos s + 1 \<rparr>"
    obtain fL fR where ih: "Stutter_capture_loop (i + 1) blockL blockR s' =
      s'\<lparr> m_stutterBufferL := fL, m_stutterBufferR := fR,
         m_writePos := (if m_writePos s' \<ge> STUTTER_BUFFER_SAMPLES then m_writePos s'
                        else min (m_writePos s' + (AUDIO_BLOCK_SAMPLES - (i + 1))) STUTTER_BUFFER_SAMPLES) \<rparr>"
      using "1.IH" [OF True] unfolding s'_def by blast
    have step: "Stutter_capture_loop i blockL blockR s = Stutter_capture_loop (i + 1) blockL blockR s'"
      using True by (subst Stutter_capture_loop.simps) (simp add: s'_def)
    have w: "(if m_writePos s' \<ge> STUTTER_BUFFER_SAMPLES then m_writePos s'
              else min (m_writePos s' + (AUDIO_BLOCK_SAMPLES - (i + 1))) STUTTER_BUFFER_SAMPLES)
           = min (m_writePos s + (AUDIO_BLOCK_SAMPLES - i)) STUTTER_BUFFER_SAMPLES"
      using True by (auto simp: s'_def min_def)
    show ?thesis
      unfolding step ih w using True
      by (rule_tac x = fL in exI, rule_tac x = fR in exI) (simp add: s'_def)
  next
    case False
    then have eq: "Stutter_capture_loop i blockL blockR s = s"
      by (subst Stutter_capture_loop.simps) auto
    have w: "(if m_writePos s \<ge> STUTTER_BUFFER_SAMPLES then m_writePos s
              else min (m_writePos s + (AUDIO_BLOCK_SAMPLES - i)) STUTTER_BUFFER_SAMPLES) = m_writePos s"
      using False by (auto simp: min_def)
    show ?thesis
      unfolding eq w
      by (rule_tac x = "m_stutterBufferL s" in exI, rule_tac x = "m_stutterBufferR s" in exI) simp
  qed
qed

lemma Stutter_play_loop_effect:
  "\<exists>r outL' outR'. Stutter_play_loop i outL outR s = (s\<lparr> m_readPos := r \<rparr>, outL', outR')
      \<and> (if i < AUDIO_BLOCK_SAMPLES then r = 0 \<or> r < m_captureLength s else r = m_readPos s)"
proof (induction i outL outR s rule: Stutter_play_loop.induct)
  case (1 i outL outR s)
  show ?case
  proof (cases "i < AUDIO_BLOCK_SAMPLES")
    case True
    define s2 where "s2 = s\<lparr> m_readPos := (if m_readPos s + 1 \<ge> m_captureLength s then 0 else m_readPos s + 1) \<rparr>"
    define oL where "oL = outL @ [m_stutterBufferL s (m_readPos s)]"
    define oR where "oR = outR @ [m_stutterBufferR s (m_readPos s)]"
    have step: "Stutter_play_loop i outL outR s = Stutter_play_loop (i + 1) oL oR s2"
      using True by (subst Stutter_play_loop.simps) (simp add: s2_def oL_def oR_def Let_def)
    have "\<exists>r outL' outR'. Stutter_play_loop (i + 1) oL oR s2 = (s2\<lparr> m_readPos := r \<rparr>, outL', outR')
      \<and> (if i + 1 < AUDIO_BLOCK_SAMPLES then r = 0 \<or> r < m_captureLength s2 else r = m_readPos s2)"
      using "1.IH" [OF True, of oL oR _ s2] by (simp add: s2_def oL_def oR_def Let_def)
    then obtain r outL' outR' where
      ih: "Stutter_play_loop (i + 1) oL oR s2 = (s2\<lparr> m_readPos := r \<rparr>, outL', outR')"
      and r: "if i + 1 < AUDIO_BLOCK_SAMPLES then r = 0 \<or> r < m_captureLength s2 else r = m_readPos s2"
      by blast
    have "r = 0 \<or> r < m_captureLength s"
      using r by (auto simp: s2_def split: if_splits)
    moreover have "s2\<lparr> m_readPos := r \<rparr> = s\<lparr> m_readPos := r \<rparr>" by (simp add: s2_def)
    ultimately show ?thesis unfolding step ih using True by auto
  next
    case False
    then have "Stutter_play_loop i outL outR s = (s, outL, outR)"
      by (subst Stutter_play_loop.simps) simp
    then show ?thesis using False
      by (rule_tac x = "m_readPos s" in exI) simp
  qed
qed


subsection \<open>The position invariant holds in every reachable state\<close>

lemma stutter_inv_init: "stutter_inv Stutter_init"
  by (simp add: stutter_inv_def Stutter_init_def)

lemma stutter_inv_check_capture_start:
  "stutter_inv s \<Longrightarrow> stutter_inv (check_capture_start cur s)"
  by (simp add: stutter_inv_def check_capture_start_def)

lemma stutter_inv_check_capture_end:
  "stutter_inv s \<Longrightarrow> stutter_inv (check_capture_end cur s)"
  by (simp add: stutter_inv_def check_capture_end_def Let_def)

lemma stutter_inv_check_playback_onset:
  "stutter_inv s \<Longrightarrow> stutter_inv (check_playback_onset cur s)"
  by (simp add: stutter_inv_def check_playback_onset_def)

lemma stutter_inv_check_playback_length:
  "stutter_inv s \<Longrightarrow> stutter_inv (check_playback_length cur s)"
  by (simp add: stutter_inv_def check_playback_length_def)

lemma stutter_inv_process_audio:
  assumes "stutter_inv s"
  shows "stutter_inv (fst (process_audio blockL blockR allocL allocR s))"
proof -
  consider (pass) "m_state s = IDLE_NO_LOOP \<or> m_state s = IDLE_WITH_LOOP
         \<or> m_state s = WAIT_CAPTURE_START \<or> m_state s = WAIT_PLAYBACK_ONSET"
    | (cap) "m_state s = CAPTURING \<or> m_state s = WAIT_CAPTURE_END"
    | (play) "m_state s = StutterState.PLAYING \<or> m_state s = WAIT_PLAYBACK_LENGTH"
    by (cases "m_state s") auto
  then show ?thesis
  proof cases
    case pass
    then show ?thesis using assms
      by (auto simp: process_audio_def split: option.splits)
  next
    case cap
    show ?thesis
    proof (cases "\<exists>dataL dataR. blockL = Some dataL \<and> blockR = Some dataR")
      case True
      then obtain dataL dataR where b: "blockL = Some dataL" "blockR = Some dataR" by blast
      obtain fL fR where l: "Stutter_capture_loop 0 dataL dataR s =
          s\<lparr> m_stutterBufferL := fL, m_stutterBufferR := fR,
             m_writePos := (if m_writePos s \<ge> STUTTER_BUFFER_SAMPLES then m_writePos s
                            else min (m_writePos s + (AUDIO_BLOCK_SAMPLES - 0)) STUTTER_BUFFER_SAMPLES) \<rparr>"
        using Stutter_capture_loop_effect [of 0 dataL dataR s] by blast
      show ?thesis
        using cap assms
        by (auto simp: process_audio_def b l stutter_inv_def Let_def min_def)
    next
      case False
      then show ?thesis using cap assms
        by (auto simp: process_audio_def split: option.splits)
    qed
  next
    case play
    obtain r outL' outR' where l: "Stutter_play_loop 0 [] [] s = (s\<lparr> m_readPos := r \<rparr>, outL', outR')"
      and r: "r = 0 \<or> r < m_captureLength s"
      using Stutter_play_loop_effect [of 0 "[]" "[]" s] by (auto simp: AUDIO_BLOCK_SAMPLES_def)
    show ?thesis
      using play assms r
      by (auto simp: process_audio_def l stutter_inv_def)
  qed
qed

lemma stutter_inv_update:
  "stutter_inv s \<Longrightarrow> stutter_inv (fst (Stutter_update cur blockL blockR allocL allocR s))"
  unfolding Stutter_update_def
  by (intro stutter_inv_process_audio stutter_inv_check_playback_length
      stutter_inv_check_playback_onset stutter_inv_check_capture_end
      stutter_inv_check_capture_start)

lemma stutter_inv_apply:
  "stutter_inv s \<Longrightarrow> stutter_inv (Stutter_apply op s)"
proof (cases op)
  case (Update cur blockL blockR allocL allocR)
  assume "stutter_inv s"
  then show ?thesis using Update by (simp add: stutter_inv_update)
qed (auto simp: stutter_inv_def Stutter_enable_def Stutter_disable_def Stutter_toggle_def
      startCapture_def scheduleCaptureStart_def cancelCaptureStart_def endCapture_def
      scheduleCaptureEnd_def startPlayback_def schedulePlaybackOnset_def stopPlayback_def
      schedulePlaybackLength_def Stutter_setLengthMode_def Stutter_setOnsetMode_def
      setCaptureStartMode_def setCaptureEndMode_def Let_def)

lemma stutter_inv_run:
  "stutter_inv s \<Longrightarrow> stutter_inv (Stutter_run ops s)"
  by (induction ops arbitrary: s) (simp_all add: stutter_inv_apply)

lemma Stutter_positions_bounded:
  "stutter_inv (Stutter_run ops Stutter_init)"
  by (rule stutter_inv_run [OF stutter_inv_init])

subsection \<open>A block captured with room left in the buffer\<close>

text \<open>
  An \<open>update\<close> in which no schedule fires is the switch alone. In CAPTURING or
  WAIT_CAPTURE_END, with both input blocks present and more than a block of room left, it
  copies the block behind the write position and changes nothing else.
\<close>

lemma Stutter_update_no_schedule:
  assumes "\<not> schedule_fires (m_captureStartAtSample s) cur"
    and "\<not> schedule_fires (m_captureEndAtSample s) cur"
    and "\<not> schedule_fires (m_playbackOnsetAtSample s) cur"
    and "\<not> schedule_fires (m_playbackLengthAtSample s) cur"
  shows "Stutter_update cur blockL blockR allocL allocR s = process_audio blockL blockR allocL allocR s"
  using assms
  by (simp add: Stutter_update_def check_capture_start_def check_capture_end_def
      check_playback_onset_def check_playback_length_def)

lemma process_audio_capture_goes_on:
  assumes st: "m_state s = CAPTURING \<or> m_state s = WAIT_CAPTURE_END"
    and room: "m_writePos s + AUDIO_BLOCK_SAMPLES < STUTTER_BUFFER_SAMPLES"
  shows "\<exists>fL fR. fst (process_audio (Some dataL) (Some dataR) allocL allocR s)
           = s\<lparr> m_stutterBufferL := fL, m_stutterBufferR := fR,
                m_writePos := m_writePos s + AUDIO_BLOCK_SAMPLES \<rparr>"
proof -
  obtain fL fR where l: "Stutter_capture_loop 0 dataL dataR s =
      s\<lparr> m_stutterBufferL := fL, m_stutterBufferR := fR,
         m_writePos := (if m_writePos s \<ge> STUTTER_BUFFER_SAMPLES then m_writePos s
                        else min (m_writePos s + (AUDIO_BLOCK_SAMPLES - 0)) STUTTER_BUFFER_SAMPLES) \<rparr>"
    using Stutter_capture_loop_effect [of 0 dataL dataR s] by blast
  have w: "(if m_writePos s \<ge> STUTTER_BUFFER_SAMPLES then m_writePos s
            else min (m_writePos s + (AUDIO_BLOCK_SAMPLES - 0)) STUTTER_BUFFER_SAMPLES)
          = m_writePos s + AUDIO_BLOCK_SAMPLES"
    using room by (auto simp: min_def)
  have "fst (process_audio (Some dataL) (Some dataR) allocL allocR s)
           = s\<lparr> m_stutterBufferL := fL, m_stutterBufferR := fR,
                m_writePos := m_writePos s + AUDIO_BLOCK_SAMPLES \<rparr>"
    using st room by (auto simp: process_audio_def l w Let_def)
  then show ?thesis by blast
qed

lemma update_capture_goes_on:
  assumes st: "m_state s = CAPTURING \<or> m_state s = WAIT_CAPTURE_END"
    and n: "\<not> schedule_fires (m_captureStartAtSample s) cur"
      "\<not> schedule_fires (m_captureEndAtSample s) cur"
      "\<not> schedule_fires (m_playbackOnsetAtSample s) cur"
      "\<not> schedule_fires (m_playbackLengthAtSample s) cur"
    and room: "m_writePos s + AUDIO_BLOCK_SAMPLES < STUTTER_BUFFER_SAMPLES"
  shows "\<exists>fL fR. fst (Stutter_update cur (Some dataL) (Some dataR) allocL allocR s)
           = s\<lparr> m_stutterBufferL := fL, m_stutterBufferR := fR,
                m_writePos := m_writePos s + AUDIO_BLOCK_SAMPLES \<rparr>"
  unfolding Stutter_update_no_schedule [OF n]
  using st room by (rule process_audio_capture_goes_on)

lemma schedule_fires_simps:
  "\<not> schedule_fires 0 cur" "\<not> schedule_fires 200 0" "\<not> schedule_fires 200 128"
  "schedule_fires 200 256"
  by (simp_all add: schedule_fires_def AUDIO_BLOCK_SAMPLES_def)

lemma capture_one_block:
  "m_captureLength (endCapture False
      (fst (Stutter_update 0 (Some (replicate 128 1)) (Some (replicate 128 1)) True True
             (startCapture Stutter_init)))) = 128"
proof -
  define S1 where "S1 = startCapture Stutter_init"
  have f1: "m_state S1 = CAPTURING" "m_writePos S1 = 0"
    "m_captureStartAtSample S1 = 0" "m_captureEndAtSample S1 = 0"
    "m_playbackOnsetAtSample S1 = 0" "m_playbackLengthAtSample S1 = 0"
    by (simp_all add: S1_def startCapture_def Stutter_init_def)
  have room1: "m_writePos S1 + AUDIO_BLOCK_SAMPLES < STUTTER_BUFFER_SAMPLES"
    by (simp add: f1 AUDIO_BLOCK_SAMPLES_def STUTTER_BUFFER_SAMPLES_def)
  obtain fL fR where u1: "fst (Stutter_update 0 (Some (replicate 128 1)) (Some (replicate 128 1)) True True S1)
      = S1\<lparr> m_stutterBufferL := fL, m_stutterBufferR := fR,
            m_writePos := m_writePos S1 + AUDIO_BLOCK_SAMPLES \<rparr>"
    using update_capture_goes_on [of S1 0 "replicate 128 1" "replicate 128 1" True True]
      f1 room1 schedule_fires_simps(1)
    by auto
  show ?thesis
    unfolding S1_def [symmetric] u1
    by (simp add: endCapture_def f1 AUDIO_BLOCK_SAMPLES_def Let_def)
qed

subsection \<open>IDLE_NO_LOOP and the capture length\<close>

text \<open>
  Every operation keeps "IDLE_NO_LOOP implies capture length 0", except
  \<open>cancelCaptureStart\<close> applied to an engine whose capture length is not 0: \<open>disable\<close>
  zeroes the length, \<open>endCapture\<close> and the scheduled capture end enter IDLE_NO_LOOP only
  with write position 0, which bounds the length, and \<open>cancelCaptureStart\<close> enters
  IDLE_NO_LOOP leaving the length as it was.
\<close>

lemma no_loop_process_audio:
  assumes "m_state s = IDLE_NO_LOOP \<longrightarrow> m_captureLength s = 0"
  shows "m_state (fst (process_audio blockL blockR allocL allocR s)) = IDLE_NO_LOOP
         \<longrightarrow> m_captureLength (fst (process_audio blockL blockR allocL allocR s)) = 0"
proof -
  consider (pass) "m_state s = IDLE_NO_LOOP \<or> m_state s = IDLE_WITH_LOOP
         \<or> m_state s = WAIT_CAPTURE_START \<or> m_state s = WAIT_PLAYBACK_ONSET"
    | (cap) "m_state s = CAPTURING \<or> m_state s = WAIT_CAPTURE_END"
    | (play) "m_state s = StutterState.PLAYING \<or> m_state s = WAIT_PLAYBACK_LENGTH"
    by (cases "m_state s") auto
  then show ?thesis
  proof cases
    case pass
    then show ?thesis using assms
      by (auto simp: process_audio_def split: option.splits)
  next
    case cap
    show ?thesis
    proof (cases "\<exists>dataL dataR. blockL = Some dataL \<and> blockR = Some dataR")
      case True
      then obtain dataL dataR where b: "blockL = Some dataL" "blockR = Some dataR" by blast
      obtain fL fR where l: "Stutter_capture_loop 0 dataL dataR s =
          s\<lparr> m_stutterBufferL := fL, m_stutterBufferR := fR,
             m_writePos := (if m_writePos s \<ge> STUTTER_BUFFER_SAMPLES then m_writePos s
                            else min (m_writePos s + (AUDIO_BLOCK_SAMPLES - 0)) STUTTER_BUFFER_SAMPLES) \<rparr>"
        using Stutter_capture_loop_effect [of 0 dataL dataR s] by blast
      show ?thesis
        using cap by (auto simp: process_audio_def b l Let_def)
    next
      case False
      then show ?thesis using cap
        by (auto simp: process_audio_def split: option.splits)
    qed
  next
    case play
    obtain r outL' outR' where l: "Stutter_play_loop 0 [] [] s = (s\<lparr> m_readPos := r \<rparr>, outL', outR')"
      using Stutter_play_loop_effect [of 0 "[]" "[]" s] by blast
    show ?thesis
      using play by (auto simp: process_audio_def l)
  qed
qed

lemma no_loop_update:
  assumes inv: "stutter_inv s" and nl: "m_state s = IDLE_NO_LOOP \<longrightarrow> m_captureLength s = 0"
  shows "m_state (fst (Stutter_update cur blockL blockR allocL allocR s)) = IDLE_NO_LOOP
         \<longrightarrow> m_captureLength (fst (Stutter_update cur blockL blockR allocL allocR s)) = 0"
proof -
  define s1 where "s1 = check_capture_start cur s"
  define s2 where "s2 = check_capture_end cur s1"
  define s3 where "s3 = check_playback_onset cur s2"
  define s4 where "s4 = check_playback_length cur s3"
  have i1: "stutter_inv s1" unfolding s1_def using inv by (rule stutter_inv_check_capture_start)
  have n1: "m_state s1 = IDLE_NO_LOOP \<longrightarrow> m_captureLength s1 = 0"
    using nl by (simp add: s1_def check_capture_start_def)
  have n2: "m_state s2 = IDLE_NO_LOOP \<longrightarrow> m_captureLength s2 = 0"
    using n1 i1 by (auto simp: s2_def check_capture_end_def stutter_inv_def Let_def)
  have n3: "m_state s3 = IDLE_NO_LOOP \<longrightarrow> m_captureLength s3 = 0"
    using n2 by (simp add: s3_def check_playback_onset_def)
  have n4: "m_state s4 = IDLE_NO_LOOP \<longrightarrow> m_captureLength s4 = 0"
    using n3 by (simp add: s4_def check_playback_length_def)
  show ?thesis
    unfolding Stutter_update_def s1_def [symmetric] s2_def [symmetric] s3_def [symmetric]
      s4_def [symmetric]
    using n4 by (rule no_loop_process_audio)
qed

lemma no_loop_apply:
  assumes inv: "stutter_inv s" and nl: "m_state s = IDLE_NO_LOOP \<longrightarrow> m_captureLength s = 0"
    and nc: "op \<noteq> CancelCaptureStart"
  shows "m_state (Stutter_apply op s) = IDLE_NO_LOOP \<longrightarrow> m_captureLength (Stutter_apply op s) = 0"
proof (cases op)
  case (Update cur blockL blockR allocL allocR)
  then show ?thesis using no_loop_update [OF inv nl] by simp
next
  case CancelCaptureStart
  then show ?thesis using nc by simp
next
  case (EndCapture held)
  then show ?thesis using inv nl by (auto simp: endCapture_def stutter_inv_def Let_def)
qed (use nl in \<open>auto simp: Stutter_enable_def Stutter_disable_def Stutter_toggle_def
      startCapture_def scheduleCaptureStart_def
      scheduleCaptureEnd_def startPlayback_def schedulePlaybackOnset_def stopPlayback_def
      schedulePlaybackLength_def Stutter_setLengthMode_def Stutter_setOnsetMode_def
      setCaptureStartMode_def setCaptureEndMode_def\<close>)

lemma no_loop_apply_guarded:
  assumes inv: "stutter_inv s" and nl: "m_state s = IDLE_NO_LOOP \<longrightarrow> m_captureLength s = 0"
    and nc: "op = CancelCaptureStart \<longrightarrow> m_captureLength s = 0"
  shows "m_state (Stutter_apply op s) = IDLE_NO_LOOP \<longrightarrow> m_captureLength (Stutter_apply op s) = 0"
proof (cases "op = CancelCaptureStart")
  case True
  then show ?thesis using nc by (simp add: cancelCaptureStart_def)
next
  case False
  then show ?thesis using inv nl by (rule no_loop_apply [rotated 2])
qed

lemma no_loop_run_guarded:
  assumes "stutter_inv s" and "m_state s = IDLE_NO_LOOP \<longrightarrow> m_captureLength s = 0"
    and "cancel_only_without_loop ops s"
  shows "m_state (Stutter_run ops s) = IDLE_NO_LOOP \<longrightarrow> m_captureLength (Stutter_run ops s) = 0"
  using assms
proof (induction ops arbitrary: s)
  case Nil
  then show ?case by simp
next
  case (Cons op ops)
  have a: "stutter_inv (Stutter_apply op s)" using Cons.prems(1) by (rule stutter_inv_apply)
  have nc: "op = CancelCaptureStart \<longrightarrow> m_captureLength s = 0" using Cons.prems(3) by simp
  have b: "m_state (Stutter_apply op s) = IDLE_NO_LOOP \<longrightarrow> m_captureLength (Stutter_apply op s) = 0"
    using Cons.prems(1) Cons.prems(2) nc by (rule no_loop_apply_guarded)
  have c: "cancel_only_without_loop ops (Stutter_apply op s)" using Cons.prems(3) by simp
  show ?case using Cons.IH [OF a b c] by simp
qed

text \<open>
  Conversely, a history that is not of this kind contains a \<open>cancelCaptureStart\<close> that
  leaves the engine in IDLE_NO_LOOP with a capture length above 0.
\<close>

lemma cancel_with_loop_breaks:
  assumes "\<not> cancel_only_without_loop ops s"
  shows "\<exists>n<length ops. ops ! n = CancelCaptureStart
           \<and> 0 < m_captureLength (Stutter_run (take n ops) s)
           \<and> m_state (Stutter_run (take (Suc n) ops) s) = IDLE_NO_LOOP
           \<and> m_captureLength (Stutter_run (take (Suc n) ops) s)
               = m_captureLength (Stutter_run (take n ops) s)"
  using assms
proof (induction ops arbitrary: s)
  case Nil
  then show ?case by simp
next
  case (Cons op ops)
  show ?case
  proof (cases "op = CancelCaptureStart \<and> m_captureLength s \<noteq> 0")
    case True
    then have "(op # ops) ! 0 = CancelCaptureStart
           \<and> 0 < m_captureLength (Stutter_run (take 0 (op # ops)) s)
           \<and> m_state (Stutter_run (take (Suc 0) (op # ops)) s) = IDLE_NO_LOOP
           \<and> m_captureLength (Stutter_run (take (Suc 0) (op # ops)) s)
               = m_captureLength (Stutter_run (take 0 (op # ops)) s)"
      by (simp add: cancelCaptureStart_def)
    then show ?thesis by (intro exI [of _ 0]) (simp add: cancelCaptureStart_def)
  next
    case False
    then have "\<not> cancel_only_without_loop ops (Stutter_apply op s)"
      using Cons.prems by auto
    from Cons.IH [OF this] obtain n where n: "n < length ops" "ops ! n = CancelCaptureStart"
      "0 < m_captureLength (Stutter_run (take n ops) (Stutter_apply op s))"
      "m_state (Stutter_run (take (Suc n) ops) (Stutter_apply op s)) = IDLE_NO_LOOP"
      "m_captureLength (Stutter_run (take (Suc n) ops) (Stutter_apply op s))
               = m_captureLength (Stutter_run (take n ops) (Stutter_apply op s))"
      by blast
    have "Suc n < length (op # ops) \<and> (op # ops) ! Suc n = CancelCaptureStart
           \<and> 0 < m_captureLength (Stutter_run (take (Suc n) (op # ops)) s)
           \<and> m_state (Stutter_run (take (Suc (Suc n)) (op # ops)) s) = IDLE_NO_LOOP
           \<and> m_captureLength (Stutter_run (take (Suc (Suc n)) (op # ops)) s)
               = m_captureLength (Stutter_run (take (Suc n) (op # ops)) s)"
      using n by simp
    then show ?thesis by blast
  qed
qed

text \<open>
  Claim C7 as stated fails in two ways. \<open>enable()\<close> on the freshly constructed engine
  enters PLAYING with read position 0 and capture length 0, so the read position is not
  below the capture length. And \<open>cancelCaptureStart\<close> after a 128-sample capture
  enters IDLE_NO_LOOP while the capture length is still 128.
\<close>

theorem Stutter_invariants_refuted:
  "m_state (Stutter_run [Enable] Stutter_init) = StutterState.PLAYING
   \<and> m_readPos (Stutter_run [Enable] Stutter_init) = 0
   \<and> m_captureLength (Stutter_run [Enable] Stutter_init) = 0
   \<and> \<not> m_readPos (Stutter_run [Enable] Stutter_init)
         < m_captureLength (Stutter_run [Enable] Stutter_init)
   \<and> m_state (Stutter_run
         [StartCapture, Update 0 (Some (replicate 128 1)) (Some (replicate 128 1)) True True,
          EndCapture False, ScheduleCaptureStart 1000, CancelCaptureStart] Stutter_init)
       = IDLE_NO_LOOP
   \<and> m_captureLength (Stutter_run
         [StartCapture, Update 0 (Some (replicate 128 1)) (Some (replicate 128 1)) True True,
          EndCapture False, ScheduleCaptureStart 1000, CancelCaptureStart] Stutter_init)
       = 128"
proof -
  have a: "Stutter_run [Enable] Stutter_init
      = Stutter_init\<lparr> m_readPos := 0, m_state := StutterState.PLAYING \<rparr>"
    by (simp add: Stutter_enable_def)
  define S1 where "S1 = startCapture Stutter_init"
  have f: "m_state S1 = CAPTURING" "m_writePos S1 = 0" "m_captureLength S1 = 0"
    "m_captureStartAtSample S1 = 0" "m_captureEndAtSample S1 = 0"
    "m_playbackOnsetAtSample S1 = 0" "m_playbackLengthAtSample S1 = 0"
    by (simp_all add: S1_def startCapture_def Stutter_init_def)
  obtain fL fR where l: "Stutter_capture_loop 0 (replicate 128 1) (replicate 128 1) S1 =
      S1\<lparr> m_stutterBufferL := fL, m_stutterBufferR := fR, m_writePos := 128 \<rparr>"
    using Stutter_capture_loop_effect [of 0 "replicate 128 1" "replicate 128 1" S1]
    by (auto simp: f AUDIO_BLOCK_SAMPLES_def STUTTER_BUFFER_SAMPLES_def)
  have u: "fst (Stutter_update 0 (Some (replicate 128 1)) (Some (replicate 128 1)) True True S1)
      = S1\<lparr> m_stutterBufferL := fL, m_stutterBufferR := fR, m_writePos := 128 \<rparr>"
    unfolding Stutter_update_def
    by (simp add: check_capture_start_def check_capture_end_def check_playback_onset_def
        check_playback_length_def schedule_fires_def process_audio_def l f Let_def
        STUTTER_BUFFER_SAMPLES_def)
  have r: "Stutter_run
         [StartCapture, Update 0 (Some (replicate 128 1)) (Some (replicate 128 1)) True True,
          EndCapture False, ScheduleCaptureStart 1000, CancelCaptureStart] Stutter_init
      = cancelCaptureStart (scheduleCaptureStart 1000 (endCapture False
          (S1\<lparr> m_stutterBufferL := fL, m_stutterBufferR := fR, m_writePos := 128 \<rparr>)))"
    using u by (simp add: S1_def)
  show ?thesis
    unfolding a r
    by (simp add: endCapture_def scheduleCaptureStart_def cancelCaptureStart_def
        Stutter_init_def Let_def)
qed

text \<open>
  Claim C7, as the engine keeps it. In every state reachable by any sequence of the
  public operations: the capture length is at most the write position, which is at most
  the buffer size; in PLAYING the read position is below the capture length whenever
  that length is positive, and is 0 when the loop is empty. IDLE_NO_LOOP implies capture
  length 0 in every state reached by a history in which \<open>cancelCaptureStart\<close> is never
  applied while the capture length is above 0; more generally, once the implication holds
  it is kept by every continuation of that kind. The restriction is the least possible:
  a history outside it contains a \<open>cancelCaptureStart\<close> right after which the engine is
  in IDLE_NO_LOOP with a capture length above 0.
\<close>

theorem Stutter_reachable_invariants:
  "m_captureLength (Stutter_run ops Stutter_init) \<le> m_writePos (Stutter_run ops Stutter_init)
   \<and> m_writePos (Stutter_run ops Stutter_init) \<le> STUTTER_BUFFER_SAMPLES
   \<and> m_captureLength (Stutter_run ops Stutter_init) \<le> STUTTER_BUFFER_SAMPLES
   \<and> (m_state (Stutter_run ops Stutter_init) = StutterState.PLAYING
        \<longrightarrow> (if 0 < m_captureLength (Stutter_run ops Stutter_init)
             then m_readPos (Stutter_run ops Stutter_init) < m_captureLength (Stutter_run ops Stutter_init)
             else m_readPos (Stutter_run ops Stutter_init) = 0))
   \<and> (cancel_only_without_loop ops Stutter_init
        \<longrightarrow> m_state (Stutter_run ops Stutter_init) = IDLE_NO_LOOP
        \<longrightarrow> m_captureLength (Stutter_run ops Stutter_init) = 0)
   \<and> ((m_state (Stutter_run ops Stutter_init) = IDLE_NO_LOOP
          \<longrightarrow> m_captureLength (Stutter_run ops Stutter_init) = 0)
        \<and> cancel_only_without_loop later (Stutter_run ops Stutter_init)
        \<longrightarrow> m_state (Stutter_run later (Stutter_run ops Stutter_init)) = IDLE_NO_LOOP
        \<longrightarrow> m_captureLength (Stutter_run later (Stutter_run ops Stutter_init)) = 0)
   \<and> (\<not> cancel_only_without_loop ops Stutter_init
        \<longrightarrow> (\<exists>n<length ops. ops ! n = CancelCaptureStart
               \<and> m_state (Stutter_run (take (Suc n) ops) Stutter_init) = IDLE_NO_LOOP
               \<and> 0 < m_captureLength (Stutter_run (take (Suc n) ops) Stutter_init)))"
proof -
  have inv: "stutter_inv (Stutter_run ops Stutter_init)" by (rule Stutter_positions_bounded)
  have nl: "cancel_only_without_loop ops Stutter_init
        \<longrightarrow> m_state (Stutter_run ops Stutter_init) = IDLE_NO_LOOP
        \<longrightarrow> m_captureLength (Stutter_run ops Stutter_init) = 0"
    using no_loop_run_guarded [OF stutter_inv_init, of ops] by (simp add: Stutter_init_def)
  have sf: "(m_state (Stutter_run ops Stutter_init) = IDLE_NO_LOOP
          \<longrightarrow> m_captureLength (Stutter_run ops Stutter_init) = 0)
        \<and> cancel_only_without_loop later (Stutter_run ops Stutter_init)
        \<longrightarrow> m_state (Stutter_run later (Stutter_run ops Stutter_init)) = IDLE_NO_LOOP
        \<longrightarrow> m_captureLength (Stutter_run later (Stutter_run ops Stutter_init)) = 0"
    using no_loop_run_guarded [OF inv, of later] by blast
  have br: "\<not> cancel_only_without_loop ops Stutter_init
        \<longrightarrow> (\<exists>n<length ops. ops ! n = CancelCaptureStart
               \<and> m_state (Stutter_run (take (Suc n) ops) Stutter_init) = IDLE_NO_LOOP
               \<and> 0 < m_captureLength (Stutter_run (take (Suc n) ops) Stutter_init))"
  proof
    assume "\<not> cancel_only_without_loop ops Stutter_init"
    from cancel_with_loop_breaks [OF this] obtain n where "n < length ops"
      "ops ! n = CancelCaptureStart"
      "0 < m_captureLength (Stutter_run (take n ops) Stutter_init)"
      "m_state (Stutter_run (take (Suc n) ops) Stutter_init) = IDLE_NO_LOOP"
      "m_captureLength (Stutter_run (take (Suc n) ops) Stutter_init)
               = m_captureLength (Stutter_run (take n ops) Stutter_init)"
      by blast
    then show "\<exists>n<length ops. ops ! n = CancelCaptureStart
               \<and> m_state (Stutter_run (take (Suc n) ops) Stutter_init) = IDLE_NO_LOOP
               \<and> 0 < m_captureLength (Stutter_run (take (Suc n) ops) Stutter_init)"
      by auto
  qed
  have p: "m_captureLength (Stutter_run ops Stutter_init) \<le> m_writePos (Stutter_run ops Stutter_init)"
    "m_writePos (Stutter_run ops Stutter_init) \<le> STUTTER_BUFFER_SAMPLES"
    "m_captureLength (Stutter_run ops Stutter_init) \<le> STUTTER_BUFFER_SAMPLES"
    "m_state (Stutter_run ops Stutter_init) = StutterState.PLAYING
        \<longrightarrow> (if 0 < m_captureLength (Stutter_run ops Stutter_init)
             then m_readPos (Stutter_run ops Stutter_init) < m_captureLength (Stutter_run ops Stutter_init)
             else m_readPos (Stutter_run ops Stutter_init) = 0)"
    using inv by (auto simp: stutter_inv_def)
  show ?thesis using p nl sf br by (intro conjI)
qed

text \<open>
  The statement at concrete histories: \<open>enable()\<close> on the fresh engine (PLAYING, empty
  loop), a capture start scheduled and cancelled on the fresh engine and after
  \<open>enable()\<close> (no loop held), and a capture start scheduled and cancelled after a
  128-sample capture (a loop held).
\<close>

theorem Stutter_reachable_invariants_witness:
  "m_state (Stutter_run [Enable] Stutter_init) = StutterState.PLAYING
   \<and> m_readPos (Stutter_run [Enable] Stutter_init) = 0
   \<and> cancel_only_without_loop [ScheduleCaptureStart 1000, CancelCaptureStart] Stutter_init
   \<and> m_state (Stutter_run [ScheduleCaptureStart 1000, CancelCaptureStart] Stutter_init) = IDLE_NO_LOOP
   \<and> m_captureLength (Stutter_run [ScheduleCaptureStart 1000, CancelCaptureStart] Stutter_init) = 0
   \<and> m_state (Stutter_run [Enable] Stutter_init) \<noteq> IDLE_NO_LOOP
   \<and> cancel_only_without_loop [ScheduleCaptureStart 1000, CancelCaptureStart]
        (Stutter_run [Enable] Stutter_init)
   \<and> m_state (Stutter_run [ScheduleCaptureStart 1000, CancelCaptureStart]
        (Stutter_run [Enable] Stutter_init)) = IDLE_NO_LOOP
   \<and> m_captureLength (Stutter_run [ScheduleCaptureStart 1000, CancelCaptureStart]
        (Stutter_run [Enable] Stutter_init)) = 0
   \<and> \<not> cancel_only_without_loop
         [StartCapture, Update 0 (Some (replicate 128 1)) (Some (replicate 128 1)) True True,
          EndCapture False, ScheduleCaptureStart 1000, CancelCaptureStart] Stutter_init
   \<and> (\<exists>n<5. [StartCapture, Update 0 (Some (replicate 128 1)) (Some (replicate 128 1)) True True,
              EndCapture False, ScheduleCaptureStart 1000, CancelCaptureStart] ! n
             = CancelCaptureStart
         \<and> m_state (Stutter_run (take (Suc n)
              [StartCapture, Update 0 (Some (replicate 128 1)) (Some (replicate 128 1)) True True,
               EndCapture False, ScheduleCaptureStart 1000, CancelCaptureStart]) Stutter_init)
             = IDLE_NO_LOOP
         \<and> 0 < m_captureLength (Stutter_run (take (Suc n)
              [StartCapture, Update 0 (Some (replicate 128 1)) (Some (replicate 128 1)) True True,
               EndCapture False, ScheduleCaptureStart 1000, CancelCaptureStart]) Stutter_init))"
proof -
  define H where "H = [StartCapture,
      Update 0 (Some (replicate 128 1)) (Some (replicate 128 1)) True True,
      EndCapture False, ScheduleCaptureStart 1000, CancelCaptureStart]"
  have d: "m_state (Stutter_run [Enable] Stutter_init) = StutterState.PLAYING"
    by (simp add: Stutter_enable_def)
  have e: "m_captureLength (Stutter_run [Enable] Stutter_init) = 0"
    by (simp add: Stutter_enable_def Stutter_init_def)
  have f: "m_readPos (Stutter_run [Enable] Stutter_init) = 0"
    using Stutter_reachable_invariants [of "[Enable]"] d e by simp
  have g: "cancel_only_without_loop [ScheduleCaptureStart 1000, CancelCaptureStart] Stutter_init"
    by (simp add: scheduleCaptureStart_def Stutter_init_def)
  have h: "m_state (Stutter_run [ScheduleCaptureStart 1000, CancelCaptureStart] Stutter_init)
      = IDLE_NO_LOOP"
    by (simp add: scheduleCaptureStart_def cancelCaptureStart_def)
  have i: "m_captureLength (Stutter_run [ScheduleCaptureStart 1000, CancelCaptureStart] Stutter_init) = 0"
    using Stutter_reachable_invariants [of "[ScheduleCaptureStart 1000, CancelCaptureStart]"] g h
    by blast
  have j: "m_state (Stutter_run [Enable] Stutter_init) \<noteq> IDLE_NO_LOOP" using d by simp
  have k: "cancel_only_without_loop [ScheduleCaptureStart 1000, CancelCaptureStart]
        (Stutter_run [Enable] Stutter_init)"
    by (simp add: scheduleCaptureStart_def Stutter_enable_def Stutter_init_def)
  have l: "m_state (Stutter_run [ScheduleCaptureStart 1000, CancelCaptureStart]
        (Stutter_run [Enable] Stutter_init)) = IDLE_NO_LOOP"
    by (simp add: scheduleCaptureStart_def cancelCaptureStart_def)
  have m: "m_captureLength (Stutter_run [ScheduleCaptureStart 1000, CancelCaptureStart]
        (Stutter_run [Enable] Stutter_init)) = 0"
    using Stutter_reachable_invariants
      [of "[Enable]" "[ScheduleCaptureStart 1000, CancelCaptureStart]"] j k l
    by blast
  have n: "\<not> cancel_only_without_loop H Stutter_init"
    using capture_one_block by (simp add: H_def scheduleCaptureStart_def)
  have lenH: "length H = 5" by (simp add: H_def)
  have o: "\<exists>n<5. H ! n = CancelCaptureStart
         \<and> m_state (Stutter_run (take (Suc n) H) Stutter_init) = IDLE_NO_LOOP
         \<and> 0 < m_captureLength (Stutter_run (take (Suc n) H) Stutter_init)"
    using Stutter_reachable_invariants [of H] n lenH by simp
  show ?thesis
    using d f g h i j k l m n o unfolding H_def by (intro conjI)
qed

subsection \<open>disable against stopPlayback\<close>

text \<open>
  Claim C10: the fallback dispatch of \<open>EffectManager::executeCommand\<close>, with the registry
  main.cpp builds, answers an EFFECT_DISABLE command for STUTTER by calling the engine's
  \<open>disable()\<close>; \<open>disable()\<close> sets the state to IDLE_NO_LOOP and capture length, write and
  read position to 0, whatever they were (so the previous loop cannot be recovered);
  \<open>stopPlayback()\<close> only moves to IDLE_WITH_LOOP and keeps capture length and buffers.
\<close>

theorem disable_discards_loop:
  "executeCommand main_registry
      \<lparr> cmd_type = EFFECT_DISABLE, targetEffect = EffectID.STUTTER,
        param1 = p1, param2 = p2, cmd_value = v \<rparr> e
     = (True, e\<lparr> stutter_engine := Stutter_disable (stutter_engine e) \<rparr>)
   \<and> m_state (Stutter_disable s) = IDLE_NO_LOOP
   \<and> m_captureLength (Stutter_disable s) = 0
   \<and> m_writePos (Stutter_disable s) = 0
   \<and> m_readPos (Stutter_disable s) = 0
   \<and> Stutter_disable (s\<lparr> m_captureLength := n, m_writePos := w, m_readPos := r, m_state := st \<rparr>)
       = Stutter_disable s
   \<and> stopPlayback s = s\<lparr> m_state := IDLE_WITH_LOOP \<rparr>
   \<and> m_state (stopPlayback s) = IDLE_WITH_LOOP
   \<and> m_captureLength (stopPlayback s) = m_captureLength s
   \<and> m_stutterBufferL (stopPlayback s) = m_stutterBufferL s
   \<and> m_stutterBufferR (stopPlayback s) = m_stutterBufferR s"
  by (simp add: executeCommand_def main_registry_def registerEffect_def MAX_EFFECTS_def
      effect_disable_def Stutter_disable_def stopPlayback_def)

subsection \<open>How a capture ends\<close>

text \<open>
  The captured length is the write position at the moment the capture ends. The state
  entered and the capture length stored are functions of it: for the free \<open>endCapture\<close>,
  for the capture-end check of \<open>update\<close>, and for the whole \<open>update\<close> call, in which the
  capture-start check runs before the capture-end check (a capture start firing in the
  same call empties the capture first) and the playback-onset and playback-length checks
  run after it.
\<close>

lemma process_audio_after_capture:
  assumes "m_state s = StutterState.PLAYING \<or> m_state s = IDLE_WITH_LOOP \<or> m_state s = IDLE_NO_LOOP"
  shows "m_state (fst (process_audio blockL blockR allocL allocR s)) = m_state s"
    and "m_captureLength (fst (process_audio blockL blockR allocL allocR s)) = m_captureLength s"
    and "m_captureEndAtSample (fst (process_audio blockL blockR allocL allocR s)) = m_captureEndAtSample s"
proof -
  obtain r outL' outR' where l: "Stutter_play_loop 0 [] [] s = (s\<lparr> m_readPos := r \<rparr>, outL', outR')"
    using Stutter_play_loop_effect [of 0 "[]" "[]" s] by blast
  show "m_state (fst (process_audio blockL blockR allocL allocR s)) = m_state s"
    using assms by (auto simp: process_audio_def l split: option.splits)
  show "m_captureLength (fst (process_audio blockL blockR allocL allocR s)) = m_captureLength s"
    using assms by (auto simp: process_audio_def l split: option.splits)
  show "m_captureEndAtSample (fst (process_audio blockL blockR allocL allocR s)) = m_captureEndAtSample s"
    using assms by (auto simp: process_audio_def l split: option.splits)
qed

lemma endCapture_exact:
  assumes "stutter_inv s"
  shows "m_state (endCapture held s) = spec_post_capture_state held (m_writePos s)"
    and "m_captureLength (endCapture held s) = m_writePos s"
  using assms by (auto simp: endCapture_def spec_post_capture_state_def stutter_inv_def Let_def)

lemma check_capture_end_exact:
  assumes "stutter_inv s" and "schedule_fires (m_captureEndAtSample s) cur"
  shows "m_state (check_capture_end cur s) = spec_post_capture_state (m_stutterHeld s) (m_writePos s)"
    and "m_captureLength (check_capture_end cur s) = m_writePos s"
    and "m_captureEndAtSample (check_capture_end cur s) = 0"
  using assms
  by (auto simp: check_capture_end_def spec_post_capture_state_def stutter_inv_def Let_def)

lemma update_capture_end_exact:
  assumes inv: "stutter_inv s"
    and fire: "schedule_fires (m_captureEndAtSample s) cur"
  shows "m_state (fst (Stutter_update cur blockL blockR allocL allocR s))
           = (if schedule_fires (m_playbackLengthAtSample s) cur then IDLE_WITH_LOOP
              else if schedule_fires (m_playbackOnsetAtSample s) cur then StutterState.PLAYING
              else spec_post_capture_state (m_stutterHeld s)
                     (if schedule_fires (m_captureStartAtSample s) cur then 0 else m_writePos s))"
    and "m_captureLength (fst (Stutter_update cur blockL blockR allocL allocR s))
           = (if schedule_fires (m_captureStartAtSample s) cur then 0 else m_writePos s)"
    and "m_captureEndAtSample (fst (Stutter_update cur blockL blockR allocL allocR s)) = 0"
proof -
  define s1 where "s1 = check_capture_start cur s"
  define s2 where "s2 = check_capture_end cur s1"
  define s3 where "s3 = check_playback_onset cur s2"
  define s4 where "s4 = check_playback_length cur s3"
  define c where "c = (if schedule_fires (m_captureStartAtSample s) cur then 0 else m_writePos s)"
  have i1: "stutter_inv s1" unfolding s1_def using inv by (rule stutter_inv_check_capture_start)
  have f1: "m_captureEndAtSample s1 = m_captureEndAtSample s" "m_stutterHeld s1 = m_stutterHeld s"
    "m_playbackOnsetAtSample s1 = m_playbackOnsetAtSample s"
    "m_playbackLengthAtSample s1 = m_playbackLengthAtSample s"
    "m_writePos s1 = c"
    by (simp_all add: s1_def check_capture_start_def c_def)
  have fire1: "schedule_fires (m_captureEndAtSample s1) cur" using fire by (simp add: f1)
  have st2: "m_state s2 = spec_post_capture_state (m_stutterHeld s) c"
    using check_capture_end_exact(1) [OF i1 fire1] by (simp add: s2_def f1)
  have cl2: "m_captureLength s2 = c"
    using check_capture_end_exact(2) [OF i1 fire1] by (simp add: s2_def f1)
  have ce2: "m_captureEndAtSample s2 = 0"
    using check_capture_end_exact(3) [OF i1 fire1] by (simp add: s2_def)
  have f2: "m_playbackOnsetAtSample s2 = m_playbackOnsetAtSample s"
    "m_playbackLengthAtSample s2 = m_playbackLengthAtSample s"
    using f1 by (auto simp: s2_def check_capture_end_def Let_def)
  have st3: "m_state s3 = (if schedule_fires (m_playbackOnsetAtSample s) cur then StutterState.PLAYING
              else spec_post_capture_state (m_stutterHeld s) c)"
    and f3: "m_captureLength s3 = c" "m_captureEndAtSample s3 = 0"
      "m_playbackLengthAtSample s3 = m_playbackLengthAtSample s"
    using st2 cl2 ce2 f2 by (simp_all add: s3_def check_playback_onset_def)
  have st4: "m_state s4 = (if schedule_fires (m_playbackLengthAtSample s) cur then IDLE_WITH_LOOP
              else if schedule_fires (m_playbackOnsetAtSample s) cur then StutterState.PLAYING
              else spec_post_capture_state (m_stutterHeld s) c)"
    and f4: "m_captureLength s4 = c" "m_captureEndAtSample s4 = 0"
    using st3 f3 by (simp_all add: s4_def check_playback_length_def)
  have three: "m_state s4 = StutterState.PLAYING \<or> m_state s4 = IDLE_WITH_LOOP \<or> m_state s4 = IDLE_NO_LOOP"
    unfolding st4 by (simp add: spec_post_capture_state_def)
  have u: "Stutter_update cur blockL blockR allocL allocR s = process_audio blockL blockR allocL allocR s4"
    by (simp add: Stutter_update_def s1_def s2_def s3_def s4_def)
  show "m_state (fst (Stutter_update cur blockL blockR allocL allocR s))
           = (if schedule_fires (m_playbackLengthAtSample s) cur then IDLE_WITH_LOOP
              else if schedule_fires (m_playbackOnsetAtSample s) cur then StutterState.PLAYING
              else spec_post_capture_state (m_stutterHeld s)
                     (if schedule_fires (m_captureStartAtSample s) cur then 0 else m_writePos s))"
    unfolding u process_audio_after_capture(1) [OF three] c_def [symmetric] by (rule st4)
  show "m_captureLength (fst (Stutter_update cur blockL blockR allocL allocR s))
           = (if schedule_fires (m_captureStartAtSample s) cur then 0 else m_writePos s)"
    unfolding u process_audio_after_capture(2) [OF three] c_def [symmetric] by (rule f4(1))
  show "m_captureEndAtSample (fst (Stutter_update cur blockL blockR allocL allocR s)) = 0"
    unfolding u process_audio_after_capture(3) [OF three] by (rule f4(2))
qed

lemma process_audio_buffer_full:
  assumes inv: "stutter_inv s"
    and st: "m_state s = CAPTURING \<or> m_state s = WAIT_CAPTURE_END"
    and full: "STUTTER_BUFFER_SAMPLES \<le> m_writePos s + AUDIO_BLOCK_SAMPLES"
  shows "m_state (fst (process_audio (Some dataL) (Some dataR) allocL allocR s))
           = spec_post_capture_state (m_stutterHeld s)
               (m_captureLength (fst (process_audio (Some dataL) (Some dataR) allocL allocR s)))"
    and "m_captureLength (fst (process_audio (Some dataL) (Some dataR) allocL allocR s))
           = STUTTER_BUFFER_SAMPLES"
    and "m_captureEndAtSample (fst (process_audio (Some dataL) (Some dataR) allocL allocR s)) = 0"
proof -
  obtain fL fR where l: "Stutter_capture_loop 0 dataL dataR s =
      s\<lparr> m_stutterBufferL := fL, m_stutterBufferR := fR,
         m_writePos := (if m_writePos s \<ge> STUTTER_BUFFER_SAMPLES then m_writePos s
                        else min (m_writePos s + (AUDIO_BLOCK_SAMPLES - 0)) STUTTER_BUFFER_SAMPLES) \<rparr>"
    using Stutter_capture_loop_effect [of 0 dataL dataR s] by blast
  have w: "(if m_writePos s \<ge> STUTTER_BUFFER_SAMPLES then m_writePos s
            else min (m_writePos s + (AUDIO_BLOCK_SAMPLES - 0)) STUTTER_BUFFER_SAMPLES)
          = STUTTER_BUFFER_SAMPLES"
    using inv full by (auto simp: stutter_inv_def min_def)
  have pos: "0 < STUTTER_BUFFER_SAMPLES" by (simp add: STUTTER_BUFFER_SAMPLES_def)
  show "m_captureLength (fst (process_audio (Some dataL) (Some dataR) allocL allocR s))
           = STUTTER_BUFFER_SAMPLES"
    using st by (auto simp: process_audio_def l w Let_def)
  show "m_captureEndAtSample (fst (process_audio (Some dataL) (Some dataR) allocL allocR s)) = 0"
    using st by (auto simp: process_audio_def l w Let_def)
  show "m_state (fst (process_audio (Some dataL) (Some dataR) allocL allocR s))
           = spec_post_capture_state (m_stutterHeld s)
               (m_captureLength (fst (process_audio (Some dataL) (Some dataR) allocL allocR s)))"
    using st pos by (auto simp: process_audio_def l w Let_def spec_post_capture_state_def)
qed

lemma process_audio_buffer_full_exact:
  assumes inv: "stutter_inv s"
    and st: "m_state s = CAPTURING \<or> m_state s = WAIT_CAPTURE_END"
    and full: "STUTTER_BUFFER_SAMPLES \<le> m_writePos s + AUDIO_BLOCK_SAMPLES"
  shows "m_state (fst (process_audio (Some dataL) (Some dataR) allocL allocR s))
           = spec_post_capture_state (m_stutterHeld s) STUTTER_BUFFER_SAMPLES"
    and "m_captureLength (fst (process_audio (Some dataL) (Some dataR) allocL allocR s))
           = STUTTER_BUFFER_SAMPLES"
    and "m_captureEndAtSample (fst (process_audio (Some dataL) (Some dataR) allocL allocR s)) = 0"
  using process_audio_buffer_full [OF inv st full, of dataL dataR allocL allocR]
  by simp_all

text \<open>
  Claim C6 as stated fails for the scheduled capture end when a playback onset is still
  pending. Capture one block and end the capture; schedule a quantized playback onset at
  sample 200 and release before it fires (\<open>stopPlayback\<close> leaves the scheduled sample in
  place); start a new capture, record the block at sample 128, and schedule the capture
  end at sample 200 with the stutter-held flag clear. The engine is in WAIT_CAPTURE_END
  with 128 samples captured. In the \<open>update\<close> at sample 256 the capture end fires and
  enters IDLE_WITH_LOOP, as the rule says; the playback-onset check of the same call
  fires next, and the call ends in PLAYING with the flag clear.
\<close>

theorem capture_end_with_pending_onset:
  "m_state (Stutter_run
       [StartCapture, Update 0 (Some (replicate 128 1)) (Some (replicate 128 1)) True True,
        EndCapture False, SchedulePlaybackOnset 200, StopPlayback, StartCapture,
        Update 128 (Some (replicate 128 1)) (Some (replicate 128 1)) True True,
        ScheduleCaptureEnd 200 False] Stutter_init) = WAIT_CAPTURE_END
   \<and> schedule_fires (m_captureEndAtSample (Stutter_run
       [StartCapture, Update 0 (Some (replicate 128 1)) (Some (replicate 128 1)) True True,
        EndCapture False, SchedulePlaybackOnset 200, StopPlayback, StartCapture,
        Update 128 (Some (replicate 128 1)) (Some (replicate 128 1)) True True,
        ScheduleCaptureEnd 200 False] Stutter_init)) 256
   \<and> \<not> m_stutterHeld (Stutter_run
       [StartCapture, Update 0 (Some (replicate 128 1)) (Some (replicate 128 1)) True True,
        EndCapture False, SchedulePlaybackOnset 200, StopPlayback, StartCapture,
        Update 128 (Some (replicate 128 1)) (Some (replicate 128 1)) True True,
        ScheduleCaptureEnd 200 False] Stutter_init)
   \<and> m_writePos (Stutter_run
       [StartCapture, Update 0 (Some (replicate 128 1)) (Some (replicate 128 1)) True True,
        EndCapture False, SchedulePlaybackOnset 200, StopPlayback, StartCapture,
        Update 128 (Some (replicate 128 1)) (Some (replicate 128 1)) True True,
        ScheduleCaptureEnd 200 False] Stutter_init) = 128
   \<and> m_state (fst (Stutter_update 256 (Some (replicate 128 1)) (Some (replicate 128 1)) True True
       (Stutter_run
         [StartCapture, Update 0 (Some (replicate 128 1)) (Some (replicate 128 1)) True True,
          EndCapture False, SchedulePlaybackOnset 200, StopPlayback, StartCapture,
          Update 128 (Some (replicate 128 1)) (Some (replicate 128 1)) True True,
          ScheduleCaptureEnd 200 False] Stutter_init))) = StutterState.PLAYING
   \<and> m_captureLength (fst (Stutter_update 256 (Some (replicate 128 1)) (Some (replicate 128 1)) True True
       (Stutter_run
         [StartCapture, Update 0 (Some (replicate 128 1)) (Some (replicate 128 1)) True True,
          EndCapture False, SchedulePlaybackOnset 200, StopPlayback, StartCapture,
          Update 128 (Some (replicate 128 1)) (Some (replicate 128 1)) True True,
          ScheduleCaptureEnd 200 False] Stutter_init))) = 128
   \<and> spec_post_capture_state False 128 = IDLE_WITH_LOOP"
proof -
  define b :: audio_block where "b = replicate 128 1"
  define H where "H = [StartCapture, Update 0 (Some b) (Some b) True True,
        EndCapture False, SchedulePlaybackOnset 200, StopPlayback, StartCapture,
        Update 128 (Some b) (Some b) True True, ScheduleCaptureEnd 200 False]"
  define S1 where "S1 = startCapture Stutter_init"
  have f1: "m_state S1 = CAPTURING" "m_writePos S1 = 0"
    "m_captureStartAtSample S1 = 0" "m_captureEndAtSample S1 = 0"
    "m_playbackOnsetAtSample S1 = 0" "m_playbackLengthAtSample S1 = 0"
    by (simp_all add: S1_def startCapture_def Stutter_init_def)
  have room1: "m_writePos S1 + AUDIO_BLOCK_SAMPLES < STUTTER_BUFFER_SAMPLES"
    by (simp add: f1 AUDIO_BLOCK_SAMPLES_def STUTTER_BUFFER_SAMPLES_def)
  obtain fL fR where u1: "fst (Stutter_update 0 (Some b) (Some b) True True S1)
      = S1\<lparr> m_stutterBufferL := fL, m_stutterBufferR := fR,
            m_writePos := m_writePos S1 + AUDIO_BLOCK_SAMPLES \<rparr>"
    using update_capture_goes_on [of S1 0 b b True True] f1 room1 schedule_fires_simps(1)
    by auto
  define S6 where "S6 = startCapture (stopPlayback (schedulePlaybackOnset 200 (endCapture False
      (S1\<lparr> m_stutterBufferL := fL, m_stutterBufferR := fR,
            m_writePos := m_writePos S1 + AUDIO_BLOCK_SAMPLES \<rparr>))))"
  have f6: "m_state S6 = CAPTURING" "m_writePos S6 = 0"
    "m_captureStartAtSample S6 = 0" "m_captureEndAtSample S6 = 0"
    "m_playbackOnsetAtSample S6 = 200" "m_playbackLengthAtSample S6 = 0"
    "\<not> m_stutterHeld S6"
    by (simp_all add: S6_def S1_def startCapture_def stopPlayback_def schedulePlaybackOnset_def
        endCapture_def Stutter_init_def Let_def AUDIO_BLOCK_SAMPLES_def)
  have room6: "m_writePos S6 + AUDIO_BLOCK_SAMPLES < STUTTER_BUFFER_SAMPLES"
    by (simp add: f6 AUDIO_BLOCK_SAMPLES_def STUTTER_BUFFER_SAMPLES_def)
  obtain gL gR where u6: "fst (Stutter_update 128 (Some b) (Some b) True True S6)
      = S6\<lparr> m_stutterBufferL := gL, m_stutterBufferR := gR,
            m_writePos := m_writePos S6 + AUDIO_BLOCK_SAMPLES \<rparr>"
    using update_capture_goes_on [of S6 128 b b True True] f6 room6 schedule_fires_simps(1,3)
    by auto
  define S8 where "S8 = scheduleCaptureEnd 200 False
      (S6\<lparr> m_stutterBufferL := gL, m_stutterBufferR := gR,
            m_writePos := m_writePos S6 + AUDIO_BLOCK_SAMPLES \<rparr>)"
  have r0: "Stutter_run H Stutter_init = scheduleCaptureEnd 200 False
      (fst (Stutter_update 128 (Some b) (Some b) True True
        (startCapture (stopPlayback (schedulePlaybackOnset 200 (endCapture False
          (fst (Stutter_update 0 (Some b) (Some b) True True S1))))))))"
    by (simp add: H_def S1_def)
  have r: "Stutter_run H Stutter_init = S8"
    unfolding r0 u1 S6_def [symmetric] u6 S8_def [symmetric] by (rule refl)
  have f8: "m_state S8 = WAIT_CAPTURE_END" "m_writePos S8 = 128"
    "m_captureStartAtSample S8 = 0" "m_captureEndAtSample S8 = 200"
    "m_playbackOnsetAtSample S8 = 200" "m_playbackLengthAtSample S8 = 0"
    "\<not> m_stutterHeld S8"
    using f6 by (simp_all add: S8_def scheduleCaptureEnd_def AUDIO_BLOCK_SAMPLES_def)
  have i8: "stutter_inv S8" unfolding r [symmetric] by (rule Stutter_positions_bounded)
  have fire: "schedule_fires (m_captureEndAtSample S8) 256"
    by (simp add: f8 schedule_fires_simps)
  have e1: "m_state (fst (Stutter_update 256 (Some b) (Some b) True True S8)) = StutterState.PLAYING"
    unfolding update_capture_end_exact(1) [OF i8 fire]
    by (simp add: f8 schedule_fires_simps)
  have e2: "m_captureLength (fst (Stutter_update 256 (Some b) (Some b) True True S8)) = 128"
    unfolding update_capture_end_exact(2) [OF i8 fire]
    by (simp add: f8 schedule_fires_simps)
  have e3: "spec_post_capture_state False 128 = IDLE_WITH_LOOP"
    by (simp add: spec_post_capture_state_def)
  show ?thesis
    unfolding b_def [symmetric] H_def [symmetric] r
    using f8 fire e1 e2 e3 by simp
qed

text \<open>
  Claim C6, as the engine keeps it. The engine is in a state satisfying the position
  invariant, as every reachable state is. Whenever a capture ends, the state entered at
  that moment is PLAYING if the stutter-held flag is set and the captured length (the
  write position) is above 0, IDLE_WITH_LOOP if the flag is clear and the length is above
  0, IDLE_NO_LOOP if the length is 0, and the capture length stored is the captured
  length. The flag is the argument of the free \<open>endCapture\<close> and the latched
  \<open>m_stutterHeld\<close> on the two paths inside \<open>update\<close>. For the scheduled capture end this
  holds of the capture-end check, which also resets the pending capture end to 0; the
  \<open>update\<close> call as a whole ends in that state unless a pending playback length fires in
  the same call (then it ends in IDLE_WITH_LOOP) or else a pending playback onset fires
  (then it ends in PLAYING), and a capture start firing in the same call makes the
  captured length 0. For the buffer filling up in CAPTURING or WAIT_CAPTURE_END the
  captured length is the buffer size, so the state is PLAYING or IDLE_WITH_LOOP by the
  flag, and the pending capture end is reset to 0: this holds of the switch and of the
  whole \<open>update\<close> call that reaches it with no schedule firing.
\<close>

theorem capture_termination_rule:
  assumes "stutter_inv s"
  shows
    "m_state (endCapture held s) = spec_post_capture_state held (m_writePos s)
     \<and> m_captureLength (endCapture held s) = m_writePos s
     \<and> (schedule_fires (m_captureEndAtSample s) cur \<longrightarrow>
          m_state (check_capture_end cur s)
            = spec_post_capture_state (m_stutterHeld s) (m_writePos s)
          \<and> m_captureLength (check_capture_end cur s) = m_writePos s
          \<and> m_captureEndAtSample (check_capture_end cur s) = 0
          \<and> m_state (fst (Stutter_update cur blockL blockR allocL allocR s))
              = (if schedule_fires (m_playbackLengthAtSample s) cur then IDLE_WITH_LOOP
                 else if schedule_fires (m_playbackOnsetAtSample s) cur then StutterState.PLAYING
                 else spec_post_capture_state (m_stutterHeld s)
                        (if schedule_fires (m_captureStartAtSample s) cur then 0 else m_writePos s))
          \<and> m_captureLength (fst (Stutter_update cur blockL blockR allocL allocR s))
              = (if schedule_fires (m_captureStartAtSample s) cur then 0 else m_writePos s)
          \<and> m_captureEndAtSample (fst (Stutter_update cur blockL blockR allocL allocR s)) = 0)
     \<and> ((m_state s = CAPTURING \<or> m_state s = WAIT_CAPTURE_END)
          \<and> STUTTER_BUFFER_SAMPLES \<le> m_writePos s + AUDIO_BLOCK_SAMPLES \<longrightarrow>
          m_state (fst (process_audio (Some dataL) (Some dataR) allocL allocR s))
            = spec_post_capture_state (m_stutterHeld s) STUTTER_BUFFER_SAMPLES
          \<and> m_state (fst (process_audio (Some dataL) (Some dataR) allocL allocR s))
            = (if m_stutterHeld s then StutterState.PLAYING else IDLE_WITH_LOOP)
          \<and> m_captureLength (fst (process_audio (Some dataL) (Some dataR) allocL allocR s))
            = STUTTER_BUFFER_SAMPLES
          \<and> m_captureEndAtSample (fst (process_audio (Some dataL) (Some dataR) allocL allocR s)) = 0)
     \<and> ((m_state s = CAPTURING \<or> m_state s = WAIT_CAPTURE_END)
          \<and> STUTTER_BUFFER_SAMPLES \<le> m_writePos s + AUDIO_BLOCK_SAMPLES
          \<and> \<not> schedule_fires (m_captureStartAtSample s) cur
          \<and> \<not> schedule_fires (m_captureEndAtSample s) cur
          \<and> \<not> schedule_fires (m_playbackOnsetAtSample s) cur
          \<and> \<not> schedule_fires (m_playbackLengthAtSample s) cur \<longrightarrow>
          m_state (fst (Stutter_update cur (Some dataL) (Some dataR) allocL allocR s))
            = spec_post_capture_state (m_stutterHeld s) STUTTER_BUFFER_SAMPLES
          \<and> m_captureLength (fst (Stutter_update cur (Some dataL) (Some dataR) allocL allocR s))
            = STUTTER_BUFFER_SAMPLES
          \<and> m_captureEndAtSample (fst (Stutter_update cur (Some dataL) (Some dataR) allocL allocR s)) = 0)"
proof -
  have pos: "0 < STUTTER_BUFFER_SAMPLES" by (simp add: STUTTER_BUFFER_SAMPLES_def)
  have c1: "m_state (endCapture held s) = spec_post_capture_state held (m_writePos s)"
    using assms by (rule endCapture_exact(1))
  have c2: "m_captureLength (endCapture held s) = m_writePos s"
    using assms by (rule endCapture_exact(2))
  have c3: "schedule_fires (m_captureEndAtSample s) cur \<longrightarrow>
          m_state (check_capture_end cur s)
            = spec_post_capture_state (m_stutterHeld s) (m_writePos s)
          \<and> m_captureLength (check_capture_end cur s) = m_writePos s
          \<and> m_captureEndAtSample (check_capture_end cur s) = 0
          \<and> m_state (fst (Stutter_update cur blockL blockR allocL allocR s))
              = (if schedule_fires (m_playbackLengthAtSample s) cur then IDLE_WITH_LOOP
                 else if schedule_fires (m_playbackOnsetAtSample s) cur then StutterState.PLAYING
                 else spec_post_capture_state (m_stutterHeld s)
                        (if schedule_fires (m_captureStartAtSample s) cur then 0 else m_writePos s))
          \<and> m_captureLength (fst (Stutter_update cur blockL blockR allocL allocR s))
              = (if schedule_fires (m_captureStartAtSample s) cur then 0 else m_writePos s)
          \<and> m_captureEndAtSample (fst (Stutter_update cur blockL blockR allocL allocR s)) = 0"
    using check_capture_end_exact [OF assms, of cur]
      update_capture_end_exact [OF assms, of cur blockL blockR allocL allocR]
    by blast
  have c4: "(m_state s = CAPTURING \<or> m_state s = WAIT_CAPTURE_END)
          \<and> STUTTER_BUFFER_SAMPLES \<le> m_writePos s + AUDIO_BLOCK_SAMPLES \<longrightarrow>
          m_state (fst (process_audio (Some dataL) (Some dataR) allocL allocR s))
            = spec_post_capture_state (m_stutterHeld s) STUTTER_BUFFER_SAMPLES
          \<and> m_state (fst (process_audio (Some dataL) (Some dataR) allocL allocR s))
            = (if m_stutterHeld s then StutterState.PLAYING else IDLE_WITH_LOOP)
          \<and> m_captureLength (fst (process_audio (Some dataL) (Some dataR) allocL allocR s))
            = STUTTER_BUFFER_SAMPLES
          \<and> m_captureEndAtSample (fst (process_audio (Some dataL) (Some dataR) allocL allocR s)) = 0"
    using process_audio_buffer_full_exact [OF assms, of dataL dataR allocL allocR] pos
    by (simp add: spec_post_capture_state_def)
  have c5: "(m_state s = CAPTURING \<or> m_state s = WAIT_CAPTURE_END)
          \<and> STUTTER_BUFFER_SAMPLES \<le> m_writePos s + AUDIO_BLOCK_SAMPLES
          \<and> \<not> schedule_fires (m_captureStartAtSample s) cur
          \<and> \<not> schedule_fires (m_captureEndAtSample s) cur
          \<and> \<not> schedule_fires (m_playbackOnsetAtSample s) cur
          \<and> \<not> schedule_fires (m_playbackLengthAtSample s) cur \<longrightarrow>
          m_state (fst (Stutter_update cur (Some dataL) (Some dataR) allocL allocR s))
            = spec_post_capture_state (m_stutterHeld s) STUTTER_BUFFER_SAMPLES
          \<and> m_captureLength (fst (Stutter_update cur (Some dataL) (Some dataR) allocL allocR s))
            = STUTTER_BUFFER_SAMPLES
          \<and> m_captureEndAtSample (fst (Stutter_update cur (Some dataL) (Some dataR) allocL allocR s)) = 0"
  proof (intro impI, elim conjE)
    assume st: "m_state s = CAPTURING \<or> m_state s = WAIT_CAPTURE_END"
      and full: "STUTTER_BUFFER_SAMPLES \<le> m_writePos s + AUDIO_BLOCK_SAMPLES"
      and n: "\<not> schedule_fires (m_captureStartAtSample s) cur"
        "\<not> schedule_fires (m_captureEndAtSample s) cur"
        "\<not> schedule_fires (m_playbackOnsetAtSample s) cur"
        "\<not> schedule_fires (m_playbackLengthAtSample s) cur"
    have u: "Stutter_update cur (Some dataL) (Some dataR) allocL allocR s
        = process_audio (Some dataL) (Some dataR) allocL allocR s"
      using n by (rule Stutter_update_no_schedule)
    show "m_state (fst (Stutter_update cur (Some dataL) (Some dataR) allocL allocR s))
            = spec_post_capture_state (m_stutterHeld s) STUTTER_BUFFER_SAMPLES
          \<and> m_captureLength (fst (Stutter_update cur (Some dataL) (Some dataR) allocL allocR s))
            = STUTTER_BUFFER_SAMPLES
          \<and> m_captureEndAtSample (fst (Stutter_update cur (Some dataL) (Some dataR) allocL allocR s)) = 0"
      unfolding u
      using process_audio_buffer_full_exact [OF assms st full, of dataL dataR allocL allocR]
      by simp
  qed
  show ?thesis using c1 c2 c3 c4 c5 by (intro conjI)
qed

text \<open>
  The statement at concrete engines: a capture of 100 samples ended free with the flag
  set and clear, an empty capture ended free, a scheduled capture end firing on 100
  samples and on an empty capture, a scheduled capture end firing together with a pending
  playback onset, and a capture 100 samples short of the end of the buffer.
\<close>

theorem capture_termination_rule_witness:
  "stutter_inv (Stutter_init\<lparr> m_writePos := 100, m_state := CAPTURING \<rparr>)
   \<and> m_state (endCapture True (Stutter_init\<lparr> m_writePos := 100, m_state := CAPTURING \<rparr>))
       = StutterState.PLAYING
   \<and> m_state (endCapture False (Stutter_init\<lparr> m_writePos := 100, m_state := CAPTURING \<rparr>))
       = IDLE_WITH_LOOP
   \<and> m_captureLength (endCapture False (Stutter_init\<lparr> m_writePos := 100, m_state := CAPTURING \<rparr>))
       = 100
   \<and> stutter_inv (Stutter_init\<lparr> m_state := CAPTURING \<rparr>)
   \<and> m_state (endCapture True (Stutter_init\<lparr> m_state := CAPTURING \<rparr>)) = IDLE_NO_LOOP
   \<and> m_captureLength (endCapture True (Stutter_init\<lparr> m_state := CAPTURING \<rparr>)) = 0
   \<and> stutter_inv (Stutter_init\<lparr> m_writePos := 100, m_state := WAIT_CAPTURE_END,
                                 m_captureEndAtSample := 1000, m_stutterHeld := True \<rparr>)
   \<and> schedule_fires 1000 1024
   \<and> m_state (check_capture_end 1024
         (Stutter_init\<lparr> m_writePos := 100, m_state := WAIT_CAPTURE_END,
                        m_captureEndAtSample := 1000, m_stutterHeld := True \<rparr>))
       = StutterState.PLAYING
   \<and> m_captureLength (fst (Stutter_update 1024 None None True True
         (Stutter_init\<lparr> m_writePos := 100, m_state := WAIT_CAPTURE_END,
                        m_captureEndAtSample := 1000, m_stutterHeld := True \<rparr>))) = 100
   \<and> m_captureEndAtSample (fst (Stutter_update 1024 None None True True
         (Stutter_init\<lparr> m_writePos := 100, m_state := WAIT_CAPTURE_END,
                        m_captureEndAtSample := 1000, m_stutterHeld := True \<rparr>))) = 0
   \<and> stutter_inv (Stutter_init\<lparr> m_state := WAIT_CAPTURE_END,
                                 m_captureEndAtSample := 1000, m_stutterHeld := True \<rparr>)
   \<and> m_state (fst (Stutter_update 1024 None None True True
         (Stutter_init\<lparr> m_state := WAIT_CAPTURE_END,
                        m_captureEndAtSample := 1000, m_stutterHeld := True \<rparr>))) = IDLE_NO_LOOP
   \<and> stutter_inv (Stutter_init\<lparr> m_writePos := 100, m_state := WAIT_CAPTURE_END,
                                 m_captureEndAtSample := 1000, m_playbackOnsetAtSample := 1000 \<rparr>)
   \<and> m_state (fst (Stutter_update 1024 None None True True
         (Stutter_init\<lparr> m_writePos := 100, m_state := WAIT_CAPTURE_END,
                        m_captureEndAtSample := 1000, m_playbackOnsetAtSample := 1000 \<rparr>)))
       = StutterState.PLAYING
   \<and> stutter_inv (Stutter_init\<lparr> m_writePos := 151100, m_state := CAPTURING \<rparr>)
   \<and> STUTTER_BUFFER_SAMPLES \<le> 151100 + AUDIO_BLOCK_SAMPLES
   \<and> m_state (fst (Stutter_update 0 (Some (replicate 128 0)) (Some (replicate 128 0)) True True
         (Stutter_init\<lparr> m_writePos := 151100, m_state := CAPTURING \<rparr>))) = IDLE_WITH_LOOP
   \<and> m_captureLength (fst (Stutter_update 0 (Some (replicate 128 0)) (Some (replicate 128 0)) True True
         (Stutter_init\<lparr> m_writePos := 151100, m_state := CAPTURING \<rparr>))) = 151200"
proof -
  define A where "A = Stutter_init\<lparr> m_writePos := 100, m_state := CAPTURING \<rparr>"
  define E where "E = Stutter_init\<lparr> m_state := CAPTURING \<rparr>"
  define B where "B = Stutter_init\<lparr> m_writePos := 100, m_state := WAIT_CAPTURE_END,
                                 m_captureEndAtSample := 1000, m_stutterHeld := True \<rparr>"
  define B0 where "B0 = Stutter_init\<lparr> m_state := WAIT_CAPTURE_END,
                                 m_captureEndAtSample := 1000, m_stutterHeld := True \<rparr>"
  define P where "P = Stutter_init\<lparr> m_writePos := 100, m_state := WAIT_CAPTURE_END,
                                 m_captureEndAtSample := 1000, m_playbackOnsetAtSample := 1000 \<rparr>"
  define C where "C = Stutter_init\<lparr> m_writePos := 151100, m_state := CAPTURING \<rparr>"
  have iA: "stutter_inv A"
    by (simp add: A_def stutter_inv_def Stutter_init_def STUTTER_BUFFER_SAMPLES_def)
  have iE: "stutter_inv E"
    by (simp add: E_def stutter_inv_def Stutter_init_def STUTTER_BUFFER_SAMPLES_def)
  have iB: "stutter_inv B"
    by (simp add: B_def stutter_inv_def Stutter_init_def STUTTER_BUFFER_SAMPLES_def)
  have iB0: "stutter_inv B0"
    by (simp add: B0_def stutter_inv_def Stutter_init_def STUTTER_BUFFER_SAMPLES_def)
  have iP: "stutter_inv P"
    by (simp add: P_def stutter_inv_def Stutter_init_def STUTTER_BUFFER_SAMPLES_def)
  have iC: "stutter_inv C"
    by (simp add: C_def stutter_inv_def Stutter_init_def STUTTER_BUFFER_SAMPLES_def)
  have fire: "schedule_fires 1000 1024"
    by (simp add: schedule_fires_def AUDIO_BLOCK_SAMPLES_def)
  have nofire: "\<not> schedule_fires 0 cur" for cur
    by (simp add: schedule_fires_def)
  have full: "STUTTER_BUFFER_SAMPLES \<le> 151100 + AUDIO_BLOCK_SAMPLES"
    by (simp add: STUTTER_BUFFER_SAMPLES_def AUDIO_BLOCK_SAMPLES_def)
  have N: "STUTTER_BUFFER_SAMPLES = 151200" by (simp add: STUTTER_BUFFER_SAMPLES_def)
  have fA: "m_writePos A = 100" by (simp add: A_def)
  have fE: "m_writePos E = 0" by (simp add: E_def Stutter_init_def)
  have a1: "m_state (endCapture True A) = StutterState.PLAYING"
    using capture_termination_rule [OF iA, of True]
    by (simp add: fA spec_post_capture_state_def)
  have a2: "m_state (endCapture False A) = IDLE_WITH_LOOP"
    "m_captureLength (endCapture False A) = 100"
    using capture_termination_rule [OF iA, of False]
    by (simp_all add: fA spec_post_capture_state_def)
  have a3: "m_state (endCapture True E) = IDLE_NO_LOOP" "m_captureLength (endCapture True E) = 0"
    using capture_termination_rule [OF iE, of True]
    by (simp_all add: fE spec_post_capture_state_def)
  have fB: "m_captureEndAtSample B = 1000" "m_playbackOnsetAtSample B = 0"
    "m_playbackLengthAtSample B = 0" "m_captureStartAtSample B = 0"
    "m_stutterHeld B" "m_writePos B = 100"
    by (simp_all add: B_def Stutter_init_def)
  have b1: "m_state (check_capture_end 1024 B) = StutterState.PLAYING"
    using capture_termination_rule [OF iB, of _ 1024] fire fB
    by (simp add: spec_post_capture_state_def)
  have b2: "m_captureLength (fst (Stutter_update 1024 None None True True B)) = 100"
    "m_captureEndAtSample (fst (Stutter_update 1024 None None True True B)) = 0"
    using capture_termination_rule [OF iB, of _ 1024 None None True True] fire fB nofire
    by simp_all
  have fB0: "m_captureEndAtSample B0 = 1000" "m_playbackOnsetAtSample B0 = 0"
    "m_playbackLengthAtSample B0 = 0" "m_captureStartAtSample B0 = 0"
    "m_stutterHeld B0" "m_writePos B0 = 0"
    by (simp_all add: B0_def Stutter_init_def)
  have b3: "m_state (fst (Stutter_update 1024 None None True True B0)) = IDLE_NO_LOOP"
    using capture_termination_rule [OF iB0, of _ 1024 None None True True] fire fB0 nofire
    by (simp add: spec_post_capture_state_def)
  have fP: "m_captureEndAtSample P = 1000" "m_playbackOnsetAtSample P = 1000"
    "m_playbackLengthAtSample P = 0" "m_captureStartAtSample P = 0"
    "\<not> m_stutterHeld P" "m_writePos P = 100"
    by (simp_all add: P_def Stutter_init_def)
  have p1: "m_state (fst (Stutter_update 1024 None None True True P)) = StutterState.PLAYING"
    using capture_termination_rule [OF iP, of _ 1024 None None True True] fire fP nofire
    by simp
  have fC: "m_state C = CAPTURING" "m_writePos C = 151100" "\<not> m_stutterHeld C"
    "m_captureStartAtSample C = 0" "m_captureEndAtSample C = 0"
    "m_playbackOnsetAtSample C = 0" "m_playbackLengthAtSample C = 0"
    by (simp_all add: C_def Stutter_init_def)
  have c1: "m_state (fst (Stutter_update 0 (Some (replicate 128 0)) (Some (replicate 128 0)) True True C)) = IDLE_WITH_LOOP"
    "m_captureLength (fst (Stutter_update 0 (Some (replicate 128 0)) (Some (replicate 128 0)) True True C)) = 151200"
    using capture_termination_rule [OF iC, of _ 0 _ _ True True "replicate 128 0" "replicate 128 0"] full fC nofire
    by (simp_all add: spec_post_capture_state_def N)
  show ?thesis
    using iA a1 a2 iE a3 iB fire b1 b2 iB0 b3 iP p1 iC full c1
    unfolding A_def E_def B_def B0_def P_def C_def by (intro conjI)
qed

section \<open>SPSC ring buffer: full, empty and FIFO order\<close>

subsection \<open>Masking with a power of two minus one\<close>

lemma uint_and_mask: "uint ((x :: 'a::len word) AND mask k) = uint x mod 2 ^ k"
proof -
  have "uint (x AND mask k) = uint (take_bit k x)" by (simp only: take_bit_eq_mask)
  also have "\<dots> = take_bit k (uint x)" by (rule unsigned_take_bit_eq)
  also have "\<dots> = uint x mod 2 ^ k" by (rule take_bit_eq_mod)
  finally show ?thesis .
qed

lemma unat_and_mask: "unat ((x :: 'a::len word) AND mask k) = unat x mod 2 ^ k"
proof -
  have "unat (x AND mask k) = unat (take_bit k x)" by (simp only: take_bit_eq_mask)
  also have "\<dots> = take_bit k (unat x)" by (rule unsigned_take_bit_eq)
  also have "\<dots> = unat x mod 2 ^ k" by (rule take_bit_eq_mod)
  finally show ?thesis .
qed

lemma and_mask_eq_iff_diff:
  fixes a b :: "'a::len word"
  assumes "k \<le> LENGTH('a)"
  shows "(a AND mask k = b AND mask k) \<longleftrightarrow> ((a - b) AND mask k = 0)"
proof -
  have dv: "(2 :: int) ^ k dvd 2 ^ LENGTH('a)" using assms by (rule le_imp_power_dvd)
  have "(a AND mask k = b AND mask k) \<longleftrightarrow> uint (a AND mask k) = uint (b AND mask k)"
    by (simp add: word_uint_eq_iff)
  also have "\<dots> \<longleftrightarrow> uint a mod 2 ^ k = uint b mod 2 ^ k" by (simp add: uint_and_mask)
  also have "\<dots> \<longleftrightarrow> 2 ^ k dvd uint a - uint b" by (rule mod_eq_dvd_iff)
  also have "\<dots> \<longleftrightarrow> 2 ^ k dvd (uint a - uint b) mod 2 ^ LENGTH('a)"
    using dvd_mod_iff [OF dv] by simp
  also have "\<dots> \<longleftrightarrow> 2 ^ k dvd uint (a - b)" by (simp add: uint_word_ariths)
  also have "\<dots> \<longleftrightarrow> (a - b) AND mask k = 0" by (rule and_mask_dvd)
  finally show ?thesis .
qed

lemma and_mask_le_mask: "(x :: 'a::len word) AND mask k \<le> mask k"
  by (simp add: word_and_le1)

lemma succ_and_mask_zero_iff:
  fixes d :: "'a::len word"
  assumes "k \<le> LENGTH('a)"
  shows "((d + 1) AND mask k = 0) \<longleftrightarrow> (d AND mask k = mask k)"
proof -
  have "((d + 1) AND mask k = 0) \<longleftrightarrow> ((d - (-1)) AND mask k = 0)" by simp
  also have "\<dots> \<longleftrightarrow> (d AND mask k = (-1) AND mask k)"
    using and_mask_eq_iff_diff [OF assms, of d "-1"] by simp
  also have "\<dots> \<longleftrightarrow> (d AND mask k = mask k)" by simp
  finally show ?thesis .
qed

subsection \<open>push and pop on an arbitrary queue value\<close>

text \<open>
  For \<open>SIZE = 2 ^ k\<close> the mask \<open>SIZE - 1\<close> is \<open>mask k\<close>, both \<open>static_assert\<close>s hold, and the
  full test of \<open>push\<close> is the same as \<open>size() == capacity()\<close>.
\<close>

lemma SIZE_mask:
  assumes "SIZE = (2 :: u32) ^ k"
  shows "SIZE - 1 = mask k"
  using assms by (simp add: mask_eq_decr_exp)

lemma valid_SIZE_power:
  assumes "SIZE = (2 :: u32) ^ k" and "k < 32"
  shows "valid_SIZE SIZE"
proof -
  have "take_bit k ((2 :: u32) ^ k) = 0"
    unfolding take_bit_eq_0_iff by (rule dvd_refl)
  then have "(2 :: u32) ^ k AND mask k = 0"
    by (simp only: take_bit_eq_mask)
  moreover have "(2 :: u32) ^ k \<noteq> 0" using assms(2) by (simp add: exp_eq_zero_iff)
  ultimately show ?thesis
    using assms(1) by (simp add: valid_SIZE_def SIZE_mask word_greater_zero_iff)
qed

lemma isFull_iff_size:
  assumes "SIZE = (2 :: u32) ^ k" and "k < 32"
  shows "isFull SIZE q \<longleftrightarrow> size_q SIZE q = capacity SIZE"
proof -
  have k: "k \<le> LENGTH(32)" using assms(2) by simp
  have "isFull SIZE q \<longleftrightarrow> ((writeIdx q + 1) AND mask k = readIdx q AND mask k)"
    by (simp add: isFull_def Let_def SIZE_mask [OF assms(1)])
  also have "\<dots> \<longleftrightarrow> ((writeIdx q + 1 - readIdx q) AND mask k = 0)"
    by (rule and_mask_eq_iff_diff [OF k])
  also have "\<dots> \<longleftrightarrow> (((writeIdx q - readIdx q) + 1) AND mask k = 0)"
    by (simp add: algebra_simps)
  also have "\<dots> \<longleftrightarrow> ((writeIdx q - readIdx q) AND mask k = mask k)"
    by (rule succ_and_mask_zero_iff [OF k])
  also have "\<dots> \<longleftrightarrow> size_q SIZE q = capacity SIZE"
    by (simp add: size_q_def capacity_def Let_def SIZE_mask [OF assms(1)])
  finally show ?thesis .
qed

lemma size_le_capacity:
  assumes "SIZE = (2 :: u32) ^ k"
  shows "size_q SIZE q \<le> capacity SIZE"
  by (simp add: size_q_def capacity_def Let_def SIZE_mask [OF assms] and_mask_le_mask)

lemma push_iff_size:
  assumes "SIZE = (2 :: u32) ^ k" and "k < 32"
  shows "push SIZE item q =
     (if size_q SIZE q < capacity SIZE
      then (True, q\<lparr> buffer := (buffer q)(unat (writeIdx q AND (SIZE - 1)) := item),
                      writeIdx := writeIdx q + 1 \<rparr>)
      else (False, q))"
proof -
  have "size_q SIZE q < capacity SIZE \<longleftrightarrow> \<not> isFull SIZE q"
    using isFull_iff_size [OF assms, of q] size_le_capacity [OF assms(1), of q] by auto
  then show ?thesis
    by (simp add: push_def isFull_def Let_def)
qed

lemma pop_eq:
  "pop SIZE q =
     (if readIdx q = writeIdx q then (None, q)
      else (Some (buffer q (unat (readIdx q AND (SIZE - 1)))), q\<lparr> readIdx := readIdx q + 1 \<rparr>))"
  by (simp add: pop_def Let_def)

subsection \<open>Queues reached from the empty queue\<close>

lemma unat_capacity:
  assumes "SIZE = (2 :: u32) ^ k" and "k < 32"
  shows "unat (capacity SIZE) = 2 ^ k - 1"
proof -
  have nz: "SIZE \<noteq> 0" using assms by (simp add: exp_eq_zero_iff)
  have lt: "(2 :: nat) ^ k < 2 ^ 32" using assms(2) by (intro power_strict_increasing) simp_all
  have "SIZE = of_nat (2 ^ k)" using assms(1) by simp
  then have "unat SIZE = 2 ^ k mod 2 ^ 32" by (simp only: unat_of_nat) simp
  then have "unat SIZE = 2 ^ k" using lt by simp
  then show ?thesis using unat_minus_one [OF nz] by (simp add: capacity_def)
qed

lemma unat_size_q:
  assumes "SIZE = (2 :: u32) ^ k"
  shows "unat (size_q SIZE q) = unat (writeIdx q - readIdx q) mod 2 ^ k"
  by (simp add: size_q_def Let_def SIZE_mask [OF assms] unat_and_mask)

lemma spsc_inv_init: "spsc_inv k (SPSCQueue st)"
  by (simp add: spsc_inv_def SPSCQueue_def)

lemma spsc_inv_push:
  assumes S: "SIZE = (2 :: u32) ^ k" "k < 32" and inv: "spsc_inv k q"
  shows "spsc_inv k (snd (push SIZE item q))"
proof (cases "size_q SIZE q < capacity SIZE")
  case True
  define d where "d = writeIdx q - readIdx q"
  have dl: "unat d < 2 ^ k" using inv by (simp add: spsc_inv_def d_def)
  have "unat (size_q SIZE q) < unat (capacity SIZE)" using True by (simp add: word_less_nat_alt)
  then have lt: "unat d < 2 ^ k - 1"
    using dl by (simp add: unat_size_q [OF S(1)] unat_capacity [OF S] d_def)
  have "(2 :: nat) ^ k \<le> 2 ^ 31" using S(2) by (intro power_increasing) simp_all
  then have "unat d + 1 < 2 ^ 32" using lt by simp
  then have u: "unat (d + 1) = unat d + 1" by (simp add: unat_word_ariths)
  have e: "writeIdx q + 1 - readIdx q = d + 1" by (simp add: d_def)
  have "unat (writeIdx q + 1 - readIdx q) < 2 ^ k" unfolding e u using lt by simp
  then show ?thesis
    using True by (simp add: push_iff_size [OF S] spsc_inv_def)
next
  case False
  then show ?thesis using inv by (simp add: push_iff_size [OF S])
qed

lemma spsc_inv_pop:
  assumes inv: "spsc_inv k q"
  shows "spsc_inv k (snd (pop SIZE q))"
proof (cases "readIdx q = writeIdx q")
  case True
  then show ?thesis using inv by (simp add: pop_eq)
next
  case False
  define d where "d = writeIdx q - readIdx q"
  have nz: "d \<noteq> 0" using False by (auto simp: d_def)
  have u: "unat (d - 1) = unat d - 1" using nz by (rule unat_minus_one)
  have e: "writeIdx q - (readIdx q + 1) = d - 1" by (simp add: d_def)
  have "unat d < 2 ^ k" using inv by (simp add: spsc_inv_def d_def)
  then have "unat (writeIdx q - (readIdx q + 1)) < 2 ^ k" unfolding e u by simp
  then show ?thesis using False by (simp add: pop_eq spsc_inv_def)
qed

lemma spsc_inv_run:
  assumes "SIZE = (2 :: u32) ^ k" "k < 32"
  shows "spsc_inv k q \<Longrightarrow> spsc_inv k (spsc_run SIZE ops q)"
proof (induction ops arbitrary: q)
  case Nil
  then show ?case by simp
next
  case (Cons op ops)
  have "spsc_inv k (spsc_apply SIZE op q)"
    using Cons.prems by (cases op) (simp_all add: spsc_inv_push [OF assms] spsc_inv_pop)
  then show ?case using Cons.IH by simp
qed

lemma length_stored:
  assumes "SIZE = (2 :: u32) ^ k" and "spsc_inv k q"
  shows "length (stored SIZE q) = unat (size_q SIZE q)"
  using assms(2) by (simp add: stored_def unat_size_q [OF assms(1)] spsc_inv_def)

text \<open>
  While fewer than \<open>SIZE\<close> elements are stored, the slot \<open>push\<close> writes is none of the
  slots still to be read, so a successful \<open>push\<close> appends to the stored elements and a
  successful \<open>pop\<close> removes the oldest one.
\<close>

lemma slot_distinct:
  fixes w r :: u32
  assumes k: "k < 32" and n: "unat (w - r) < 2 ^ k" and i: "i < unat (w - r)"
  shows "unat ((r + of_nat i) AND mask k) \<noteq> unat (w AND mask k)"
proof
  assume "unat ((r + of_nat i) AND mask k) = unat (w AND mask k)"
  then have "w AND mask k = (r + of_nat i) AND mask k" by (simp add: word_unat_eq_iff)
  then have z: "(w - (r + of_nat i)) AND mask k = 0"
    using and_mask_eq_iff_diff [of k w "r + of_nat i"] k by simp
  define d where "d = w - r"
  have i32: "i < 2 ^ 32"
    using i unsigned_less [of "w - r", where ?'a = nat] by simp
  then have ui: "unat (of_nat i :: u32) = i" by (simp add: unat_of_nat)
  have le: "(of_nat i :: u32) \<le> d" using i ui by (simp add: word_le_nat_alt d_def)
  have s1: "unat (d - of_nat i) = unat d - i" using unat_sub [OF le] ui by simp
  have e: "w - (r + of_nat i) = d - of_nat i" unfolding d_def by (simp only: diff_diff_eq)
  have u: "unat (w - (r + of_nat i)) = unat d - i" unfolding e by (rule s1)
  have "unat ((w - (r + of_nat i)) AND mask k) = (unat d - i) mod 2 ^ k"
    by (simp only: unat_and_mask u)
  also have "\<dots> = unat d - i" using n by (simp add: d_def)
  finally have "unat ((w - (r + of_nat i)) AND mask k) \<noteq> 0" using i by (simp add: d_def)
  then show False using z by simp
qed

lemma stored_push:
  assumes S: "SIZE = (2 :: u32) ^ k" "k < 32" and inv: "spsc_inv k q"
    and room: "size_q SIZE q < capacity SIZE"
  shows "stored SIZE (snd (push SIZE item q)) = stored SIZE q @ [item]"
proof -
  define w where "w = writeIdx q"
  define r where "r = readIdx q"
  define n where "n = unat (w - r)"
  have nl: "n < 2 ^ k" using inv by (simp add: spsc_inv_def n_def w_def r_def)
  have "unat (size_q SIZE q) < unat (capacity SIZE)" using room by (simp add: word_less_nat_alt)
  then have lt: "n < 2 ^ k - 1"
    using nl by (simp add: unat_size_q [OF S(1)] unat_capacity [OF S] n_def w_def r_def)
  have "(2 :: nat) ^ k \<le> 2 ^ 31" using S(2) by (intro power_increasing) simp_all
  then have "n + 1 < 2 ^ 32" using lt by simp
  then have u: "unat ((w - r) + 1) = n + 1" by (simp add: unat_word_ariths n_def)
  have e: "w + 1 - r = (w - r) + 1" by simp
  have len: "unat (w + 1 - r) = n + 1" unfolding e by (rule u)
  have last: "r + of_nat n = w" by (simp add: n_def)
  have p: "snd (push SIZE item q) =
      q\<lparr> buffer := (buffer q)(unat (w AND mask k) := item), writeIdx := w + 1 \<rparr>"
    using room by (simp add: push_iff_size [OF S] SIZE_mask [OF S(1)] w_def)
  have old: "map (\<lambda>i. ((buffer q)(unat (w AND mask k) := item)) (unat ((r + of_nat i) AND mask k))) [0..<n]
      = map (\<lambda>i. buffer q (unat ((r + of_nat i) AND mask k))) [0..<n]"
  proof (rule map_cong [OF refl])
    fix i assume "i \<in> set [0..<n]"
    then have "i < unat (w - r)" by (simp add: n_def)
    then have "unat ((r + of_nat i) AND mask k) \<noteq> unat (w AND mask k)"
      using slot_distinct [OF S(2), of w r i] nl by (simp add: n_def)
    then show "((buffer q)(unat (w AND mask k) := item)) (unat ((r + of_nat i) AND mask k))
        = buffer q (unat ((r + of_nat i) AND mask k))"
      by simp
  qed
  have "stored SIZE (snd (push SIZE item q))
      = map (\<lambda>i. ((buffer q)(unat (w AND mask k) := item)) (unat ((r + of_nat i) AND mask k))) [0..<n + 1]"
    unfolding p by (simp add: stored_def SIZE_mask [OF S(1)] len r_def [symmetric])
  also have "\<dots> = map (\<lambda>i. ((buffer q)(unat (w AND mask k) := item)) (unat ((r + of_nat i) AND mask k))) [0..<n]
        @ [((buffer q)(unat (w AND mask k) := item)) (unat ((r + of_nat n) AND mask k))]"
    by simp
  also have "\<dots> = map (\<lambda>i. buffer q (unat ((r + of_nat i) AND mask k))) [0..<n] @ [item]"
    unfolding old last by simp
  also have "\<dots> = stored SIZE q @ [item]"
    by (simp add: stored_def SIZE_mask [OF S(1)] n_def w_def r_def)
  finally show ?thesis .
qed

lemma stored_pop:
  assumes ne: "readIdx q \<noteq> writeIdx q"
  shows "fst (pop SIZE q) = Some (hd (stored SIZE q))"
    and "stored SIZE (snd (pop SIZE q)) = tl (stored SIZE q)"
proof -
  define w where "w = writeIdx q"
  define r where "r = readIdx q"
  define n where "n = unat (w - r)"
  have nz: "w - r \<noteq> 0" using ne by (auto simp: w_def r_def)
  then have n0: "0 < n" by (simp add: n_def unat_gt_0)
  have u: "unat (w - (r + 1)) = n - 1"
  proof -
    have e: "w - (r + 1) = (w - r) - 1" by (simp only: diff_diff_eq)
    show ?thesis unfolding e n_def by (rule unat_minus_one [OF nz])
  qed
  have upt: "[0..<n] = 0 # map Suc [0..<n - 1]"
    using n0 by (metis One_nat_def Suc_pred map_Suc_upt upt_conv_Cons)
  have st: "stored SIZE q = map (\<lambda>i. buffer q (unat ((r + of_nat i) AND (SIZE - 1)))) [0..<n]"
    by (simp add: stored_def n_def w_def r_def)
  have hd: "hd (stored SIZE q) = buffer q (unat (r AND (SIZE - 1)))"
    unfolding st upt by simp
  show "fst (pop SIZE q) = Some (hd (stored SIZE q))"
    using ne by (simp add: pop_eq hd r_def)
  have "stored SIZE (snd (pop SIZE q))
      = map (\<lambda>i. buffer q (unat ((r + 1 + of_nat i) AND (SIZE - 1)))) [0..<n - 1]"
    using ne by (simp add: pop_eq stored_def u w_def [symmetric] r_def [symmetric])
  also have "\<dots> = map (\<lambda>i. buffer q (unat ((r + of_nat i) AND (SIZE - 1)))) (map Suc [0..<n - 1])"
    by (simp add: o_def ac_simps)
  also have "\<dots> = tl (stored SIZE q)"
    unfolding st upt by simp
  finally show "stored SIZE (snd (pop SIZE q)) = tl (stored SIZE q)" .
qed

text \<open>
  Claim C5: for the SPSC queue of power-of-two size \<open>SIZE = 2 ^ k\<close> (usable capacity
  \<open>SIZE - 1\<close>), on every queue value \<open>push\<close> returns true and stores the item at
  \<open>writeIdx mod SIZE\<close>, advancing \<open>writeIdx\<close>, exactly when \<open>size()\<close> was below the
  capacity, and returns false leaving the queue unchanged otherwise; \<open>pop\<close> returns false
  exactly when \<open>readIdx == writeIdx\<close>; \<open>size() \<le> capacity()\<close>. In every queue reached from
  the empty one by pushes and pops, \<open>size()\<close> is the number of stored elements, a
  successful \<open>push\<close> appends its item to them, and a successful \<open>pop\<close> returns and
  removes the oldest.
\<close>

theorem spsc_queue_spec:
  assumes "SIZE = (2 :: u32) ^ k" and "k < 32"
  shows "valid_SIZE SIZE
    \<and> push SIZE item q =
        (if size_q SIZE q < capacity SIZE
         then (True, q\<lparr> buffer := (buffer q)(unat (writeIdx q AND (SIZE - 1)) := item),
                         writeIdx := writeIdx q + 1 \<rparr>)
         else (False, q))
    \<and> (fst (pop SIZE q) = None \<longleftrightarrow> readIdx q = writeIdx q)
    \<and> size_q SIZE q \<le> capacity SIZE
    \<and> (let h = spsc_run SIZE ops (SPSCQueue storage)
       in length (stored SIZE h) = unat (size_q SIZE h)
          \<and> size_q SIZE h = writeIdx h - readIdx h
          \<and> (if size_q SIZE h < capacity SIZE
              then stored SIZE (snd (push SIZE item h)) = stored SIZE h @ [item]
              else stored SIZE (snd (push SIZE item h)) = stored SIZE h)
          \<and> (if readIdx h = writeIdx h
              then pop SIZE h = (None, h)
              else fst (pop SIZE h) = Some (hd (stored SIZE h))
                   \<and> stored SIZE (snd (pop SIZE h)) = tl (stored SIZE h)))"
proof -
  define h where "h = spsc_run SIZE ops (SPSCQueue storage)"
  have inv: "spsc_inv k h"
    unfolding h_def by (rule spsc_inv_run [OF assms spsc_inv_init])
  have c1: "valid_SIZE SIZE" using assms by (rule valid_SIZE_power)
  have c2: "push SIZE item q =
        (if size_q SIZE q < capacity SIZE
         then (True, q\<lparr> buffer := (buffer q)(unat (writeIdx q AND (SIZE - 1)) := item),
                         writeIdx := writeIdx q + 1 \<rparr>)
         else (False, q))"
    using assms by (rule push_iff_size)
  have c3: "fst (pop SIZE q) = None \<longleftrightarrow> readIdx q = writeIdx q"
    by (simp add: pop_eq)
  have c4: "size_q SIZE q \<le> capacity SIZE" using assms(1) by (rule size_le_capacity)
  have r1: "length (stored SIZE h) = unat (size_q SIZE h)"
    using assms(1) inv by (rule length_stored)
  have "unat (size_q SIZE h) = unat (writeIdx h - readIdx h)"
    using inv by (simp add: unat_size_q [OF assms(1)] spsc_inv_def)
  then have r2: "size_q SIZE h = writeIdx h - readIdx h" by (simp add: word_unat_eq_iff)
  have r3: "if size_q SIZE h < capacity SIZE
              then stored SIZE (snd (push SIZE item h)) = stored SIZE h @ [item]
              else stored SIZE (snd (push SIZE item h)) = stored SIZE h"
    using stored_push [OF assms inv] by (simp add: push_iff_size [OF assms])
  have r4: "if readIdx h = writeIdx h
              then pop SIZE h = (None, h)
              else fst (pop SIZE h) = Some (hd (stored SIZE h))
                   \<and> stored SIZE (snd (pop SIZE h)) = tl (stored SIZE h)"
    using stored_pop [of h SIZE] by (simp add: pop_eq)
  show ?thesis
    unfolding Let_def h_def [symmetric] using c1 c2 c3 c4 r1 r2 r3 r4 by blast
qed

theorem spsc_queue_spec_witness:
  "(4 :: u32) = 2 ^ 2 \<and> (2 :: nat) < 32
   \<and> push 4 (9 :: nat) (spsc_run 4 [Push 1, Push 2, Push 3] (SPSCQueue (\<lambda>_. 0)))
       = (False, spsc_run 4 [Push 1, Push 2, Push 3] (SPSCQueue (\<lambda>_. 0)))
   \<and> stored 4 (snd (push 4 (3 :: nat) (spsc_run 4 [Push 1, Push 2] (SPSCQueue (\<lambda>_. 0)))))
       = [1, 2, 3]
   \<and> fst (pop 4 (spsc_run 4 [Push (1 :: nat), Push 2] (SPSCQueue (\<lambda>_. 0)))) = Some 1
   \<and> fst (pop 4 (SPSCQueue (\<lambda>_. 0 :: nat))) = None"
proof -
  have h1: "(4 :: u32) = 2 ^ 2" by simp
  have h2: "(2 :: nat) < 32" by simp
  define A where "A = spsc_run 4 [Push (1 :: nat), Push 2, Push 3] (SPSCQueue (\<lambda>_. 0))"
  define B where "B = spsc_run 4 [Push (1 :: nat), Push 2] (SPSCQueue (\<lambda>_. 0))"
  have sA: "\<not> size_q 4 A < capacity 4"
    unfolding A_def by code_simp
  have sB: "size_q 4 B < capacity 4"
    unfolding B_def by code_simp
  have stB: "stored 4 B = [1, 2]"
    unfolding B_def by code_simp
  have neB: "readIdx B \<noteq> writeIdx B"
    unfolding B_def by code_simp
  note TA = spsc_queue_spec [OF h1 h2, of "9 :: nat" A "[]" "\<lambda>_. 0"]
  note TB = spsc_queue_spec [OF h1 h2, of "3 :: nat" B "[Push (1 :: nat), Push 2]" "\<lambda>_. 0",
      unfolded Let_def, folded B_def]
  note TE = spsc_queue_spec [OF h1 h2, of "0 :: nat" "SPSCQueue (\<lambda>_. 0 :: nat)" "[]" "\<lambda>_. 0"]
  have a: "push 4 9 A = (False, A)"
    using TA sA by simp
  have "if size_q 4 B < capacity 4
        then stored 4 (snd (push 4 3 B)) = stored 4 B @ [3]
        else stored 4 (snd (push 4 3 B)) = stored 4 B"
    using TB by (elim conjE)
  then have b: "stored 4 (snd (push 4 3 B)) = [1, 2, 3]"
    using sB stB by (simp only: if_True) simp
  have "if readIdx B = writeIdx B then pop 4 B = (None, B)
        else fst (pop 4 B) = Some (hd (stored 4 B))
             \<and> stored 4 (snd (pop 4 B)) = tl (stored 4 B)"
    using TB by (elim conjE)
  then have c: "fst (pop 4 B) = Some 1"
    using neB stB by (simp only: if_False) simp
  have d: "fst (pop 4 (SPSCQueue (\<lambda>_. 0 :: nat))) = None"
    using TE by (simp add: SPSCQueue_def)
  show ?thesis using h1 h2 a b c d unfolding A_def B_def by blast
qed

section \<open>CHOKE and FREEZE: enabling twice and toggling twice\<close>

subsection \<open>CHOKE: the target gain follows the enabled flag\<close>

lemma choke_inv_init: "choke_inv Choke_init"
  by (simp add: choke_inv_def Choke_init_def)

lemma choke_inv_update:
  "choke_inv s \<Longrightarrow> choke_inv (fst (Choke_update fp cur blockL blockR s))"
  by (auto simp: choke_inv_def Choke_update_def Let_def split: option.splits prod.splits)

lemma choke_inv_apply: "choke_inv s \<Longrightarrow> choke_inv (Choke_apply op s)"
  by (cases op)
    (auto simp: choke_inv_update, auto simp: choke_inv_def Choke_enable_def Choke_disable_def Choke_toggle_def
      Choke_isEnabled_def Choke_setLengthMode_def Choke_scheduleRelease_def
      Choke_cancelScheduledRelease_def Choke_scheduleOnset_def Choke_cancelScheduledOnset_def
      Choke_setOnsetMode_def)

lemma choke_inv_run: "choke_inv s \<Longrightarrow> choke_inv (Choke_run ops s)"
  by (induction ops arbitrary: s) (simp_all add: choke_inv_apply)

lemma Choke_enable_idem:
  "choke_inv s \<Longrightarrow> m_isEnabled_c s \<Longrightarrow> Choke_enable s = s"
  by (simp add: choke_inv_def Choke_enable_def)

lemma Choke_toggle_twice:
  "choke_inv s \<Longrightarrow> Choke_toggle (Choke_toggle s) = s"
  by (simp add: choke_inv_def Choke_toggle_def Choke_isEnabled_def Choke_enable_def Choke_disable_def)

subsection \<open>FREEZE: what enable and toggle do to the read position\<close>

text \<open>
  \<open>enable()\<close> always moves the read position to the write position, also when the
  engine is frozen already; \<open>toggle()\<close> twice goes through \<open>enable()\<close> once, whatever
  the state. Recording touches neither the read position nor the enabled flag.
\<close>

lemma Freeze_enable_when_enabled:
  "m_isEnabled_f s \<Longrightarrow> Freeze_enable s = s\<lparr> m_readPos_f := m_writePos_f s \<rparr>"
  by (simp add: Freeze_enable_def)

lemma Freeze_toggle_twice:
  "Freeze_toggle (Freeze_toggle s) = s\<lparr> m_readPos_f := m_writePos_f s \<rparr>"
  by (simp add: Freeze_toggle_def Freeze_isEnabled_def Freeze_enable_def Freeze_disable_def)

lemma Freeze_record_sample_readPos:
  "Freeze_record_sample x y (s\<lparr> m_readPos_f := r \<rparr>)
     = (Freeze_record_sample x y s)\<lparr> m_readPos_f := r \<rparr>"
  by (cases s) (simp add: Freeze_record_sample_def Let_def)

lemma Freeze_record_loop_readPos:
  "Freeze_record_loop i blockL blockR (s\<lparr> m_readPos_f := r \<rparr>)
     = (Freeze_record_loop i blockL blockR s)\<lparr> m_readPos_f := r \<rparr>"
proof (induction i blockL blockR s rule: Freeze_record_loop.induct)
  case (1 i blockL blockR s)
  show ?case
  proof (cases "i < AUDIO_BLOCK_SAMPLES")
    case True
    have a: "Freeze_record_loop i blockL blockR s
        = Freeze_record_loop (i + 1) blockL blockR (Freeze_record_sample (blockL ! i) (blockR ! i) s)"
      using True by (subst Freeze_record_loop.simps) simp
    have b: "Freeze_record_loop i blockL blockR (s\<lparr> m_readPos_f := r \<rparr>)
        = Freeze_record_loop (i + 1) blockL blockR
            ((Freeze_record_sample (blockL ! i) (blockR ! i) s)\<lparr> m_readPos_f := r \<rparr>)"
      using True by (subst Freeze_record_loop.simps) (simp add: Freeze_record_sample_readPos)
    show ?thesis unfolding a b by (rule "1.IH" [OF True])
  next
    case False
    then show ?thesis by (subst (1 2) Freeze_record_loop.simps) simp
  qed
qed

lemma Freeze_record_loop_fields:
  "m_isEnabled_f (Freeze_record_loop i blockL blockR s) = m_isEnabled_f s"
  "m_readPos_f (Freeze_record_loop i blockL blockR s) = m_readPos_f s"
  "m_writePos_f s < FREEZE_BUFFER_SAMPLES
     \<Longrightarrow> m_writePos_f (Freeze_record_loop i blockL blockR s) < FREEZE_BUFFER_SAMPLES"
proof (induction i blockL blockR s rule: Freeze_record_loop.induct)
  case (1 i blockL blockR s)
  {
    case 1
    show ?case
      using "1.IH"(1) by (subst Freeze_record_loop.simps) (simp add: Freeze_record_sample_def Let_def)
  next
    case 2
    show ?case
      using "1.IH"(2) by (subst Freeze_record_loop.simps) (simp add: Freeze_record_sample_def Let_def)
  next
    case 3
    have "m_writePos_f (Freeze_record_sample (blockL ! i) (blockR ! i) s) < FREEZE_BUFFER_SAMPLES"
      by (simp add: Freeze_record_sample_def Let_def FREEZE_BUFFER_SAMPLES_def
          FREEZE_BUFFER_MS_def SAMPLE_RATE_def)
    then show ?case
      using "1.IH"(3) 3 by (subst Freeze_record_loop.simps) simp
  }
qed

subsection \<open>FREEZE: closed forms of the two loops\<close>

text \<open>
  Playing a block advances the read position by the block size modulo the buffer size
  and emits the buffer from the old read position on, circularly. Recording a block that
  does not reach the end of the buffer copies it behind the write position.
\<close>

lemma FREEZE_BUFFER_SAMPLES_132: "FREEZE_BUFFER_SAMPLES = 132"
  by (simp add: FREEZE_BUFFER_SAMPLES_def FREEZE_BUFFER_MS_def SAMPLE_RATE_def)

lemma Freeze_advance_read_eq:
  assumes "m_readPos_f s < FREEZE_BUFFER_SAMPLES"
  shows "Freeze_advance_read s = s\<lparr> m_readPos_f := (m_readPos_f s + 1) mod FREEZE_BUFFER_SAMPLES \<rparr>"
proof (cases "m_readPos_f s + 1 = FREEZE_BUFFER_SAMPLES")
  case True
  then show ?thesis by (simp add: Freeze_advance_read_def Let_def)
next
  case False
  then have "m_readPos_f s + 1 < FREEZE_BUFFER_SAMPLES" using assms by simp
  then show ?thesis by (simp add: Freeze_advance_read_def Let_def)
qed

lemma Freeze_play_loop_closed:
  assumes "m_readPos_f s < FREEZE_BUFFER_SAMPLES"
  shows "Freeze_play_loop i outL outR s =
     (s\<lparr> m_readPos_f := (m_readPos_f s + (AUDIO_BLOCK_SAMPLES - i)) mod FREEZE_BUFFER_SAMPLES \<rparr>,
      outL @ map (\<lambda>j. m_freezeBufferL s ((m_readPos_f s + j) mod FREEZE_BUFFER_SAMPLES))
               [0..<AUDIO_BLOCK_SAMPLES - i],
      outR @ map (\<lambda>j. m_freezeBufferR s ((m_readPos_f s + j) mod FREEZE_BUFFER_SAMPLES))
               [0..<AUDIO_BLOCK_SAMPLES - i])"
  using assms
proof (induction i outL outR s rule: Freeze_play_loop.induct)
  case (1 i outL outR s)
  define N where "N = FREEZE_BUFFER_SAMPLES"
  define r where "r = m_readPos_f s"
  have rN: "r < N" using "1.prems" by (simp add: r_def N_def)
  show ?case
  proof (cases "i < AUDIO_BLOCK_SAMPLES")
    case True
    define m where "m = AUDIO_BLOCK_SAMPLES - (i + 1)"
    have mi: "AUDIO_BLOCK_SAMPLES - i = Suc m" using True by (simp add: m_def)
    define s' where "s' = Freeze_advance_read s"
    have s': "s' = s\<lparr> m_readPos_f := (r + 1) mod N \<rparr>"
      unfolding s'_def r_def N_def using "1.prems" by (rule Freeze_advance_read_eq)
    have r': "m_readPos_f s' < FREEZE_BUFFER_SAMPLES"
      using rN by (simp add: s' N_def [symmetric])
    have step: "Freeze_play_loop i outL outR s
        = Freeze_play_loop (i + 1) (outL @ [m_freezeBufferL s r]) (outR @ [m_freezeBufferR s r]) s'"
      using True by (subst Freeze_play_loop.simps) (simp add: s'_def r_def)
    have ih: "Freeze_play_loop (i + 1) (outL @ [m_freezeBufferL s r]) (outR @ [m_freezeBufferR s r]) s' =
     (s'\<lparr> m_readPos_f := (m_readPos_f s' + m) mod N \<rparr>,
      (outL @ [m_freezeBufferL s r]) @ map (\<lambda>j. m_freezeBufferL s' ((m_readPos_f s' + j) mod N)) [0..<m],
      (outR @ [m_freezeBufferR s r]) @ map (\<lambda>j. m_freezeBufferR s' ((m_readPos_f s' + j) mod N)) [0..<m])"
      using "1.IH" [OF True r' [unfolded s'_def]] by (simp add: s'_def r_def m_def N_def)
    have a1: "((r + 1) mod N + j) mod N = (r + Suc j) mod N" for j
      by (simp add: mod_add_left_eq)
    have upt: "[0..<Suc m] = 0 # map Suc [0..<m]"
      by (simp add: upt_conv_Cons map_Suc_upt del: upt_Suc)
    have l: "[m_freezeBufferL s r] @ map (\<lambda>j. m_freezeBufferL s' ((m_readPos_f s' + j) mod N)) [0..<m]
        = map (\<lambda>j. m_freezeBufferL s ((r + j) mod N)) [0..<Suc m]"
      unfolding upt using rN by (simp add: s' o_def mod_simps)
    have rr: "[m_freezeBufferR s r] @ map (\<lambda>j. m_freezeBufferR s' ((m_readPos_f s' + j) mod N)) [0..<m]
        = map (\<lambda>j. m_freezeBufferR s ((r + j) mod N)) [0..<Suc m]"
      unfolding upt using rN by (simp add: s' o_def mod_simps)
    have p: "s'\<lparr> m_readPos_f := (m_readPos_f s' + m) mod N \<rparr> = s\<lparr> m_readPos_f := (r + Suc m) mod N \<rparr>"
      by (simp add: s' mod_simps)
    show ?thesis
      unfolding step ih p mi r_def [symmetric] N_def [symmetric]
      using l rr by simp
  next
    case False
    then have "Freeze_play_loop i outL outR s = (s, outL, outR)"
      by (subst Freeze_play_loop.simps) simp
    then show ?thesis using False rN by (simp add: r_def N_def)
  qed
qed

lemma Freeze_record_loop_nowrap:
  assumes "m_writePos_f s + (AUDIO_BLOCK_SAMPLES - i) < FREEZE_BUFFER_SAMPLES"
  shows "Freeze_record_loop i blockL blockR s =
     s\<lparr> m_freezeBufferL :=
           (\<lambda>p. if m_writePos_f s \<le> p \<and> p < m_writePos_f s + (AUDIO_BLOCK_SAMPLES - i)
                then blockL ! (i + (p - m_writePos_f s)) else m_freezeBufferL s p),
        m_freezeBufferR :=
           (\<lambda>p. if m_writePos_f s \<le> p \<and> p < m_writePos_f s + (AUDIO_BLOCK_SAMPLES - i)
                then blockR ! (i + (p - m_writePos_f s)) else m_freezeBufferR s p),
        m_writePos_f := m_writePos_f s + (AUDIO_BLOCK_SAMPLES - i) \<rparr>"
  using assms
proof (induction i blockL blockR s rule: Freeze_record_loop.induct)
  case (1 i blockL blockR s)
  define w where "w = m_writePos_f s"
  show ?case
  proof (cases "i < AUDIO_BLOCK_SAMPLES")
    case True
    define m where "m = AUDIO_BLOCK_SAMPLES - (i + 1)"
    have mi: "AUDIO_BLOCK_SAMPLES - i = Suc m" using True by (simp add: m_def)
    define s' where "s' = Freeze_record_sample (blockL ! i) (blockR ! i) s"
    have wlt: "w + 1 < FREEZE_BUFFER_SAMPLES" using "1.prems" mi by (simp add: w_def)
    have s': "s' = s\<lparr> m_freezeBufferL := (m_freezeBufferL s)(w := blockL ! i),
                      m_freezeBufferR := (m_freezeBufferR s)(w := blockR ! i),
                      m_writePos_f := w + 1 \<rparr>"
      using wlt by (simp add: s'_def Freeze_record_sample_def Let_def w_def)
    have pre: "m_writePos_f s' + (AUDIO_BLOCK_SAMPLES - (i + 1)) < FREEZE_BUFFER_SAMPLES"
      using "1.prems" mi by (simp add: s' m_def w_def)
    have step: "Freeze_record_loop i blockL blockR s = Freeze_record_loop (i + 1) blockL blockR s'"
      using True by (subst Freeze_record_loop.simps) (simp add: s'_def)
    have fL: "(\<lambda>p. if m_writePos_f s' \<le> p \<and> p < m_writePos_f s' + m
                then blockL ! (i + 1 + (p - m_writePos_f s')) else m_freezeBufferL s' p)
        = (\<lambda>p. if w \<le> p \<and> p < w + Suc m then blockL ! (i + (p - w)) else m_freezeBufferL s p)"
    proof (rule ext)
      fix p
      have "i + 1 + (p - (w + 1)) = i + (p - w)" if "w + 1 \<le> p" using that by simp
      then show "(if m_writePos_f s' \<le> p \<and> p < m_writePos_f s' + m
                then blockL ! (i + 1 + (p - m_writePos_f s')) else m_freezeBufferL s' p)
        = (if w \<le> p \<and> p < w + Suc m then blockL ! (i + (p - w)) else m_freezeBufferL s p)"
        by (auto simp: s')
    qed
    have fR: "(\<lambda>p. if m_writePos_f s' \<le> p \<and> p < m_writePos_f s' + m
                then blockR ! (i + 1 + (p - m_writePos_f s')) else m_freezeBufferR s' p)
        = (\<lambda>p. if w \<le> p \<and> p < w + Suc m then blockR ! (i + (p - w)) else m_freezeBufferR s p)"
    proof (rule ext)
      fix p
      have "i + 1 + (p - (w + 1)) = i + (p - w)" if "w + 1 \<le> p" using that by simp
      then show "(if m_writePos_f s' \<le> p \<and> p < m_writePos_f s' + m
                then blockR ! (i + 1 + (p - m_writePos_f s')) else m_freezeBufferR s' p)
        = (if w \<le> p \<and> p < w + Suc m then blockR ! (i + (p - w)) else m_freezeBufferR s p)"
        by (auto simp: s')
    qed
    show ?thesis
      unfolding step "1.IH" [OF True pre [unfolded s'_def], folded s'_def m_def] mi
        w_def [symmetric] fL fR
      by (simp add: s')
  next
    case False
    then have e: "Freeze_record_loop i blockL blockR s = s"
      by (subst Freeze_record_loop.simps) simp
    have z: "(\<lambda>p. if m_writePos_f s \<le> p \<and> p < m_writePos_f s then x p else f p) = f" for x f
      by (rule ext) auto
    show ?thesis unfolding e using False by (simp add: z)
  qed
qed

subsection \<open>FREEZE: both positions stay inside the buffer\<close>

lemma freeze_inv_update:
  assumes "freeze_inv s"
  shows "freeze_inv (fst (Freeze_update cur blockL blockR allocL allocR s))"
proof -
  define s1 where "s1 = (if m_onsetAtSample_f s > 0 \<and> m_onsetAtSample_f s \<ge> cur
                   \<and> m_onsetAtSample_f s < cur + of_nat AUDIO_BLOCK_SAMPLES
                then s\<lparr> m_readPos_f := m_writePos_f s, m_isEnabled_f := True,
                         m_onsetAtSample_f := 0 \<rparr>
                else s)"
  define s2 where "s2 = (if m_releaseAtSample_f s1 > 0 \<and> m_releaseAtSample_f s1 \<ge> cur
                   \<and> m_releaseAtSample_f s1 < cur + of_nat AUDIO_BLOCK_SAMPLES
                then s1\<lparr> m_isEnabled_f := False, m_releaseAtSample_f := 0 \<rparr>
                else s1)"
  have i2: "freeze_inv s2" using assms by (simp add: s2_def s1_def freeze_inv_def)
  have u: "Freeze_update cur blockL blockR allocL allocR s =
      (if \<not> m_isEnabled_f s2
       then (case (blockL, blockR) of
               (Some dataL, Some dataR) \<Rightarrow> (Freeze_record_loop 0 dataL dataR s2, Some (dataL, dataR))
             | _ \<Rightarrow> (s2, None))
       else (if allocL \<and> allocR
             then (let (s3, outL, outR) = Freeze_play_loop 0 [] [] s2 in (s3, Some (outL, outR)))
             else (s2, None)))"
    by (simp only: Freeze_update_def Let_def s2_def s1_def)
  have r: "m_readPos_f s2 < FREEZE_BUFFER_SAMPLES" using i2 by (simp add: freeze_inv_def)
  have w: "m_writePos_f s2 < FREEZE_BUFFER_SAMPLES" using i2 by (simp add: freeze_inv_def)
  have pos: "0 < FREEZE_BUFFER_SAMPLES" by (simp add: FREEZE_BUFFER_SAMPLES_132)
  show ?thesis
    unfolding u
    using i2 r w pos
    by (auto simp: freeze_inv_def Freeze_record_loop_fields Freeze_play_loop_closed [OF r]
        split: option.splits)
qed

lemma freeze_inv_apply: "freeze_inv s \<Longrightarrow> freeze_inv (fst (Freeze_apply op s))"
proof (cases op)
  case (FreezeUpdate cur blockL blockR allocL allocR)
  assume "freeze_inv s"
  then show ?thesis
    using FreezeUpdate freeze_inv_update [of s cur blockL blockR allocL allocR]
    by (simp add: split_beta)
qed (auto simp: freeze_inv_def Freeze_enable_def Freeze_disable_def Freeze_toggle_def
      Freeze_isEnabled_def Freeze_setLengthMode_def Freeze_scheduleRelease_def
      Freeze_scheduleOnset_def Freeze_cancelScheduledOnset_def Freeze_setOnsetMode_def)

lemma freeze_inv_run: "freeze_inv s \<Longrightarrow> freeze_inv (Freeze_run ops s)"
  by (induction ops arbitrary: s) (simp_all add: freeze_inv_apply)

lemma Freeze_positions_bounded: "freeze_inv (Freeze_run ops Freeze_init)"
  by (rule freeze_inv_run) (simp add: freeze_inv_def Freeze_init_def FREEZE_BUFFER_SAMPLES_132)

subsection \<open>FREEZE: the read position is dead while the engine is not frozen\<close>

text \<open>
  Engines that differ only in the read position, and are not frozen, transmit the same
  blocks under every history: passthrough never reads the position, and \<open>enable()\<close> and a
  firing onset overwrite it.
\<close>

lemma freeze_obs_eq_cases:
  assumes "freeze_obs_eq s t"
  shows "(m_isEnabled_f s \<and> s = t) \<or> (\<not> m_isEnabled_f s \<and> t = s\<lparr> m_readPos_f := m_readPos_f t \<rparr>)"
proof -
  have e: "s\<lparr> m_readPos_f := 0 \<rparr> = t\<lparr> m_readPos_f := 0 \<rparr>"
    using assms by (simp add: freeze_obs_eq_def)
  then have "(s\<lparr> m_readPos_f := 0 \<rparr>)\<lparr> m_readPos_f := m_readPos_f t \<rparr>
      = (t\<lparr> m_readPos_f := 0 \<rparr>)\<lparr> m_readPos_f := m_readPos_f t \<rparr>" by simp
  then have t: "t = s\<lparr> m_readPos_f := m_readPos_f t \<rparr>" by simp
  show ?thesis
  proof (cases "m_isEnabled_f s")
    case True
    then have "m_readPos_f s = m_readPos_f t" using assms by (simp add: freeze_obs_eq_def)
    then have "s = t" using t by (metis freeze.surjective freeze.update_convs(4))
    then show ?thesis using True by simp
  next
    case False
    then show ?thesis using t by simp
  qed
qed

lemma freeze_obs_eq_refl: "freeze_obs_eq s s"
  by (simp add: freeze_obs_eq_def)

lemma freeze_obs_eq_readPos:
  "\<not> m_isEnabled_f s \<Longrightarrow> freeze_obs_eq (s\<lparr> m_readPos_f := r \<rparr>) s"
  by (simp add: freeze_obs_eq_def)

lemma Freeze_update_split:
  assumes "s1 = (if m_onsetAtSample_f s > 0 \<and> m_onsetAtSample_f s \<ge> cur
                   \<and> m_onsetAtSample_f s < cur + of_nat AUDIO_BLOCK_SAMPLES
                then s\<lparr> m_readPos_f := m_writePos_f s, m_isEnabled_f := True,
                         m_onsetAtSample_f := 0 \<rparr>
                else s)"
    and "s2 = (if m_releaseAtSample_f s1 > 0 \<and> m_releaseAtSample_f s1 \<ge> cur
                   \<and> m_releaseAtSample_f s1 < cur + of_nat AUDIO_BLOCK_SAMPLES
                then s1\<lparr> m_isEnabled_f := False, m_releaseAtSample_f := 0 \<rparr>
                else s1)"
  shows "Freeze_update cur blockL blockR allocL allocR s =
      (if \<not> m_isEnabled_f s2
       then (case (blockL, blockR) of
               (Some dataL, Some dataR) \<Rightarrow> (Freeze_record_loop 0 dataL dataR s2, Some (dataL, dataR))
             | _ \<Rightarrow> (s2, None))
       else (if allocL \<and> allocR
             then (let (s3, outL, outR) = Freeze_play_loop 0 [] [] s2 in (s3, Some (outL, outR)))
             else (s2, None)))"
  by (simp only: Freeze_update_def Let_def assms)

lemma Freeze_update_readPos:
  assumes d: "\<not> m_isEnabled_f s"
  shows "snd (Freeze_update cur blockL blockR allocL allocR (s\<lparr> m_readPos_f := r \<rparr>))
           = snd (Freeze_update cur blockL blockR allocL allocR s)
         \<and> freeze_obs_eq (fst (Freeze_update cur blockL blockR allocL allocR (s\<lparr> m_readPos_f := r \<rparr>)))
             (fst (Freeze_update cur blockL blockR allocL allocR s))"
proof -
  define fires where "fires \<longleftrightarrow> m_onsetAtSample_f s > 0 \<and> m_onsetAtSample_f s \<ge> cur
                   \<and> m_onsetAtSample_f s < cur + of_nat AUDIO_BLOCK_SAMPLES"
  define s1 where "s1 = (if m_onsetAtSample_f s > 0 \<and> m_onsetAtSample_f s \<ge> cur
                   \<and> m_onsetAtSample_f s < cur + of_nat AUDIO_BLOCK_SAMPLES
                then s\<lparr> m_readPos_f := m_writePos_f s, m_isEnabled_f := True,
                         m_onsetAtSample_f := 0 \<rparr>
                else s)"
  define s2 where "s2 = (if m_releaseAtSample_f s1 > 0 \<and> m_releaseAtSample_f s1 \<ge> cur
                   \<and> m_releaseAtSample_f s1 < cur + of_nat AUDIO_BLOCK_SAMPLES
                then s1\<lparr> m_isEnabled_f := False, m_releaseAtSample_f := 0 \<rparr>
                else s1)"
  define t where "t = s\<lparr> m_readPos_f := r \<rparr>"
  define t1 where "t1 = (if m_onsetAtSample_f t > 0 \<and> m_onsetAtSample_f t \<ge> cur
                   \<and> m_onsetAtSample_f t < cur + of_nat AUDIO_BLOCK_SAMPLES
                then t\<lparr> m_readPos_f := m_writePos_f t, m_isEnabled_f := True,
                         m_onsetAtSample_f := 0 \<rparr>
                else t)"
  define t2 where "t2 = (if m_releaseAtSample_f t1 > 0 \<and> m_releaseAtSample_f t1 \<ge> cur
                   \<and> m_releaseAtSample_f t1 < cur + of_nat AUDIO_BLOCK_SAMPLES
                then t1\<lparr> m_isEnabled_f := False, m_releaseAtSample_f := 0 \<rparr>
                else t1)"
  note us = Freeze_update_split [OF s1_def s2_def, of blockL blockR allocL allocR]
  note ut = Freeze_update_split [OF t1_def t2_def, of blockL blockR allocL allocR]
  have ot: "m_onsetAtSample_f t = m_onsetAtSample_f s" "m_writePos_f t = m_writePos_f s"
    by (simp_all add: t_def)
  show ?thesis
  proof (cases fires)
    case True
    have "t1 = s1"
      unfolding t1_def s1_def ot fires_def [symmetric] using True by (simp add: t_def)
    then have e: "t2 = s2" by (simp add: t2_def s2_def)
    have "Freeze_update cur blockL blockR allocL allocR t
        = Freeze_update cur blockL blockR allocL allocR s"
      unfolding us ut e by (rule refl)
    then show ?thesis unfolding t_def [symmetric] by (simp add: freeze_obs_eq_refl)
  next
    case False
    have s1: "s1 = s" unfolding s1_def fires_def [symmetric] using False by simp
    have t1: "t1 = s\<lparr> m_readPos_f := r \<rparr>"
      unfolding t1_def ot fires_def [symmetric] using False by (simp add: t_def)
    have d2: "\<not> m_isEnabled_f s2" using d by (simp add: s2_def s1)
    have t2: "t2 = s2\<lparr> m_readPos_f := r \<rparr>"
      unfolding t2_def s2_def t1 s1 by (cases s) simp
    have dt2: "\<not> m_isEnabled_f t2" using d2 by (simp add: t2)
    have us': "Freeze_update cur blockL blockR allocL allocR s =
        (case (blockL, blockR) of
               (Some dataL, Some dataR) \<Rightarrow> (Freeze_record_loop 0 dataL dataR s2, Some (dataL, dataR))
             | _ \<Rightarrow> (s2, None))"
      unfolding us using d2 by simp
    have ut': "Freeze_update cur blockL blockR allocL allocR t =
        (case (blockL, blockR) of
               (Some dataL, Some dataR) \<Rightarrow>
                 ((Freeze_record_loop 0 dataL dataR s2)\<lparr> m_readPos_f := r \<rparr>, Some (dataL, dataR))
             | _ \<Rightarrow> (s2\<lparr> m_readPos_f := r \<rparr>, None))"
      unfolding ut using dt2 by (simp add: t2 Freeze_record_loop_readPos split: option.splits)
    show ?thesis
      unfolding t_def [symmetric] us' ut'
      using d2
      by (auto split: option.splits intro!: freeze_obs_eq_readPos
               simp: Freeze_record_loop_fields)
  qed
qed

lemma Freeze_apply_obs_eq:
  assumes "freeze_obs_eq s t"
  shows "snd (Freeze_apply op s) = snd (Freeze_apply op t)
         \<and> freeze_obs_eq (fst (Freeze_apply op s)) (fst (Freeze_apply op t))"
proof -
  from freeze_obs_eq_cases [OF assms]
  consider "s = t" | "\<not> m_isEnabled_f s" "t = s\<lparr> m_readPos_f := m_readPos_f t \<rparr>"
    by blast
  then show ?thesis
  proof cases
    case 1
    then show ?thesis by (simp add: freeze_obs_eq_refl)
  next
    case 2
    define r where "r = m_readPos_f t"
    have t: "t = s\<lparr> m_readPos_f := r \<rparr>" using 2(2) by (simp add: r_def)
    have sym: "freeze_obs_eq a (a\<lparr> m_readPos_f := x \<rparr>)" if "\<not> m_isEnabled_f a" for a x
      using that by (simp add: freeze_obs_eq_def)
    show ?thesis
    proof (cases op)
      case (FreezeUpdate cur blockL blockR allocL allocR)
      have a: "snd (Freeze_update cur blockL blockR allocL allocR t)
           = snd (Freeze_update cur blockL blockR allocL allocR s)"
        and b: "freeze_obs_eq (fst (Freeze_update cur blockL blockR allocL allocR t))
             (fst (Freeze_update cur blockL blockR allocL allocR s))"
        using Freeze_update_readPos [OF 2(1), of cur blockL blockR allocL allocR r]
        unfolding t by simp_all
      have c: "freeze_obs_eq (fst (Freeze_update cur blockL blockR allocL allocR s))
             (fst (Freeze_update cur blockL blockR allocL allocR t))"
        using b freeze_obs_eq_cases [OF b]
        by (metis freeze_obs_eq_refl sym freeze.surjective freeze.update_convs(4) freeze.select_convs(5) freeze_obs_eq_def)
      show ?thesis using a c FreezeUpdate by (simp add: split_beta)
    qed (use 2(1) in \<open>auto simp: t freeze_obs_eq_def Freeze_enable_def Freeze_disable_def
          Freeze_toggle_def Freeze_isEnabled_def Freeze_setLengthMode_def
          Freeze_scheduleRelease_def Freeze_scheduleOnset_def
          Freeze_cancelScheduledOnset_def Freeze_setOnsetMode_def\<close>)
  qed
qed

lemma Freeze_outputs_obs_eq:
  "freeze_obs_eq s t \<Longrightarrow> Freeze_outputs ops s = Freeze_outputs ops t"
proof (induction ops arbitrary: s t)
  case Nil
  show ?case by simp
next
  case (Cons op ops)
  from Freeze_apply_obs_eq [OF Cons.prems, of op]
  have a: "snd (Freeze_apply op s) = snd (Freeze_apply op t)"
    and b: "freeze_obs_eq (fst (Freeze_apply op s)) (fst (Freeze_apply op t))" by simp_all
  show ?case using a Cons.IH [OF b] by simp
qed

subsection \<open>FREEZE: one block with nothing scheduled\<close>

lemma Freeze_update_record_nowrap:
  assumes "\<not> m_isEnabled_f s" "m_onsetAtSample_f s = 0" "m_releaseAtSample_f s = 0"
    and "m_writePos_f s + AUDIO_BLOCK_SAMPLES < FREEZE_BUFFER_SAMPLES"
  shows "Freeze_update cur (Some dataL) (Some dataR) allocL allocR s =
     (s\<lparr> m_freezeBufferL :=
           (\<lambda>p. if m_writePos_f s \<le> p \<and> p < m_writePos_f s + AUDIO_BLOCK_SAMPLES
                then dataL ! (p - m_writePos_f s) else m_freezeBufferL s p),
        m_freezeBufferR :=
           (\<lambda>p. if m_writePos_f s \<le> p \<and> p < m_writePos_f s + AUDIO_BLOCK_SAMPLES
                then dataR ! (p - m_writePos_f s) else m_freezeBufferR s p),
        m_writePos_f := m_writePos_f s + AUDIO_BLOCK_SAMPLES \<rparr>,
      Some (dataL, dataR))"
proof -
  have a: "m_writePos_f s + (AUDIO_BLOCK_SAMPLES - 0) < FREEZE_BUFFER_SAMPLES"
    using assms(4) by simp
  have u: "Freeze_update cur (Some dataL) (Some dataR) allocL allocR s
      = (Freeze_record_loop 0 dataL dataR s, Some (dataL, dataR))"
    using assms(1-3) by (simp add: Freeze_update_def Let_def)
  show ?thesis unfolding u Freeze_record_loop_nowrap [OF a] by (simp cong: if_cong)
qed

lemma Freeze_update_frozen:
  assumes "m_isEnabled_f s" "m_onsetAtSample_f s = 0" "m_releaseAtSample_f s = 0"
    and r: "m_readPos_f s < FREEZE_BUFFER_SAMPLES"
  shows "Freeze_update cur blockL blockR True True s =
     (s\<lparr> m_readPos_f := (m_readPos_f s + AUDIO_BLOCK_SAMPLES) mod FREEZE_BUFFER_SAMPLES \<rparr>,
      Some (map (\<lambda>j. m_freezeBufferL s ((m_readPos_f s + j) mod FREEZE_BUFFER_SAMPLES))
              [0..<AUDIO_BLOCK_SAMPLES],
            map (\<lambda>j. m_freezeBufferR s ((m_readPos_f s + j) mod FREEZE_BUFFER_SAMPLES))
              [0..<AUDIO_BLOCK_SAMPLES]))"
proof -
  have u: "Freeze_update cur blockL blockR True True s
      = (let (s3, outL, outR) = Freeze_play_loop 0 [] [] s in (s3, Some (outL, outR)))"
    using assms(1-3) by (simp add: Freeze_update_def Let_def)
  show ?thesis unfolding u Freeze_play_loop_closed [OF r] by simp
qed

lemma map_block_neq:
  assumes "f 0 \<noteq> g 0"
  shows "map f [0..<AUDIO_BLOCK_SAMPLES] \<noteq> map g [0..<AUDIO_BLOCK_SAMPLES]"
proof
  assume "map f [0..<AUDIO_BLOCK_SAMPLES] = map g [0..<AUDIO_BLOCK_SAMPLES]"
  then have "\<forall>x \<in> set [0..<AUDIO_BLOCK_SAMPLES]. f x = g x" by (simp only: map_eq_conv)
  moreover have "0 \<in> set [0..<AUDIO_BLOCK_SAMPLES]" by (simp add: AUDIO_BLOCK_SAMPLES_def)
  ultimately show False using assms by blast
qed

lemma freeze_example_state:
  fixes blk :: audio_block
  defines "blk \<equiv> map of_nat [1..<129]"
  defines "F \<equiv> Freeze_run [FreezeUpdate 0 (Some blk) (Some blk) True True, FreezeEnable,
                 FreezeUpdate 128 None None True True] Freeze_init"
  shows "m_isEnabled_f F" "m_onsetAtSample_f F = 0" "m_releaseAtSample_f F = 0"
    "m_readPos_f F = 124" "m_writePos_f F = 128"
    "m_freezeBufferL F 124 = 125" "m_freezeBufferL F 128 = 0"
proof -
  define F1 where "F1 = fst (Freeze_update 0 (Some blk) (Some blk) True True Freeze_init)"
  define F2 where "F2 = Freeze_enable F1"
  define F3 where "F3 = fst (Freeze_update 128 None None True True F2)"
  have F: "F = F3" by (simp add: F_def F3_def F2_def F1_def split_beta)
  have i: "\<not> m_isEnabled_f Freeze_init" "m_onsetAtSample_f Freeze_init = 0"
    "m_releaseAtSample_f Freeze_init = 0"
    "m_writePos_f Freeze_init + AUDIO_BLOCK_SAMPLES < FREEZE_BUFFER_SAMPLES"
    by (simp_all add: Freeze_init_def AUDIO_BLOCK_SAMPLES_def FREEZE_BUFFER_SAMPLES_132)
  have b: "blk ! 124 = 125" by (simp add: blk_def)
  have f1: "\<not> m_isEnabled_f F1" "m_onsetAtSample_f F1 = 0" "m_releaseAtSample_f F1 = 0"
    "m_writePos_f F1 = 128" "m_freezeBufferL F1 124 = 125" "m_freezeBufferL F1 128 = 0"
    unfolding F1_def Freeze_update_record_nowrap [OF i]
    by (simp_all add: Freeze_init_def AUDIO_BLOCK_SAMPLES_def b)
  have f2: "m_isEnabled_f F2" "m_onsetAtSample_f F2 = 0" "m_releaseAtSample_f F2 = 0"
    "m_writePos_f F2 = 128" "m_readPos_f F2 = 128"
    "m_freezeBufferL F2 124 = 125" "m_freezeBufferL F2 128 = 0"
    using f1 by (simp_all add: F2_def Freeze_enable_def)
  have r2: "m_readPos_f F2 < FREEZE_BUFFER_SAMPLES"
    by (simp add: f2 FREEZE_BUFFER_SAMPLES_132)
  have f3: "F3 = F2\<lparr> m_readPos_f := 124 \<rparr>"
    unfolding F3_def Freeze_update_frozen [OF f2(1-3) r2]
    by (simp add: f2 AUDIO_BLOCK_SAMPLES_def FREEZE_BUFFER_SAMPLES_132)
  show "m_isEnabled_f F" "m_onsetAtSample_f F = 0" "m_releaseAtSample_f F = 0"
    "m_readPos_f F = 124" "m_writePos_f F = 128"
    "m_freezeBufferL F 124 = 125" "m_freezeBufferL F 128 = 0"
    unfolding F f3 using f2 by simp_all
qed

lemma freeze_reset_audible:
  assumes e: "m_isEnabled_f F" and o: "m_onsetAtSample_f F = 0" and l: "m_releaseAtSample_f F = 0"
    and r: "m_readPos_f F < FREEZE_BUFFER_SAMPLES" and w: "m_writePos_f F < FREEZE_BUFFER_SAMPLES"
    and d: "m_freezeBufferL F (m_readPos_f F) \<noteq> m_freezeBufferL F (m_writePos_f F)"
  shows "Freeze_outputs [FreezeEnable, FreezeUpdate cur None None True True] F
           \<noteq> Freeze_outputs [FreezeUpdate cur None None True True] F"
    and "Freeze_outputs [FreezeToggle, FreezeToggle, FreezeUpdate cur None None True True] F
           \<noteq> Freeze_outputs [FreezeUpdate cur None None True True] F"
proof -
  define E where "E = F\<lparr> m_readPos_f := m_writePos_f F \<rparr>"
  have E: "m_isEnabled_f E" "m_onsetAtSample_f E = 0" "m_releaseAtSample_f E = 0"
    "m_readPos_f E < FREEZE_BUFFER_SAMPLES" "m_readPos_f E = m_writePos_f F"
    "m_freezeBufferL E = m_freezeBufferL F"
    using e o l w by (simp_all add: E_def)
  have en: "Freeze_enable F = E" unfolding E_def using e by (rule Freeze_enable_when_enabled)
  have tg: "Freeze_toggle (Freeze_toggle F) = E" unfolding E_def by (rule Freeze_toggle_twice)
  have n: "map (\<lambda>j. m_freezeBufferL E ((m_readPos_f E + j) mod FREEZE_BUFFER_SAMPLES))
              [0..<AUDIO_BLOCK_SAMPLES]
        \<noteq> map (\<lambda>j. m_freezeBufferL F ((m_readPos_f F + j) mod FREEZE_BUFFER_SAMPLES))
              [0..<AUDIO_BLOCK_SAMPLES]"
    by (rule map_block_neq) (use d r w in \<open>simp add: E\<close>)
  have x: "snd (Freeze_update cur None None True True E)
        \<noteq> snd (Freeze_update cur None None True True F)"
    unfolding Freeze_update_frozen [OF E(1-4)] Freeze_update_frozen [OF e o l r]
    using n by simp
  show "Freeze_outputs [FreezeEnable, FreezeUpdate cur None None True True] F
           \<noteq> Freeze_outputs [FreezeUpdate cur None None True True] F"
    using x by (simp add: en split_beta)
  show "Freeze_outputs [FreezeToggle, FreezeToggle, FreezeUpdate cur None None True True] F
           \<noteq> Freeze_outputs [FreezeUpdate cur None None True True] F"
    using x by (simp add: tg split_beta)
qed

text \<open>
  Claim C8 as stated fails for FREEZE. Record one block holding the samples 1 to 128,
  freeze, and play one block: the engine is frozen with the read position at
  (128 + 128) mod 132 = 124 and the write position at 128. The next block it transmits
  starts with buffer[124] = 125. After an \<open>enable()\<close>, or after two \<open>toggle()\<close>, the
  read position is back at 128 and the next block starts with buffer[128] = 0: the
  transmitted audio differs.
\<close>

theorem freeze_enable_toggle_refuted:
  "m_isEnabled_f (Freeze_run [FreezeUpdate 0 (Some (map of_nat [1..<129])) (Some (map of_nat [1..<129])) True True,
        FreezeEnable, FreezeUpdate 128 None None True True] Freeze_init)
   \<and> Freeze_outputs [FreezeEnable, FreezeUpdate 256 None None True True]
        (Freeze_run [FreezeUpdate 0 (Some (map of_nat [1..<129])) (Some (map of_nat [1..<129])) True True,
           FreezeEnable, FreezeUpdate 128 None None True True] Freeze_init)
      \<noteq> Freeze_outputs [FreezeUpdate 256 None None True True]
        (Freeze_run [FreezeUpdate 0 (Some (map of_nat [1..<129])) (Some (map of_nat [1..<129])) True True,
           FreezeEnable, FreezeUpdate 128 None None True True] Freeze_init)
   \<and> Freeze_outputs [FreezeToggle, FreezeToggle, FreezeUpdate 256 None None True True]
        (Freeze_run [FreezeUpdate 0 (Some (map of_nat [1..<129])) (Some (map of_nat [1..<129])) True True,
           FreezeEnable, FreezeUpdate 128 None None True True] Freeze_init)
      \<noteq> Freeze_outputs [FreezeUpdate 256 None None True True]
        (Freeze_run [FreezeUpdate 0 (Some (map of_nat [1..<129])) (Some (map of_nat [1..<129])) True True,
           FreezeEnable, FreezeUpdate 128 None None True True] Freeze_init)"
proof -
  define F where "F = Freeze_run [FreezeUpdate 0 (Some (map of_nat [1..<129])) (Some (map of_nat [1..<129])) True True,
        FreezeEnable, FreezeUpdate 128 None None True True] Freeze_init"
  note st = freeze_example_state [folded F_def]
  have r: "m_readPos_f F < FREEZE_BUFFER_SAMPLES" and w: "m_writePos_f F < FREEZE_BUFFER_SAMPLES"
    by (simp_all add: st FREEZE_BUFFER_SAMPLES_132)
  have d: "m_freezeBufferL F (m_readPos_f F) \<noteq> m_freezeBufferL F (m_writePos_f F)"
    by (simp add: st)
  show ?thesis
    unfolding F_def [symmetric]
    using st(1) freeze_reset_audible [OF st(1-3) r w d, of 256] by simp
qed

text \<open>
  Claim C8, as the engines keep it. CHOKE, in every state reachable from the constructor
  by its public operations: \<open>enable()\<close> when enabled and \<open>toggle()\<close> twice leave the
  whole engine as it was, hence its audio too. FREEZE, in any state: \<open>enable()\<close> when
  enabled and \<open>toggle()\<close> twice change nothing but the read position, which they set
  to the write position; so they change nothing at all when the engine is frozen with
  the read position at the write position, and two \<open>toggle()\<close> on an engine that is
  not frozen leave the blocks transmitted under every later history unchanged.
\<close>

theorem enable_toggle_noop:
  "(m_isEnabled_c (Choke_run cops Choke_init)
      \<longrightarrow> Choke_enable (Choke_run cops Choke_init) = Choke_run cops Choke_init)
   \<and> Choke_toggle (Choke_toggle (Choke_run cops Choke_init)) = Choke_run cops Choke_init
   \<and> (m_isEnabled_f f \<longrightarrow> Freeze_enable f = f\<lparr> m_readPos_f := m_writePos_f f \<rparr>)
   \<and> Freeze_toggle (Freeze_toggle f) = f\<lparr> m_readPos_f := m_writePos_f f \<rparr>
   \<and> (m_isEnabled_f f \<and> m_readPos_f f = m_writePos_f f
      \<longrightarrow> Freeze_enable f = f \<and> Freeze_toggle (Freeze_toggle f) = f)
   \<and> (\<not> m_isEnabled_f g
      \<longrightarrow> Freeze_outputs ops (Freeze_toggle (Freeze_toggle g)) = Freeze_outputs ops g)"
proof -
  have c: "choke_inv (Choke_run cops Choke_init)" by (rule choke_inv_run [OF choke_inv_init])
  have 1: "m_isEnabled_c (Choke_run cops Choke_init)
      \<longrightarrow> Choke_enable (Choke_run cops Choke_init) = Choke_run cops Choke_init"
    using Choke_enable_idem [OF c] by blast
  have 2: "Choke_toggle (Choke_toggle (Choke_run cops Choke_init)) = Choke_run cops Choke_init"
    by (rule Choke_toggle_twice [OF c])
  have 3: "m_isEnabled_f f \<longrightarrow> Freeze_enable f = f\<lparr> m_readPos_f := m_writePos_f f \<rparr>"
    using Freeze_enable_when_enabled by blast
  have 4: "Freeze_toggle (Freeze_toggle f) = f\<lparr> m_readPos_f := m_writePos_f f \<rparr>"
    by (rule Freeze_toggle_twice)
  have 5: "m_isEnabled_f f \<and> m_readPos_f f = m_writePos_f f
      \<longrightarrow> Freeze_enable f = f \<and> Freeze_toggle (Freeze_toggle f) = f"
    by (simp add: Freeze_toggle_twice Freeze_enable_def)
  have 6: "\<not> m_isEnabled_f g
      \<longrightarrow> Freeze_outputs ops (Freeze_toggle (Freeze_toggle g)) = Freeze_outputs ops g"
  proof
    assume d: "\<not> m_isEnabled_f g"
    have "freeze_obs_eq (Freeze_toggle (Freeze_toggle g)) g"
      unfolding Freeze_toggle_twice using d by (rule freeze_obs_eq_readPos)
    then show "Freeze_outputs ops (Freeze_toggle (Freeze_toggle g)) = Freeze_outputs ops g"
      by (rule Freeze_outputs_obs_eq)
  qed
  show ?thesis using 1 2 3 4 5 6 by (intro conjI)
qed

text \<open>
  The statement at concrete engines: CHOKE after one \<open>enable()\<close>, FREEZE after one
  \<open>enable()\<close> (frozen, read position at the write position), and the fresh FREEZE
  engine (not frozen) followed by a history that freezes and plays.
\<close>

theorem enable_toggle_noop_witness:
  "m_isEnabled_c (Choke_run [ChokeEnable] Choke_init)
   \<and> Choke_enable (Choke_run [ChokeEnable] Choke_init) = Choke_run [ChokeEnable] Choke_init
   \<and> Choke_toggle (Choke_toggle (Choke_run [ChokeEnable] Choke_init)) = Choke_run [ChokeEnable] Choke_init
   \<and> m_isEnabled_f (Freeze_enable Freeze_init)
   \<and> m_readPos_f (Freeze_enable Freeze_init) = m_writePos_f (Freeze_enable Freeze_init)
   \<and> Freeze_enable (Freeze_enable Freeze_init) = Freeze_enable Freeze_init
   \<and> Freeze_toggle (Freeze_toggle (Freeze_enable Freeze_init)) = Freeze_enable Freeze_init
   \<and> \<not> m_isEnabled_f Freeze_init
   \<and> Freeze_outputs [FreezeUpdate 0 None None True True, FreezeEnable,
                      FreezeUpdate 128 None None True True]
        (Freeze_toggle (Freeze_toggle Freeze_init))
      = Freeze_outputs [FreezeUpdate 0 None None True True, FreezeEnable,
                      FreezeUpdate 128 None None True True] Freeze_init"
  using enable_toggle_noop [of "[ChokeEnable]" "Freeze_enable Freeze_init" Freeze_init
      "[FreezeUpdate 0 None None True True, FreezeEnable, FreezeUpdate 128 None None True True]"]
  by (simp add: Choke_enable_def Choke_init_def Freeze_enable_def Freeze_init_def)

end
